(* ===== verification/Prelude.thy ===== *)
theory Prelude
  imports Main
begin

text \<open>
  What every component of the admin console shares: JavaScript values and the exceptions
  the code can raise, the string functions of the language the sources call
  (\<open>trim\<close>, \<open>toLowerCase\<close>, \<open>includes\<close>, \<open>startsWith\<close>, \<open>split\<close>, \<open>join\<close>, template
  coercion), the sequencing of computations that may throw, and reachability for step
  relations with its invariant rule as a locale.

  A JavaScript string is the list of its UTF-16 code units; the model covers the units
  below 256 (one Isabelle character each). A number is an exact decimal: an integer below
  \<open>10 ^ 21\<close> in magnitude is \<open>JNum\<close>, every other finite decimal is \<open>JDec m e\<close>,
  the number \<open>m * 10 ^ e\<close> with no trailing zero in \<open>m\<close>. A double prints back such a
  decimal unchanged when it has at most 15 significant digits, which is the range covered.
\<close>

section \<open>Hint collections\<close>

named_theorems js_simps \<open>evaluation rules of the JavaScript operations\<close>
named_theorems inv_intros \<open>preservation of the invariants by single operations\<close>

section \<open>Values\<close>

datatype jsval =
    JUndef
  | JNull
  | JBool bool
  | JNum int
  | JDec int int
  | JNaN
  | JStr string
  | JArr "jsval list"
  | JObj "(string \<times> jsval) list"

text \<open>Everything the modelled code can throw or reject with.\<close>

datatype js_error =
    TypeError
  | SyntaxError
  | InvalidCharacterError
  | RequestFailed "nat option"
  | ThrownError string
  | InvalidChild

type_synonym 'a js = "js_error + 'a"

abbreviation throw :: "js_error \<Rightarrow> 'a js" where
  "throw e \<equiv> Inl e"

abbreviation return :: "'a \<Rightarrow> 'a js" where
  "return x \<equiv> Inr x"

fun and_then :: "'a js \<Rightarrow> ('a \<Rightarrow> 'b js) \<Rightarrow> 'b js" where
  "and_then (Inl e) f = Inl e"
| "and_then (Inr x) f = f x"

fun try_catch :: "'a js \<Rightarrow> (js_error \<Rightarrow> 'a js) \<Rightarrow> 'a js" where
  "try_catch (Inl e) h = h e"
| "try_catch (Inr x) h = Inr x"

fun map_js :: "('a \<Rightarrow> 'b js) \<Rightarrow> 'a list \<Rightarrow> 'b list js" where
  "map_js f [] = Inr []"
| "map_js f (x # xs) =
     and_then (f x) (\<lambda>y. and_then (map_js f xs) (\<lambda>ys. Inr (y # ys)))"

lemma and_then_Inr_iff: "and_then m f = Inr y \<longleftrightarrow> (\<exists>x. m = Inr x \<and> f x = Inr y)"
  by (cases m) auto

lemma and_then_Inl_iff:
  "and_then m f = Inl e \<longleftrightarrow> m = Inl e \<or> (\<exists>x. m = Inr x \<and> f x = Inl e)"
  by (cases m) auto

lemma map_js_return [simp]: "map_js (\<lambda>x. Inr (f x)) xs = Inr (map f xs)"
  by (induction xs) auto

lemma map_js_Inr_length: "map_js f xs = Inr ys \<Longrightarrow> length ys = length xs"
  by (induction xs arbitrary: ys) (auto simp: and_then_Inr_iff)

lemma map_js_cong [fundef_cong]:
  "xs = ys \<Longrightarrow> (\<And>x. x \<in> set ys \<Longrightarrow> f x = g x) \<Longrightarrow> map_js f xs = map_js g ys"
proof (induction xs arbitrary: ys)
  case (Cons a as)
  then obtain bs where "ys = a # bs" "as = bs" by auto
  with Cons show ?case by simp
qed simp

section \<open>Strings\<close>

definition code :: "char \<Rightarrow> nat" where
  "code c = of_char c"

lemma code_Char [simp]:
  "code (CHR 0x00) = 0"
  by (simp add: code_def)

lemma code_inject: "code c = code d \<longleftrightarrow> c = d"
  by (simp add: code_def)

lemma code_less: "code c < 256"
  by (simp add: code_def)

lemma code_char_of: "n < 256 \<Longrightarrow> code (char_of n) = n"
  by (simp add: code_def)

definition is_ws :: "char \<Rightarrow> bool" where
  \<comment> \<open>white space and line terminators of the language, below 256\<close>
  "is_ws c \<longleftrightarrow> code c \<in> {9, 10, 11, 12, 13, 32, 160}"

definition js_trim :: "string \<Rightarrow> string" where
  "js_trim s = rev (dropWhile is_ws (rev (dropWhile is_ws s)))"

definition lower_char :: "char \<Rightarrow> char" where
  "lower_char c =
     (if 65 \<le> code c \<and> code c \<le> 90 \<or> 192 \<le> code c \<and> code c \<le> 222 \<and> code c \<noteq> 215
      then char_of (code c + 32) else c)"

definition to_lower :: "string \<Rightarrow> string" where
  "to_lower s = map lower_char s"

definition starts_with :: "string \<Rightarrow> string \<Rightarrow> bool" where
  "starts_with s p \<longleftrightarrow> take (length p) s = p"

fun includes_str :: "string \<Rightarrow> string \<Rightarrow> bool" where
  "includes_str [] p \<longleftrightarrow> p = []"
| "includes_str (c # s) p \<longleftrightarrow> starts_with (c # s) p \<or> includes_str s p"

fun split_on :: "char \<Rightarrow> string \<Rightarrow> string list" where
  "split_on d [] = [[]]"
| "split_on d (c # s) =
     (if c = d then [] # split_on d s
      else case split_on d s of [] \<Rightarrow> [[c]] | w # ws \<Rightarrow> (c # w) # ws)"

fun join_with :: "string \<Rightarrow> string list \<Rightarrow> string" where
  "join_with d [] = []"
| "join_with d [w] = w"
| "join_with d (w # v # ws) = w @ d @ join_with d (v # ws)"

lemma starts_with_iff: "starts_with s p \<longleftrightarrow> (\<exists>r. s = p @ r)"
proof
  assume "starts_with s p"
  then have "s = p @ drop (length p) s"
    by (metis append_take_drop_id starts_with_def)
  then show "\<exists>r. s = p @ r" ..
qed (auto simp: starts_with_def)

lemma includes_str_iff: "includes_str s p \<longleftrightarrow> (\<exists>u v. s = u @ p @ v)"
proof (induction s)
  case (Cons c s)
  have "(\<exists>u v. c # s = u @ p @ v) \<longleftrightarrow>
      (\<exists>v. c # s = p @ v) \<or> (\<exists>u v. s = u @ p @ v)"
    by (metis append_Cons append_Nil neq_Nil_conv list.inject)
  with Cons.IH show ?case by (simp add: starts_with_iff)
qed auto

lemma includes_str_empty [simp]: "includes_str s []"
  by (cases s) (auto simp: starts_with_def)

lemma split_on_nonempty [simp]: "split_on d s \<noteq> []"
  by (induction s) (auto split: list.splits)

lemma join_split [simp]: "join_with [d] (split_on d s) = s"
proof (induction s)
  case (Cons c s)
  then show ?case by (cases "split_on d s" rule: remdups_adj.cases) auto
qed simp

lemma split_on_absent: "d \<notin> set w \<Longrightarrow> split_on d w = [w]"
  by (induction w) auto

lemma split_on_append: "d \<notin> set w \<Longrightarrow> split_on d (w @ d # s) = w # split_on d s"
  by (induction w) auto

lemma split_join:
  "ws \<noteq> [] \<Longrightarrow> \<forall>w \<in> set ws. d \<notin> set w \<Longrightarrow> split_on d (join_with [d] ws) = ws"
  by (induction "[d]" ws rule: join_with.induct) (auto simp: split_on_absent split_on_append)

lemma split_on_pieces: "w \<in> set (split_on d s) \<Longrightarrow> d \<notin> set w"
proof (induction s arbitrary: w)
  case (Cons c s)
  then show ?case by (cases "split_on d s") (auto split: if_splits)
qed simp

definition trimmed :: "string \<Rightarrow> bool" where
  "trimmed s \<longleftrightarrow> s = [] \<or> \<not> is_ws (hd s) \<and> \<not> is_ws (last s)"

lemma js_trim_trimmed: "trimmed (js_trim s)"
proof -
  define a where "a = dropWhile is_ws s"
  define r where "r = dropWhile is_ws (rev a)"
  have trim: "js_trim s = rev r" by (simp add: js_trim_def a_def r_def)
  obtain p where "rev a = p @ r"
    using takeWhile_dropWhile_id r_def by metis
  then have a: "a = rev r @ rev p" by (metis rev_append rev_rev_ident)
  show ?thesis
  proof (cases "r = []")
    case False
    then have "\<not> is_ws (hd r)" unfolding r_def by (rule hd_dropWhile)
    moreover have "\<not> is_ws (hd a)"
      unfolding a_def by (rule hd_dropWhile) (use a False a_def in force)
    moreover have "hd a = hd (rev r)" using a False by (simp add: hd_append)
    ultimately show ?thesis by (simp add: trim trimmed_def last_rev)
  qed (simp add: trim trimmed_def)
qed

lemma js_trim_id: "trimmed s \<Longrightarrow> js_trim s = s"
proof (cases "s = []")
  case False
  moreover assume "trimmed s"
  ultimately have "dropWhile is_ws s = s" and "dropWhile is_ws (rev s) = rev s"
    by (simp_all add: trimmed_def dropWhile_eq_self_iff hd_rev)
  then show ?thesis by (simp add: js_trim_def)
qed (simp add: js_trim_def)

lemma js_trim_idem [simp]: "js_trim (js_trim s) = js_trim s"
  by (simp add: js_trim_id js_trim_trimmed)

section \<open>Decimal text\<close>

definition digit :: "nat \<Rightarrow> char" where
  "digit n = char_of (48 + n)"

fun nat_str :: "nat \<Rightarrow> string" where
  "nat_str n = (if n < 10 then [digit n] else nat_str (n div 10) @ [digit (n mod 10)])"

declare nat_str.simps [simp del]

definition int_str :: "int \<Rightarrow> string" where
  "int_str i = (if i < 0 then CHR ''-'' # nat_str (nat (- i)) else nat_str (nat i))"

definition is_digit :: "char \<Rightarrow> bool" where
  "is_digit c \<longleftrightarrow> 48 \<le> code c \<and> code c \<le> 57"

definition digit_val :: "char \<Rightarrow> nat" where
  "digit_val c = code c - 48"

definition digits_val :: "string \<Rightarrow> nat" where
  "digits_val s = foldl (\<lambda>n c. 10 * n + digit_val c) 0 s"

definition is_alnum :: "char \<Rightarrow> bool" where
  "is_alnum c \<longleftrightarrow> is_digit c \<or> 65 \<le> code c \<and> code c \<le> 90 \<or> 97 \<le> code c \<and> code c \<le> 122"

lemma digit_facts [simp]:
  "n < 10 \<Longrightarrow> is_digit (digit n)" "n < 10 \<Longrightarrow> digit_val (digit n) = n"
  by (auto simp: digit_def is_digit_def digit_val_def code_char_of)

lemma nat_str_digits: "\<forall>c \<in> set (nat_str n). is_digit c"
proof (induction n rule: nat_str.induct)
  case (1 n)
  then show ?case by (cases "n < 10") (auto simp: nat_str.simps [of n])
qed

lemma nat_str_nonempty [simp]: "nat_str n \<noteq> []"
  by (subst nat_str.simps) simp

lemma digits_val_nat_str [simp]: "digits_val (nat_str n) = n"
proof (induction n rule: nat_str.induct)
  case (1 n)
  then show ?case
    by (cases "n < 10") (auto simp: nat_str.simps [of n] digits_val_def)
qed

lemma nat_str_inject: "nat_str m = nat_str n \<longleftrightarrow> m = n"
  by (metis digits_val_nat_str)

lemma nat_str_hd_zero: "hd (nat_str n) = CHR ''0'' \<longleftrightarrow> n = 0"
proof (induction n rule: nat_str.induct)
  case (1 n)
  show ?case
  proof (cases "n < 10")
    case True
    then have "hd (nat_str n) = digit n" by (simp add: nat_str.simps [of n])
    moreover have "digit n = CHR ''0'' \<longleftrightarrow> n = 0"
      using True by (simp add: digit_def flip: code_inject) (simp add: code_def)
    ultimately show ?thesis by simp
  next
    case False
    with "1" show ?thesis by (simp add: nat_str.simps [of n])
  qed
qed

lemma not_digit_minus: "\<not> is_digit CHR ''-''"
  by (simp add: is_digit_def code_def)

lemma int_str_inject: "int_str i = int_str j \<longleftrightarrow> i = j"
proof -
  have "CHR ''-'' \<noteq> hd (nat_str n)" for n
    using nat_str_digits [of n] not_digit_minus
    by (metis hd_in_set nat_str_nonempty)
  then have "CHR ''-'' # s \<noteq> nat_str n" for s n
    by (metis list.sel(1))
  then show ?thesis
    by (auto simp: int_str_def nat_str_inject dest: sym)
qed

fun strip_zeros :: "nat \<Rightarrow> int \<Rightarrow> nat \<times> int" where
  \<comment> \<open>\<open>n * 10 ^ e\<close> with the trailing zeros of \<open>n\<close> moved to the exponent\<close>
  "strip_zeros n e =
     (if n \<noteq> 0 \<and> n mod 10 = 0 then strip_zeros (n div 10) (e + 1) else (n, e))"

declare strip_zeros.simps [simp del]

definition mk_num :: "bool \<Rightarrow> nat \<Rightarrow> int \<Rightarrow> jsval" where
  \<comment> \<open>the value of the decimal \<open>n * 10 ^ e\<close>, negated if \<open>neg\<close>\<close>
  "mk_num neg n e =
     (if n = 0 then JNum 0
      else case strip_zeros n e of (m, x) \<Rightarrow>
        let s = (if neg then - int m else int m)
        in if 0 \<le> x \<and> int (length (nat_str m)) + x \<le> 21
           then JNum (s * 10 ^ nat x) else JDec s x)"

definition dec_str :: "int \<Rightarrow> int \<Rightarrow> string" where
  \<comment> \<open>Number::toString of \<open>m * 10 ^ e\<close>, by the position of the decimal point\<close>
  "dec_str m e =
     (let ds = nat_str (nat \<bar>m\<bar>);
          n = int (length ds) + e;
          sgn = (if m < 0 then ''-'' else []);
          ex = (if 0 \<le> n - 1 then ''e+'' @ nat_str (nat (n - 1)) else ''e-'' @ nat_str (nat (1 - n)))
      in if 0 \<le> e \<and> n \<le> 21 then sgn @ ds @ replicate (nat e) CHR ''0''
         else if 0 < n \<and> n \<le> 21 then sgn @ take (nat n) ds @ ''.'' @ drop (nat n) ds
         else if - 6 < n \<and> n \<le> 0 then sgn @ ''0.'' @ replicate (nat (- n)) CHR ''0'' @ ds
         else if length ds = 1 then sgn @ ds @ ex
         else sgn @ take 1 ds @ ''.'' @ drop 1 ds @ ex)"

section \<open>Coercions and property access\<close>

fun truthy :: "jsval \<Rightarrow> bool" where
  "truthy JUndef = False"
| "truthy JNull = False"
| "truthy (JBool b) = b"
| "truthy (JNum n) = (n \<noteq> 0)"
| "truthy (JDec m e) = (m \<noteq> 0)"
| "truthy JNaN = False"
| "truthy (JStr s) = (s \<noteq> [])"
| "truthy (JArr vs) = True"
| "truthy (JObj kvs) = True"

definition or_else :: "jsval \<Rightarrow> jsval \<Rightarrow> jsval" where
  \<comment> \<open>the operator \<open>||\<close>\<close>
  "or_else v w = (if truthy v then v else w)"

fun to_str :: "jsval \<Rightarrow> string" where
  "to_str JUndef = ''undefined''"
| "to_str JNull = ''null''"
| "to_str (JBool b) = (if b then ''true'' else ''false'')"
| "to_str (JNum n) = int_str n"
| "to_str (JDec m e) = dec_str m e"
| "to_str JNaN = ''NaN''"
| "to_str (JStr s) = s"
| "to_str (JArr vs) = join_with '','' (map (\<lambda>v. if v = JUndef \<or> v = JNull then [] else to_str v) vs)"
| "to_str (JObj kvs) = ''[object Object]''"

definition obj_get :: "(string \<times> jsval) list \<Rightarrow> string \<Rightarrow> jsval" where
  "obj_get kvs k = (case map_of kvs k of None \<Rightarrow> JUndef | Some v \<Rightarrow> v)"

fun get_prop :: "jsval \<Rightarrow> string \<Rightarrow> jsval js" where
  \<comment> \<open>\<open>v.k\<close> for the own properties the code reads; only null and undefined throw\<close>
  "get_prop JUndef k = throw TypeError"
| "get_prop JNull k = throw TypeError"
| "get_prop (JObj kvs) k = return (obj_get kvs k)"
| "get_prop (JArr vs) k = return (if k = ''length'' then JNum (int (length vs)) else JUndef)"
| "get_prop (JStr s) k = return (if k = ''length'' then JNum (int (length s)) else JUndef)"
| "get_prop _ k = return JUndef"

definition opt_prop :: "jsval \<Rightarrow> string \<Rightarrow> jsval" where
  \<comment> \<open>\<open>v?.k\<close>\<close>
  "opt_prop v k = (case get_prop v k of Inl e \<Rightarrow> JUndef | Inr w \<Rightarrow> w)"

lemma get_prop_throws_iff: "get_prop v k = Inl e \<longleftrightarrow> (v = JUndef \<or> v = JNull) \<and> e = TypeError"
  by (cases v) auto

lemma obj_get_simps [simp]:
  "obj_get [] k = JUndef"
  "obj_get ((k', v) # kvs) k = (if k = k' then v else obj_get kvs k)"
  by (auto simp: obj_get_def)

lemma truthy_or_else: "truthy w \<Longrightarrow> truthy (or_else v w)"
  by (simp add: or_else_def)

section \<open>Step relations\<close>

inductive reach :: "('s \<Rightarrow> bool) \<Rightarrow> ('s \<Rightarrow> 's \<Rightarrow> bool) \<Rightarrow> 's \<Rightarrow> bool" for init step where
  reach_init: "init s \<Longrightarrow> reach init step s"
| reach_step: "reach init step s \<Longrightarrow> step s t \<Longrightarrow> reach init step t"

locale invariant_system =
  fixes init :: "'s \<Rightarrow> bool"
    and step :: "'s \<Rightarrow> 's \<Rightarrow> bool"
    and inv :: "'s \<Rightarrow> bool"
  assumes inv_init: "init s \<Longrightarrow> inv s"
    and inv_step: "step s t \<Longrightarrow> inv s \<Longrightarrow> inv t"
begin

lemma invariant: "reach init step s \<Longrightarrow> inv s"
  by (induction rule: reach.induct) (auto intro: inv_init inv_step)

lemma invariant_steps: "step\<^sup>*\<^sup>* s t \<Longrightarrow> inv s \<Longrightarrow> inv t"
  by (induction rule: rtranclp_induct) (auto intro: inv_step)

end

lemma reach_rtranclp: "reach init step s \<Longrightarrow> step\<^sup>*\<^sup>* s t \<Longrightarrow> reach init step t"
proof -
  assume "step\<^sup>*\<^sup>* s t" and "reach init step s"
  then show ?thesis
    by (induction rule: rtranclp_induct) (auto intro: reach_step)
qed

lemma two_steps: "r a b \<Longrightarrow> r b c \<Longrightarrow> r\<^sup>*\<^sup>* a c"
  by (rule rtranclp.rtrancl_into_rtrancl) (rule r_into_rtranclp)

end
