(* ===== verification/View.thy ===== *)
theory View
  imports Prelude
begin

text \<open>
  What a component renders, and what its code calls on a value whose type it does not check.
  An element is its tag, the attributes the code computes, its event handlers and its
  children; an event handler is the action of the page it triggers. Fixed class names are
  left out. A value placed in an element is turned into nodes by \<open>child\<close>: nothing for null,
  undefined and booleans, the elements of an array one by one, and an object is no valid
  child, which unmounts the page, as does an exception raised while rendering.
\<close>

section \<open>Elements\<close>

datatype 'a event =
    On_Click 'a
  | On_Change "string \<Rightarrow> 'a"
  | On_Key "string \<Rightarrow> 'a option"
  | On_Submit 'a

datatype 'a node =
    Text string
  | Elem string "(string \<times> jsval) list" "'a event list" "'a node list"

type_synonym 'a view = "'a node list js"

definition children :: "'a view list \<Rightarrow> 'a view" where
  "children vs = and_then (map_js (\<lambda>v. v) vs) (\<lambda>nss. return (concat nss))"

fun child :: "jsval \<Rightarrow> 'a view" where
  "child JUndef = return []"
| "child JNull = return []"
| "child (JBool b) = return []"
| "child (JObj kvs) = throw InvalidChild"
| "child (JArr vs) = and_then (map_js child vs) (\<lambda>nss. return (concat nss))"
| "child v = return [Text (to_str v)]"

definition label :: "string \<Rightarrow> 'a view" where
  "label s = return [Text s]"

definition el :: "string \<Rightarrow> 'a view list \<Rightarrow> 'a view" where
  "el tag vs = and_then (children vs) (\<lambda>ns. return [Elem tag [] [] ns])"

definition elem :: "string \<Rightarrow> (string \<times> jsval) list \<Rightarrow> 'a event list \<Rightarrow> 'a view list \<Rightarrow> 'a view" where
  "elem tag attrs evs vs = and_then (children vs) (\<lambda>ns. return [Elem tag attrs evs ns])"

definition icon :: "string \<Rightarrow> 'a view" where
  \<comment> \<open>an icon of the icon library, by name\<close>
  "icon name = return [Elem name [] [] []]"

definition show_if :: "bool \<Rightarrow> 'a view \<Rightarrow> 'a view" where
  \<comment> \<open>\<open>b && view\<close> for a boolean \<open>b\<close>\<close>
  "show_if b v = (if b then v else return [])"

definition guard_child :: "jsval \<Rightarrow> 'a view \<Rightarrow> 'a view" where
  \<comment> \<open>\<open>value && view\<close>: a falsy value is itself the child\<close>
  "guard_child v view = (if truthy v then view else child v)"

definition each :: "jsval list \<Rightarrow> (jsval \<Rightarrow> 'a view) \<Rightarrow> 'a view" where
  "each vs f = and_then (map_js f vs) (\<lambda>nss. return (concat nss))"

definition skeleton :: "nat \<Rightarrow> 'a view" where
  \<comment> \<open>the grey boxes shown while data loads\<close>
  "skeleton n = el ''div'' (replicate n (el ''div'' []))"

lemmas view_simps = children_def label_def el_def elem_def icon_def show_if_def guard_child_def each_def

section \<open>Reading a view\<close>

fun texts :: "'a node \<Rightarrow> string list" where
  "texts (Text s) = [s]"
| "texts (Elem tag attrs evs ns) = concat (map texts ns)"

fun clicks :: "'a node \<Rightarrow> 'a list" where
  "clicks (Text s) = []"
| "clicks (Elem tag attrs evs ns) =
     concat (map (\<lambda>e. case e of On_Click a \<Rightarrow> [a] | _ \<Rightarrow> []) evs) @ concat (map clicks ns)"

definition view_texts :: "'a view \<Rightarrow> string list" where
  "view_texts v = (case v of Inl e \<Rightarrow> [] | Inr ns \<Rightarrow> concat (map texts ns))"

definition view_clicks :: "'a view \<Rightarrow> 'a list" where
  "view_clicks v = (case v of Inl e \<Rightarrow> [] | Inr ns \<Rightarrow> concat (map clicks ns))"

definition crashes :: "'b js \<Rightarrow> bool" where
  "crashes v \<longleftrightarrow> (\<exists>e. v = Inl e)"

section \<open>Methods on unchecked values\<close>

definition as_string :: "jsval \<Rightarrow> string js" where
  \<comment> \<open>calling a string method; a value that is no string has none\<close>
  "as_string v = (case v of JStr s \<Rightarrow> return s | _ \<Rightarrow> throw TypeError)"

definition as_array :: "jsval \<Rightarrow> jsval list js" where
  \<comment> \<open>calling \<open>map\<close>, \<open>filter\<close> or \<open>join\<close>, which strings do not have\<close>
  "as_array v = (case v of JArr vs \<Rightarrow> return vs | _ \<Rightarrow> throw TypeError)"

definition signed_digits :: "string \<Rightarrow> int option" where
  "signed_digits t =
     (let ds = (if starts_with t ''-'' \<or> starts_with t ''+'' then drop 1 t else t)
      in if ds \<noteq> [] \<and> list_all is_digit ds
         then Some (if starts_with t ''-'' then - int (digits_val ds) else int (digits_val ds)) else None)"

fun whole_number :: "jsval \<Rightarrow> int option" where
  \<comment> \<open>conversion to a number, for whole numbers; \<open>None\<close> is NaN. Fractions, and texts in
     hexadecimal or exponent notation, are outside the model\<close>
  "whole_number (JNum n) = Some n"
| "whole_number (JBool b) = Some (if b then 1 else 0)"
| "whole_number JNull = Some 0"
| "whole_number (JStr s) = (if js_trim s = [] then Some 0 else signed_digits (js_trim s))"
| "whole_number _ = None"

definition positive_num :: "jsval \<Rightarrow> bool" where
  \<comment> \<open>\<open>v > 0\<close>\<close>
  "positive_num v =
     (case v of
        JDec m e \<Rightarrow> 0 < m
      | _ \<Rightarrow> (case whole_number v of None \<Rightarrow> False | Some n \<Rightarrow> 0 < n))"

definition strict_eq :: "jsval \<Rightarrow> jsval \<Rightarrow> bool" where
  \<comment> \<open>\<open>===\<close> on two members of parsed values: distinct objects are never equal\<close>
  "strict_eq v w \<longleftrightarrow> v = w \<and> (case v of JNaN \<Rightarrow> False | JArr vs \<Rightarrow> False | JObj kvs \<Rightarrow> False | _ \<Rightarrow> True)"

section \<open>Composition\<close>

lemma children_Inr_iff: "children vs = Inr ns \<longleftrightarrow> (\<exists>nss. map_js (\<lambda>v. v) vs = Inr nss \<and> ns = concat nss)"
  by (auto simp: children_def and_then_Inr_iff)

lemma crashes_basic [simp]:
  "crashes (Inl e)" "\<not> crashes (Inr x)"
  "crashes (and_then m f) \<longleftrightarrow> crashes m \<or> (\<exists>x. m = Inr x \<and> crashes (f x))"
  by (auto simp: crashes_def and_then_Inl_iff)

lemma crashes_map_js [simp]: "crashes (map_js f xs) \<longleftrightarrow> (\<exists>x \<in> set xs. crashes (f x))"
proof (induction xs)
  case (Cons a xs)
  then show ?case by (cases "f a"; cases "map_js f xs") auto
qed simp

lemma crashes_view [simp]:
  "crashes (children vs) \<longleftrightarrow> (\<exists>v \<in> set vs. crashes v)"
  "crashes (el tag vs) \<longleftrightarrow> (\<exists>v \<in> set vs. crashes v)"
  "crashes (elem tag attrs evs vs) \<longleftrightarrow> (\<exists>v \<in> set vs. crashes v)"
  "crashes (each xs f) \<longleftrightarrow> (\<exists>x \<in> set xs. crashes (f x))"
  "\<not> crashes (label s)" "\<not> crashes (icon i)"
  "crashes (show_if b v) \<longleftrightarrow> b \<and> crashes v"
  by (simp_all add: children_def el_def elem_def each_def label_def icon_def show_if_def)

lemma falsy_child: "\<not> truthy v \<Longrightarrow> \<not> crashes (child v)"
  by (cases v) auto

lemma crashes_guard [simp]:
  "crashes (guard_child v w) \<longleftrightarrow> truthy v \<and> crashes w"
  by (simp add: guard_child_def falsy_child)

lemma crashes_skeleton [simp]: "\<not> crashes (skeleton n)"
  by (simp add: skeleton_def)

lemma children_single [simp]: "children [v] = v"
  by (cases v) (simp_all add: children_def)

text \<open>The texts and the click actions of a view that does not crash are those of its parts.\<close>

lemma not_crashes: "\<not> crashes v \<longleftrightarrow> (\<exists>ns. v = Inr ns)"
  by (cases v) auto

lemma map_js_id_Inr: "map_js (\<lambda>v. v) vs = Inr xs \<longleftrightarrow> vs = map Inr xs"
  by (induction vs arbitrary: xs) (auto simp: and_then_Inr_iff)

lemma map_js_Inr_iff: "map_js f xs = Inr ys \<longleftrightarrow> map f xs = map Inr ys"
  by (induction xs arbitrary: ys) (auto simp: and_then_Inr_iff)

lemma not_crashes_children:
  assumes "\<not> crashes (children vs)"
  obtains nss where "vs = map Inr nss" and "children vs = Inr (concat nss)"
proof -
  from iffD1 [OF not_crashes assms] obtain ns where c: "children vs = Inr ns" by (elim exE)
  then obtain nss where "map_js (\<lambda>v. v) vs = Inr nss" and ns: "ns = concat nss"
    unfolding children_Inr_iff by blast
  then have "vs = map Inr nss" by (simp only: map_js_id_Inr)
  with c ns that show ?thesis by blast
qed

lemma view_texts_simps [simp]:
  "view_texts (Inl e) = []" "view_texts (label s) = [s]" "view_texts (icon i) = []"
  "view_texts (Inr []) = []" "view_texts (show_if b v) = (if b then view_texts v else [])"
  "view_texts (el tag vs) = view_texts (children vs)"
  "view_texts (elem tag attrs evs vs) = view_texts (children vs)"
  by (cases "children vs"; simp add: view_texts_def label_def icon_def show_if_def el_def elem_def)+

lemma view_texts_children: "\<not> crashes (children vs) \<Longrightarrow> view_texts (children vs) = concat (map view_texts vs)"
proof -
  assume "\<not> crashes (children vs)"
  then obtain nss where "vs = map Inr nss" "children vs = Inr (concat nss)" by (rule not_crashes_children)
  moreover have "concat (map texts (concat nss)) = concat (map (\<lambda>ns. concat (map texts ns)) nss)"
    by (induction nss) simp_all
  ultimately show ?thesis by (simp add: view_texts_def o_def)
qed

lemma view_texts_part:
  "t \<in> set (view_texts v) \<Longrightarrow> v \<in> set vs \<Longrightarrow> \<not> crashes (el tag vs) \<Longrightarrow> t \<in> set (view_texts (el tag vs))"
  by (auto simp: view_texts_children)

lemma each_children: "each xs f = children (map f xs)"
proof -
  have "map_js (\<lambda>v. v) (map f xs) = map_js f xs" by (induction xs) simp_all
  then show ?thesis by (simp add: each_def children_def)
qed

lemma view_texts_each:
  "\<not> crashes (each xs f) \<Longrightarrow> view_texts (each xs f) = concat (map (\<lambda>x. view_texts (f x)) xs)"
  unfolding each_children by (simp add: view_texts_children o_def del: crashes_view)

lemma view_clicks_children: "\<not> crashes (children vs) \<Longrightarrow> view_clicks (children vs) = concat (map view_clicks vs)"
proof -
  assume "\<not> crashes (children vs)"
  then obtain nss where "vs = map Inr nss" "children vs = Inr (concat nss)" by (rule not_crashes_children)
  moreover have "concat (map clicks (concat nss)) = concat (map (\<lambda>ns. concat (map clicks ns)) nss)"
    by (induction nss) simp_all
  ultimately show ?thesis by (simp add: view_clicks_def o_def)
qed

lemma view_clicks_each:
  "\<not> crashes (each xs f) \<Longrightarrow> view_clicks (each xs f) = concat (map (\<lambda>x. view_clicks (f x)) xs)"
  unfolding each_children by (simp add: view_clicks_children o_def del: crashes_view)

definition event_clicks :: "'a event list \<Rightarrow> 'a list" where
  "event_clicks evs = concat (map (\<lambda>e. case e of On_Click a \<Rightarrow> [a] | _ \<Rightarrow> []) evs)"

lemma view_clicks_simps [simp]:
  "view_clicks (Inl e) = []" "view_clicks (label s) = []" "view_clicks (icon i) = []"
  "view_clicks (Inr []) = []" "view_clicks (show_if b v) = (if b then view_clicks v else [])"
  "view_clicks (el tag vs) = view_clicks (children vs)"
  "\<not> crashes (children vs) \<Longrightarrow> view_clicks (elem tag attrs evs vs) = event_clicks evs @ view_clicks (children vs)"
  by (cases "children vs"; simp add: view_clicks_def event_clicks_def label_def icon_def show_if_def el_def elem_def)+

lemma view_clicks_child [simp]: "view_clicks (child v) = []"
proof -
  have "clicks n = []" if "child v = Inr ns" "n \<in> set ns" for n :: "'a node" and ns
    using that
  proof (induction v arbitrary: ns n)
    case (JArr vs)
    then obtain nss where "map_js child vs = Inr nss" "ns = concat nss" by (auto simp: and_then_Inr_iff)
    with JArr show ?case
      by (auto simp: map_js_Inr_iff) (metis (no_types, lifting) imageE image_eqI list.set_map)
  qed auto
  then show ?thesis by (cases "child v :: 'a view") (auto simp: view_clicks_def)
qed

end
