(* ===== verification/Types.thy ===== *)
theory Types
  imports View
begin

text \<open>
  The interfaces of lib/api.ts and of the live events, and the types of a user and an API key, as
  predicates on the values the client receives and sends. The
  source states them for the type checker only; nothing compares an answer of the server with
  them. The pages' lemmas show that values of these types crash no page.
\<close>

section \<open>Type constructors\<close>

fun is_string :: "jsval \<Rightarrow> bool" where
  "is_string (JStr s) \<longleftrightarrow> True"
| "is_string _ \<longleftrightarrow> False"

fun is_number :: "jsval \<Rightarrow> bool" where
  "is_number (JNum n) \<longleftrightarrow> True"
| "is_number (JDec m e) \<longleftrightarrow> True"
| "is_number JNaN \<longleftrightarrow> True"
| "is_number _ \<longleftrightarrow> False"

fun list_of :: "(jsval \<Rightarrow> bool) \<Rightarrow> jsval \<Rightarrow> bool" where
  "list_of p (JArr vs) \<longleftrightarrow> list_all p vs"
| "list_of p _ \<longleftrightarrow> False"

fun record_of :: "(jsval \<Rightarrow> bool) \<Rightarrow> jsval \<Rightarrow> bool" where
  "record_of p (JObj kvs) \<longleftrightarrow> list_all (\<lambda>kv. p (snd kv)) kvs"
| "record_of p _ \<longleftrightarrow> False"

definition is_object :: "jsval \<Rightarrow> bool" where
  "is_object v \<longleftrightarrow> record_of (\<lambda>_. True) v"

definition optional :: "(jsval \<Rightarrow> bool) \<Rightarrow> jsval \<Rightarrow> bool" where
  "optional p v \<longleftrightarrow> v = JUndef \<or> p v"

section \<open>The interfaces\<close>

definition is_check :: "jsval \<Rightarrow> bool" where
  "is_check c \<longleftrightarrow> is_object c \<and> optional is_string (opt_prop c ''ttl'')
     \<and> optional is_string (opt_prop c ''http'') \<and> optional is_string (opt_prop c ''interval'')"

definition is_Service :: "jsval \<Rightarrow> bool" where
  "is_Service s \<longleftrightarrow> is_object s
     \<and> is_string (opt_prop s ''id'') \<and> is_string (opt_prop s ''name'')
     \<and> is_string (opt_prop s ''address'') \<and> is_number (opt_prop s ''port'')
     \<and> list_of is_string (opt_prop s ''tags'')
     \<and> optional (record_of is_string) (opt_prop s ''metadata'')
     \<and> optional is_check (opt_prop s ''check'')
     \<and> optional is_string (opt_prop s ''status'') \<and> optional is_string (opt_prop s ''last_heartbeat'')"

definition is_KVPair :: "jsval \<Rightarrow> bool" where
  "is_KVPair kv \<longleftrightarrow> is_object kv
     \<and> is_string (opt_prop kv ''key'') \<and> is_string (opt_prop kv ''value'')
     \<and> optional is_number (opt_prop kv ''flags'') \<and> optional is_number (opt_prop kv ''create_index'')
     \<and> optional is_number (opt_prop kv ''modify_index'')"

definition is_service_counts :: "jsval \<Rightarrow> bool" where
  "is_service_counts c \<longleftrightarrow> is_object c \<and> is_number (opt_prop c ''total'')
     \<and> is_number (opt_prop c ''healthy'') \<and> is_number (opt_prop c ''unhealthy'')"

definition is_memory :: "jsval \<Rightarrow> bool" where
  "is_memory m \<longleftrightarrow> is_object m \<and> is_number (opt_prop m ''alloc'') \<and> is_number (opt_prop m ''total_alloc'')
     \<and> is_number (opt_prop m ''sys'') \<and> is_number (opt_prop m ''heap_alloc'') \<and> is_number (opt_prop m ''heap_sys'')"

definition is_system :: "jsval \<Rightarrow> bool" where
  "is_system s \<longleftrightarrow> is_object s \<and> is_number (opt_prop s ''goroutines'') \<and> is_memory (opt_prop s ''memory'')"

definition is_HealthResponse :: "jsval \<Rightarrow> bool" where
  "is_HealthResponse h \<longleftrightarrow> is_object h
     \<and> is_string (opt_prop h ''status'') \<and> is_number (opt_prop h ''uptime'')
     \<and> is_string (opt_prop h ''timestamp'') \<and> optional is_string (opt_prop h ''version'')
     \<and> optional is_service_counts (opt_prop h ''services'')
     \<and> optional (\<lambda>kv. is_object kv \<and> is_number (opt_prop kv ''total_keys'')) (opt_prop h ''kv'')
     \<and> optional is_system (opt_prop h ''system'')"

definition is_RegisterServiceRequest :: "jsval \<Rightarrow> bool" where
  "is_RegisterServiceRequest r \<longleftrightarrow> is_object r
     \<and> optional is_string (opt_prop r ''id'') \<and> is_string (opt_prop r ''name'')
     \<and> is_string (opt_prop r ''address'') \<and> is_number (opt_prop r ''port'')
     \<and> optional (list_of is_string) (opt_prop r ''tags'')
     \<and> optional (record_of is_string) (opt_prop r ''metadata'')
     \<and> optional is_check (opt_prop r ''check'')"

definition is_User :: "jsval \<Rightarrow> bool" where
  \<comment> \<open>of contexts/AuthContext.tsx\<close>
  "is_User u \<longleftrightarrow> is_object u \<and> is_string (opt_prop u ''user_id'') \<and> is_string (opt_prop u ''username'')
     \<and> list_of is_string (opt_prop u ''roles'') \<and> optional (list_of is_string) (opt_prop u ''policies'')"

definition is_APIKey :: "jsval \<Rightarrow> bool" where
  \<comment> \<open>of pages/APIKeys.tsx\<close>
  "is_APIKey k \<longleftrightarrow> is_object k \<and> is_string (opt_prop k ''id'') \<and> is_string (opt_prop k ''name'')
     \<and> optional is_string (opt_prop k ''key'') \<and> list_of is_string (opt_prop k ''permissions'')
     \<and> optional (record_of is_string) (opt_prop k ''metadata'') \<and> is_string (opt_prop k ''created_at'')
     \<and> optional is_string (opt_prop k ''expires_at'') \<and> (\<exists>b. opt_prop k ''enabled'' = JBool b)"

section \<open>The events of the live connection\<close>

text \<open>The interfaces of contexts/WebSocketContext.tsx.\<close>

definition one_of :: "string list \<Rightarrow> jsval \<Rightarrow> bool" where
  "one_of ss v \<longleftrightarrow> v \<in> JStr ` set ss"

definition is_KVEvent :: "jsval \<Rightarrow> bool" where
  "is_KVEvent e \<longleftrightarrow> is_object e \<and> one_of [''set'', ''delete''] (opt_prop e ''type'')
     \<and> is_string (opt_prop e ''key'') \<and> optional is_string (opt_prop e ''value'')
     \<and> is_string (opt_prop e ''timestamp'')"

definition is_event_service :: "jsval \<Rightarrow> bool" where
  "is_event_service s \<longleftrightarrow> is_object s \<and> is_string (opt_prop s ''id'') \<and> is_string (opt_prop s ''name'')
     \<and> is_string (opt_prop s ''address'') \<and> is_number (opt_prop s ''port'')
     \<and> optional is_string (opt_prop s ''status'')"

definition is_ServiceEvent :: "jsval \<Rightarrow> bool" where
  "is_ServiceEvent e \<longleftrightarrow> is_object e
     \<and> one_of [''register'', ''deregister'', ''heartbeat'', ''expired''] (opt_prop e ''type'')
     \<and> is_event_service (opt_prop e ''service'') \<and> is_string (opt_prop e ''timestamp'')"

definition is_health_update :: "jsval \<Rightarrow> bool" where
  "is_health_update d \<longleftrightarrow> is_object d \<and> is_string (opt_prop d ''status'') \<and> is_number (opt_prop d ''uptime'')
     \<and> optional is_service_counts (opt_prop d ''services'')"

definition is_HealthEvent :: "jsval \<Rightarrow> bool" where
  "is_HealthEvent e \<longleftrightarrow> is_object e \<and> opt_prop e ''type'' = JStr ''health_update''
     \<and> is_health_update (opt_prop e ''data'') \<and> is_string (opt_prop e ''timestamp'')"

section \<open>Values of a type as children\<close>

lemma is_string_iff: "is_string v \<longleftrightarrow> (\<exists>s. v = JStr s)"
  by (cases v) auto

lemma list_of_iff: "list_of p v \<longleftrightarrow> (\<exists>vs. v = JArr vs \<and> list_all p vs)"
  by (cases v) auto

lemma is_object_iff: "is_object v \<longleftrightarrow> (\<exists>kvs. v = JObj kvs)"
  by (cases v) (auto simp: is_object_def list_all_iff)

lemma scalar_child [simp]:
  "is_string v \<Longrightarrow> \<not> crashes (child v)"
  "is_number v \<Longrightarrow> \<not> crashes (child v)"
  by (cases v; simp)+

lemma optional_child [simp]:
  "optional is_string v \<Longrightarrow> \<not> crashes (child v)"
  "optional is_number v \<Longrightarrow> \<not> crashes (child v)"
  by (auto simp: optional_def)

lemma typed_list_child: "list_of is_string v \<Longrightarrow> \<not> crashes (child v)"
  by (auto simp: list_of_iff list_all_iff)

end
