(* ===== verification/Base64.thy ===== *)
theory Base64
  imports Prelude
begin

text \<open>
  \<open>atob\<close>, which the key-value page applies to every stored value before showing it
  (pages/KVStore.tsx, \<open>decodeValue\<close>): the forgiving base64 decoder of the platform, with
  the encoder \<open>b64_encode\<close> as its reference. The lemmas say what it accepts
  (\<open>atob_None_iff\<close>), that it undoes the encoder, and that it always shortens a non-empty
  text, so that a plain value it accepts is never left alone.
\<close>

definition ascii_ws :: "char \<Rightarrow> bool" where
  "ascii_ws c \<longleftrightarrow> code c \<in> {9, 10, 12, 13, 32}"

definition sextet :: "char \<Rightarrow> nat option" where
  "sextet c =
     (let n = code c in
      if 65 \<le> n \<and> n \<le> 90 then Some (n - 65)
      else if 97 \<le> n \<and> n \<le> 122 then Some (n - 71)
      else if 48 \<le> n \<and> n \<le> 57 then Some (n + 4)
      else if n = 43 then Some 62
      else if n = 47 then Some 63
      else None)"

definition sextet_char :: "nat \<Rightarrow> char" where
  "sextet_char n =
     (if n < 26 then char_of (n + 65) else if n < 52 then char_of (n + 71)
      else if n < 62 then char_of (n - 4) else if n = 62 then CHR ''+'' else CHR ''/'')"

definition strip_padding :: "string \<Rightarrow> string" where
  "strip_padding s =
     (if length s mod 4 = 0 \<and> s \<noteq> [] \<and> last s = CHR ''='' then
        (let t = butlast s in if t \<noteq> [] \<and> last t = CHR ''='' then butlast t else t)
      else s)"

fun sextets_bytes :: "nat list \<Rightarrow> nat list" where
  "sextets_bytes (a # b # c # d # r) =
     (let n = a * 262144 + b * 4096 + c * 64 + d
      in n div 65536 # n div 256 mod 256 # n mod 256 # sextets_bytes r)"
| "sextets_bytes [a, b, c] =
     (let n = (a * 4096 + b * 64 + c) div 4 in [n div 256, n mod 256])"
| "sextets_bytes [a, b] = [(a * 64 + b) div 16]"
| "sextets_bytes _ = []"

definition base64_text :: "string \<Rightarrow> string" where
  \<comment> \<open>the characters that are decoded: white space and padding removed\<close>
  "base64_text s = strip_padding (filter (\<lambda>c. \<not> ascii_ws c) s)"

definition atob :: "string \<Rightarrow> string option" where
  "atob s =
     (let t = base64_text s
      in if length t mod 4 = 1 then None
         else if list_ex (\<lambda>c. sextet c = None) t then None
         else Some (map char_of (sextets_bytes (map (\<lambda>c. the (sextet c)) t))))"

fun bytes_text :: "nat list \<Rightarrow> string" where
  "bytes_text (x # y # z # r) =
     (let n = x * 65536 + y * 256 + z
      in sextet_char (n div 262144) # sextet_char (n div 4096 mod 64) # sextet_char (n div 64 mod 64)
         # sextet_char (n mod 64) # bytes_text r)"
| "bytes_text [x, y] =
     (let n = (x * 256 + y) * 4
      in [sextet_char (n div 4096), sextet_char (n div 64 mod 64), sextet_char (n mod 64), CHR ''=''])"
| "bytes_text [x] = (let n = x * 16 in [sextet_char (n div 64), sextet_char (n mod 64), CHR ''='', CHR ''=''])"
| "bytes_text [] = []"

definition b64_encode :: "string \<Rightarrow> string" where
  "b64_encode s = bytes_text (map code s)"

lemma atob_None_iff:
  "atob s = None \<longleftrightarrow> length (base64_text s) mod 4 = 1 \<or> (\<exists>c \<in> set (base64_text s). sextet c = None)"
  by (auto simp: atob_def Let_def list_ex_iff)

lemma sextet_sextet_char: "n < 64 \<Longrightarrow> sextet (sextet_char n) = Some n"
proof -
  assume "n < 64"
  then consider "n < 26" | "26 \<le> n" "n < 52" | "52 \<le> n" "n < 62" | "n = 62" | "n = 63" by linarith
  then show ?thesis
    by cases (auto simp: sextet_char_def sextet_def code_char_of Let_def, simp_all add: code_def)
qed

lemma sextet_char_plain: "n < 64 \<Longrightarrow> sextet_char n \<noteq> CHR ''='' \<and> \<not> ascii_ws (sextet_char n)"
proof -
  assume "n < 64"
  from sextet_sextet_char [OF this] have "sextet (sextet_char n) \<noteq> None" by simp
  then show ?thesis
    by (auto simp: sextet_def ascii_ws_def Let_def code_def split: if_splits)
qed

text \<open>The text of a byte list without its padding.\<close>

fun bytes_core :: "nat list \<Rightarrow> nat list" where
  "bytes_core (x # y # z # r) =
     (let n = x * 65536 + y * 256 + z
      in n div 262144 # n div 4096 mod 64 # n div 64 mod 64 # n mod 64 # bytes_core r)"
| "bytes_core [x, y] = (let n = (x * 256 + y) * 4 in [n div 4096, n div 64 mod 64, n mod 64])"
| "bytes_core [x] = (let n = x * 16 in [n div 64, n mod 64])"
| "bytes_core [] = []"

fun pad_count :: "nat list \<Rightarrow> nat" where
  "pad_count (x # y # z # r) = pad_count r"
| "pad_count [x, y] = 1"
| "pad_count [x] = 2"
| "pad_count [] = 0"

lemma bytes_core_small: "\<forall>x \<in> set bs. x < 256 \<Longrightarrow> \<forall>n \<in> set (bytes_core bs). n < 64"
proof (induction bs rule: bytes_core.induct)
  case (1 x y z r)
  then have "x < 256" "y < 256" "z < 256" by simp_all
  then have "x * 65536 + y * 256 + z < 64 * 262144" by linarith
  then have "(x * 65536 + y * 256 + z) div 262144 < 64" by (rule less_mult_imp_div_less)
  with 1 show ?case by (simp add: Let_def)
next
  case (2 x y)
  then have "(x * 256 + y) * 4 div 4096 < 64" by (simp add: less_mult_imp_div_less)
  with 2 show ?case by (simp add: Let_def)
next
  case (3 x)
  then have "x * 16 div 64 < 64" by (simp add: less_mult_imp_div_less)
  with 3 show ?case by (simp add: Let_def)
qed simp

lemma regroup:
  fixes n :: nat
  shows "n div 262144 * 262144 + n div 4096 mod 64 * 4096 + n div 64 mod 64 * 64 + n mod 64 = n"
    and "n div 4096 * 4096 + n div 64 mod 64 * 64 + n mod 64 = n"
    and "n div 64 * 64 + n mod 64 = n"
proof -
  have q: "n div 4096 = n div 64 div 64" "n div 262144 = n div 64 div 64 div 64"
    using div_mult2_eq [of n 64 64] div_mult2_eq [of n "64 * 64" 64] by simp_all
  define a b c where "a = n div 64" and "b = a div 64" and "c = b div 64"
  have n: "a * 64 + n mod 64 = n" "b * 64 + a mod 64 = a" "c * 64 + b mod 64 = b"
    unfolding a_def b_def c_def by (rule div_mult_mod_eq)+
  have "c * 262144 + b mod 64 * 4096 = b * 4096" using arg_cong [OF n(3), of "\<lambda>x. x * 4096"]
    by (simp add: add_mult_distrib)
  moreover have two: "b * 4096 + a mod 64 * 64 + n mod 64 = n"
    using arg_cong [OF n(2), of "\<lambda>x. x * 64"] n(1) by (simp add: add_mult_distrib)
  ultimately show "n div 262144 * 262144 + n div 4096 mod 64 * 4096 + n div 64 mod 64 * 64 + n mod 64 = n"
    by (simp only: q flip: a_def b_def c_def)
  from two show "n div 4096 * 4096 + n div 64 mod 64 * 64 + n mod 64 = n"
    by (simp only: q flip: a_def b_def c_def)
  show "n div 64 * 64 + n mod 64 = n" by (rule div_mult_mod_eq)
qed

lemma ungroup:
  fixes x y z :: nat
  assumes "x < 256" and "y < 256" and "z < 256"
  shows "(x * 65536 + y * 256 + z) div 65536 = x"
    and "(x * 65536 + y * 256 + z) div 256 mod 256 = y"
    and "(x * 65536 + y * 256 + z) mod 256 = z"
proof -
  show "(x * 65536 + y * 256 + z) div 65536 = x"
    by (rule div_nat_eqI) (use assms in simp_all)
  have "(x * 65536 + y * 256 + z) div 256 = x * 256 + y"
    by (rule div_nat_eqI) (use assms in simp_all)
  with assms show "(x * 65536 + y * 256 + z) div 256 mod 256 = y" by simp
  have "x * 65536 + y * 256 + z = (x * 256 + y) * 256 + z" by simp
  with assms show "(x * 65536 + y * 256 + z) mod 256 = z"
    by (metis mod_less mod_mult_self3)
qed

lemma sextets_bytes_core: "\<forall>x \<in> set bs. x < 256 \<Longrightarrow> sextets_bytes (bytes_core bs) = bs"
proof (induction bs rule: bytes_core.induct)
  case (1 x y z r)
  then show ?case
    by (simp only: bytes_core.simps sextets_bytes.simps Let_def regroup) (simp add: ungroup)
next
  case (2 x y)
  have "(x * 256 + y) * 4 div 4 = x * 256 + y" by simp
  with 2 show ?case
    by (simp only: bytes_core.simps sextets_bytes.simps Let_def regroup) simp
next
  case (3 x)
  then show ?case
    by (simp only: bytes_core.simps sextets_bytes.simps Let_def regroup) simp
qed simp

lemma bytes_text_core:
  "bytes_text bs = map sextet_char (bytes_core bs) @ replicate (pad_count bs) CHR ''=''"
proof -
  have two: "replicate 2 c = [c, c]" for c :: char by (simp add: numeral_2_eq_2)
  show ?thesis by (induction bs rule: bytes_core.induct) (simp_all add: Let_def two)
qed

lemma pad_count_le: "pad_count bs \<le> 2"
  by (induction bs rule: pad_count.induct) auto

lemma length_bytes_text: "length (bytes_text bs) mod 4 = 0"
  by (induction bs rule: bytes_text.induct) (auto simp: Let_def)

lemma length_bytes_core: "length (bytes_core bs) mod 4 \<noteq> 1"
proof (induction bs rule: bytes_core.induct)
  case (1 x y z r)
  have "length (bytes_core (x # y # z # r)) = length (bytes_core r) + 4" by (simp add: Let_def)
  with 1 show ?case by (simp only: mod_add_self2 not_False_eq_True)
qed (auto simp: Let_def)

lemma strip_padding_text:
  assumes "\<forall>n \<in> set ns. n < 64" and "k \<le> 2" and "(length ns + k) mod 4 = 0"
  shows "strip_padding (map sextet_char ns @ replicate k CHR ''='') = map sextet_char ns"
proof -
  have l: "ns \<noteq> [] \<Longrightarrow> last (map sextet_char ns) \<noteq> CHR ''=''"
    using assms(1) sextet_char_plain by (simp add: last_map)
  from assms(2) consider "k = 0" | "k = 1" | "k = 2" by linarith
  then show ?thesis
  proof cases
    case 1
    with l show ?thesis by (auto simp: strip_padding_def)
  next
    case 2
    with l assms(3) show ?thesis by (auto simp: strip_padding_def Let_def)
  next
    case 3
    then have "replicate k CHR ''='' = [CHR ''='', CHR ''='']" by (simp add: numeral_2_eq_2)
    with l assms(3) 3 show ?thesis
      by (simp add: strip_padding_def Let_def butlast_append)
  qed
qed

theorem atob_encode: "atob (b64_encode s) = Some s"
proof -
  let ?bs = "map code s"
  have small: "\<forall>x \<in> set ?bs. x < 256" by (simp add: code_less)
  define k where "k = pad_count ?bs"
  have e: "b64_encode s = map sextet_char (bytes_core ?bs) @ replicate k CHR ''=''"
    by (simp add: b64_encode_def k_def bytes_text_core)
  have k: "k \<le> 2" by (simp add: k_def pad_count_le)
  have plain: "filter (\<lambda>c. \<not> ascii_ws c) (b64_encode s) = b64_encode s"
    using bytes_core_small [OF small] sextet_char_plain
    by (auto simp: e filter_id_conv) (simp add: ascii_ws_def code_def)
  have "(length (bytes_core ?bs) + k) mod 4 = 0"
    using length_bytes_text [of ?bs] e by (simp add: b64_encode_def)
  with strip_padding_text [OF bytes_core_small [OF small] k] plain e
  have t: "base64_text (b64_encode s) = map sextet_char (bytes_core ?bs)"
    by (simp add: base64_text_def)
  have "map (\<lambda>c. the (sextet c)) (map sextet_char (bytes_core ?bs)) = bytes_core ?bs"
    using bytes_core_small [OF small] by (simp add: map_idI sextet_sextet_char)
  moreover have "map char_of (map code s) = s"
    by (simp add: map_idI code_def)
  ultimately show ?thesis
    using length_bytes_core [of ?bs] bytes_core_small [OF small]
    by (simp add: atob_def t Let_def list_ex_iff sextet_sextet_char sextets_bytes_core [OF small] flip: map_map)
qed

lemma length_sextets_bytes_le: "length (sextets_bytes ns) \<le> length ns"
  by (induction ns rule: sextets_bytes.induct) (auto simp: Let_def)

lemma length_sextets_bytes: "ns \<noteq> [] \<Longrightarrow> length (sextets_bytes ns) < length ns"
  by (cases ns rule: sextets_bytes.cases) (auto simp: Let_def le_imp_less_Suc length_sextets_bytes_le)

lemma length_base64_text: "length (base64_text s) \<le> length s"
proof -
  have "length (filter (\<lambda>c. \<not> ascii_ws c) s) \<le> length s" by simp
  moreover have "length (strip_padding t) \<le> length t" for t
    by (auto simp: strip_padding_def Let_def)
  ultimately show ?thesis unfolding base64_text_def using le_trans by blast
qed

lemma atob_shorter: "atob s = Some t \<Longrightarrow> s \<noteq> [] \<Longrightarrow> length t < length s"
proof -
  assume a: "atob s = Some t" "s \<noteq> []"
  then have t: "length t = length (sextets_bytes (map (\<lambda>c. the (sextet c)) (base64_text s)))"
    by (auto simp: atob_def Let_def split: if_splits)
  show ?thesis
  proof (cases "base64_text s = []")
    case True
    with t a show ?thesis by simp
  next
    case False
    with length_sextets_bytes [of "map (\<lambda>c. the (sextet c)) (base64_text s)"] t length_base64_text [of s]
    show ?thesis by simp
  qed
qed

lemma atob_rejects:
  assumes "c \<in> set s" and "sextet c = None" and "\<not> ascii_ws c" and "c \<noteq> CHR ''=''"
  shows "atob s = None"
proof -
  have butlast: "c \<in> set t \<Longrightarrow> last t = CHR ''='' \<Longrightarrow> c \<in> set (butlast t)" for t
    using assms(4) by (cases t rule: rev_cases) auto
  then have *: "c \<in> set t \<Longrightarrow> c \<in> set (strip_padding t)" for t
    by (auto simp: strip_padding_def Let_def)
  have "c \<in> set (base64_text s)"
    unfolding base64_text_def by (rule *) (use assms in simp)
  with assms(2) show ?thesis by (auto simp: atob_None_iff)
qed

end
