(* ===== verification/Json.thy ===== *)
theory Json
  imports Prelude
begin

text \<open>
  \<open>JSON.stringify\<close> (compact, and with an indent of two) and \<open>JSON.parse\<close>, as the console
  uses them: the session user in local storage, the check of a value in the key editor, the
  display of a stored value, web socket messages. The parser is a recursive descent on the
  text with fuel; the fuel handed out by \<open>json_parse\<close> never runs out
  (\<open>p_value_fuel\<close>), so its \<open>None\<close> is a SyntaxError of the text. The main lemma is that
  parsing undoes both printers on every value JSON can carry (\<open>json_ok\<close>).
  An escape \<open>\u\<close> of a code unit above 255, outside the modelled strings, reads as a question
  mark.
\<close>

section \<open>Objects in the enumeration order of the language\<close>

definition index_key :: "string \<Rightarrow> bool" where
  \<comment> \<open>the keys enumerated first, in numeric order: canonical array indices\<close>
  "index_key k \<longleftrightarrow> k \<noteq> [] \<and> list_all is_digit k \<and> (k = ''0'' \<or> hd k \<noteq> CHR ''0'')
     \<and> digits_val k < 2 ^ 32 - 1"

fun obj_insert :: "string \<Rightarrow> jsval \<Rightarrow> (string \<times> jsval) list \<Rightarrow> (string \<times> jsval) list" where
  "obj_insert k v [] = [(k, v)]"
| "obj_insert k v ((k', v') # kvs) =
     (if index_key k \<and> (index_key k' \<longrightarrow> digits_val k < digits_val k')
      then (k, v) # (k', v') # kvs else (k', v') # obj_insert k v kvs)"

definition obj_put :: "string \<Rightarrow> jsval \<Rightarrow> (string \<times> jsval) list \<Rightarrow> (string \<times> jsval) list" where
  \<comment> \<open>\<open>o[k] = v\<close>: in place for a key the object has\<close>
  "obj_put k v kvs =
     (case map_of kvs k of
        Some _ \<Rightarrow> map (\<lambda>(k', w). (k', if k' = k then v else w)) kvs
      | None \<Rightarrow> obj_insert k v kvs)"

definition obj_of :: "(string \<times> jsval) list \<Rightarrow> (string \<times> jsval) list" where
  "obj_of kvs = foldl (\<lambda>o' (k, v). obj_put k v o') [] kvs"

lemma obj_get_insert:
  "map_of kvs k = None \<Longrightarrow> obj_get (obj_insert k v kvs) k' = (if k' = k then v else obj_get kvs k')"
  by (induction kvs) (auto split: if_splits)

lemma obj_get_put: "obj_get (obj_put k v kvs) k' = (if k' = k then v else obj_get kvs k')"
proof (cases "map_of kvs k")
  case (Some w)
  have "map_of kvs k \<noteq> None \<Longrightarrow> obj_get (map (\<lambda>(j, w). (j, if j = k then v else w)) kvs) k' =
      (if k' = k then v else obj_get kvs k')"
  proof (induction kvs)
    case (Cons m kvs)
    have "k \<noteq> k' \<Longrightarrow> obj_get (map (\<lambda>(j, w). (j, if j = k then v else w)) kvs) k' = obj_get kvs k'"
      by (induction kvs) auto
    with Cons show ?case by (cases m) (auto split: if_splits)
  qed simp
  with Some show ?thesis by (simp add: obj_put_def)
qed (simp add: obj_put_def obj_get_insert)

section \<open>Printing\<close>

definition hex_digit :: "nat \<Rightarrow> char" where
  "hex_digit n = (if n < 10 then char_of (48 + n) else char_of (87 + n))"

definition quote_char :: "char \<Rightarrow> string" where
  "quote_char c =
     (let n = code c in
      if n = 34 then [CHR 0x5C, CHR 0x22]
      else if n = 92 then [CHR 0x5C, CHR 0x5C]
      else if n = 8 then [CHR 0x5C, CHR ''b'']
      else if n = 12 then [CHR 0x5C, CHR ''f'']
      else if n = 10 then [CHR 0x5C, CHR ''n'']
      else if n = 13 then [CHR 0x5C, CHR ''r'']
      else if n = 9 then [CHR 0x5C, CHR ''t'']
      else if n < 32 then [CHR 0x5C, CHR ''u'', CHR ''0'', CHR ''0'', hex_digit (n div 16), hex_digit (n mod 16)]
      else [c])"

definition quote_str :: "string \<Rightarrow> string" where
  "quote_str s = CHR 0x22 # concat (map quote_char s) @ [CHR 0x22]"

definition newline :: "bool \<Rightarrow> nat \<Rightarrow> string" where
  \<comment> \<open>line break and indentation of the pretty printer; nothing in the compact one\<close>
  "newline p d = (if p then CHR 0x0A # replicate (2 * d) CHR 0x20 else [])"

fun show_val :: "bool \<Rightarrow> nat \<Rightarrow> jsval \<Rightarrow> string"
and show_elems :: "bool \<Rightarrow> nat \<Rightarrow> jsval list \<Rightarrow> string"
and show_members :: "bool \<Rightarrow> nat \<Rightarrow> (string \<times> jsval) list \<Rightarrow> string" where
  "show_val p d (JStr s) = quote_str s"
| "show_val p d (JNum n) = int_str n"
| "show_val p d (JDec m e) = dec_str m e"
| "show_val p d (JBool b) = (if b then ''true'' else ''false'')"
| "show_val p d (JArr []) = ''[]''"
| "show_val p d (JArr (v # vs)) = ''['' @ show_elems p (Suc d) (v # vs) @ newline p d @ '']''"
| "show_val p d (JObj []) = ''{}''"
| "show_val p d (JObj (m # ms)) = ''{'' @ show_members p (Suc d) (m # ms) @ newline p d @ ''}''"
| "show_val p d JNull = ''null''"
| "show_val p d JNaN = ''null''"
| "show_val p d JUndef = ''null''"
| "show_elems p d [] = []"
| "show_elems p d [v] = newline p d @ show_val p d v"
| "show_elems p d (v # w # vs) = newline p d @ show_val p d v @ '','' @ show_elems p d (w # vs)"
| "show_members p d [] = []"
| "show_members p d [(k, v)] =
     newline p d @ quote_str k @ (if p then '': '' else '':'') @ show_val p d v"
| "show_members p d ((k, v) # m # ms) =
     newline p d @ quote_str k @ (if p then '': '' else '':'') @ show_val p d v @ '',''
     @ show_members p d (m # ms)"

fun json_clean :: "jsval \<Rightarrow> jsval" where
  \<comment> \<open>members that are undefined are left out\<close>
  "json_clean (JArr vs) = JArr (map json_clean vs)"
| "json_clean (JObj kvs) =
     JObj (map (\<lambda>(k, v). (k, json_clean v)) (filter (\<lambda>(k, v). v \<noteq> JUndef) kvs))"
| "json_clean v = v"

definition json_stringify :: "jsval \<Rightarrow> string" where
  "json_stringify v = show_val False 0 (json_clean v)"

definition json_pretty :: "jsval \<Rightarrow> string" where
  \<comment> \<open>\<open>JSON.stringify(v, null, 2)\<close>\<close>
  "json_pretty v = show_val True 0 (json_clean v)"

section \<open>Parsing\<close>

definition json_ws :: "char \<Rightarrow> bool" where
  "json_ws c \<longleftrightarrow> code c \<in> {9, 10, 13, 32}"

definition skip_ws :: "string \<Rightarrow> string" where
  "skip_ws s = dropWhile json_ws s"

definition hex_val :: "char \<Rightarrow> nat option" where
  "hex_val c =
     (let n = code c in
      if 48 \<le> n \<and> n \<le> 57 then Some (n - 48)
      else if 97 \<le> n \<and> n \<le> 102 then Some (n - 87)
      else if 65 \<le> n \<and> n \<le> 70 then Some (n - 55)
      else None)"

definition unit_char :: "nat \<Rightarrow> char" where
  "unit_char n = (if n < 256 then char_of n else CHR ''?'')"

fun p_hex4 :: "string \<Rightarrow> (char \<times> string) option" where
  "p_hex4 (a # b # c # d # r) =
     (case (hex_val a, hex_val b, hex_val c, hex_val d) of
        (Some w, Some x, Some y, Some z) \<Rightarrow>
          Some (unit_char (4096 * w + 256 * x + 16 * y + z), r)
      | _ \<Rightarrow> None)"
| "p_hex4 _ = None"

definition escape_char :: "char \<Rightarrow> char option" where
  "escape_char c =
     (if c = CHR 0x22 \<or> c = CHR 0x5C \<or> c = CHR ''/'' then Some c
      else if c = CHR ''b'' then Some CHR 0x08
      else if c = CHR ''f'' then Some CHR 0x0C
      else if c = CHR ''n'' then Some CHR 0x0A
      else if c = CHR ''r'' then Some CHR 0x0D
      else if c = CHR ''t'' then Some CHR 0x09
      else None)"

definition p_unit :: "string \<Rightarrow> (char option \<times> string) option" where
  \<comment> \<open>one unit of a string literal, or its closing quotation mark (\<open>Some (None, _)\<close>)\<close>
  "p_unit s =
     (case s of [] \<Rightarrow> None
      | c # r \<Rightarrow>
          if c = CHR 0x22 then Some (None, r)
          else if c = CHR 0x5C then
            (case r of [] \<Rightarrow> None
             | e # r' \<Rightarrow>
                 if e = CHR ''u'' then map_option (\<lambda>(x, q). (Some x, q)) (p_hex4 r')
                 else map_option (\<lambda>x. (Some x, r')) (escape_char e))
          else if code c < 32 then None
          else Some (Some c, r))"

lemma p_hex4_length: "p_hex4 s = Some (c, r) \<Longrightarrow> length r < length s"
  by (induction s rule: p_hex4.induct) (auto split: option.splits)

lemma p_unit_length: "p_unit s = Some (x, r) \<Longrightarrow> length r < length s"
  by (auto simp: p_unit_def split: list.splits if_splits dest: p_hex4_length)

function p_string :: "string \<Rightarrow> (string \<times> string) option" where
  \<comment> \<open>the text after the opening quotation mark\<close>
  "p_string s =
     (case p_unit s of None \<Rightarrow> None
      | Some (None, r) \<Rightarrow> Some ([], r)
      | Some (Some c, r) \<Rightarrow> map_option (\<lambda>(t, q). (c # t, q)) (p_string r))"
  by pat_completeness auto
termination by (relation "measure length") (auto dest: p_unit_length)

declare p_string.simps [simp del]

definition p_digits :: "string \<Rightarrow> string \<times> string" where
  "p_digits s = (takeWhile is_digit s, dropWhile is_digit s)"

definition p_exponent :: "string \<Rightarrow> (int \<times> string) option" where
  "p_exponent s =
     (case s of c # r \<Rightarrow>
        if c = CHR ''e'' \<or> c = CHR ''E'' then
          (let (sg, r1) = (case r of x # r' \<Rightarrow> if x = CHR ''-'' then (- 1, r')
                             else if x = CHR ''+'' then (1, r') else (1, r) | [] \<Rightarrow> (1, r));
               (ds, r2) = p_digits r1
           in if ds = [] then None else Some (sg * int (digits_val ds), r2))
        else Some (0, s)
      | [] \<Rightarrow> Some (0, s))"

definition p_fraction :: "string \<Rightarrow> (string \<times> string) option" where
  "p_fraction s =
     (case s of c # r \<Rightarrow>
        if c = CHR ''.'' then
          (let (ds, r1) = p_digits r in if ds = [] then None else Some (ds, r1))
        else Some ([], s)
      | [] \<Rightarrow> Some ([], s))"

definition p_magnitude :: "bool \<Rightarrow> string \<Rightarrow> (jsval \<times> string) option" where
  "p_magnitude neg s =
     (case p_digits s of (is, s2) \<Rightarrow>
        if is = [] \<or> hd is = CHR ''0'' \<and> length is \<noteq> 1 then None
        else case p_fraction s2 of None \<Rightarrow> None
          | Some (fs, s3) \<Rightarrow>
              (case p_exponent s3 of None \<Rightarrow> None
               | Some (e, s4) \<Rightarrow>
                   Some (mk_num neg (digits_val (is @ fs)) (e - int (length fs)), s4)))"

definition p_number :: "string \<Rightarrow> (jsval \<times> string) option" where
  "p_number s =
     (case s of [] \<Rightarrow> None
      | c # r \<Rightarrow> if c = CHR ''-'' then p_magnitude True r else p_magnitude False s)"

definition p_word :: "string \<Rightarrow> jsval \<Rightarrow> string \<Rightarrow> (jsval \<times> string) option" where
  "p_word w v s = (if starts_with s w then Some (v, drop (length w) s) else None)"

fun p_value :: "nat \<Rightarrow> string \<Rightarrow> (jsval \<times> string) option"
and p_elems :: "nat \<Rightarrow> string \<Rightarrow> (jsval list \<times> string) option"
and p_members :: "nat \<Rightarrow> string \<Rightarrow> ((string \<times> jsval) list \<times> string) option" where
  "p_value 0 s = None"
| "p_value (Suc n) s =
     (case skip_ws s of [] \<Rightarrow> None
      | c # r \<Rightarrow>
          if c = CHR 0x22 then map_option (\<lambda>(t, q). (JStr t, q)) (p_string r)
          else if c = CHR ''['' then
            (case skip_ws r of [] \<Rightarrow> None
             | x # q \<Rightarrow> if x = CHR '']'' then Some (JArr [], q)
                        else map_option (\<lambda>(vs, q). (JArr vs, q)) (p_elems n r))
          else if c = CHR ''{'' then
            (case skip_ws r of [] \<Rightarrow> None
             | x # q \<Rightarrow> if x = CHR ''}'' then Some (JObj [], q)
                        else map_option (\<lambda>(ms, q). (JObj (obj_of ms), q)) (p_members n r))
          else if c = CHR ''t'' then p_word ''true'' (JBool True) (c # r)
          else if c = CHR ''f'' then p_word ''false'' (JBool False) (c # r)
          else if c = CHR ''n'' then p_word ''null'' JNull (c # r)
          else p_number (c # r))"
| "p_elems 0 s = None"
| "p_elems (Suc n) s =
     (case p_value n s of None \<Rightarrow> None
      | Some (v, r) \<Rightarrow>
          (case skip_ws r of [] \<Rightarrow> None
           | c # q \<Rightarrow> if c = CHR '','' then map_option (\<lambda>(vs, q'). (v # vs, q')) (p_elems n q)
                      else if c = CHR '']'' then Some ([v], q) else None))"
| "p_members 0 s = None"
| "p_members (Suc n) s =
     (case skip_ws s of [] \<Rightarrow> None
      | c # r \<Rightarrow>
          if c \<noteq> CHR 0x22 then None
          else case p_string r of None \<Rightarrow> None
            | Some (k, r1) \<Rightarrow>
                (case skip_ws r1 of [] \<Rightarrow> None
                 | x # r2 \<Rightarrow>
                     if x \<noteq> CHR '':'' then None
                     else case p_value n r2 of None \<Rightarrow> None
                       | Some (v, r3) \<Rightarrow>
                           (case skip_ws r3 of [] \<Rightarrow> None
                            | y # q \<Rightarrow>
                                if y = CHR '','' then map_option (\<lambda>(ms, q'). ((k, v) # ms, q')) (p_members n q)
                                else if y = CHR ''}'' then Some ([(k, v)], q) else None)))"

definition json_parse :: "string \<Rightarrow> jsval option" where
  "json_parse s =
     (case p_value (2 * length s + 2) s of None \<Rightarrow> None
      | Some (v, r) \<Rightarrow> if skip_ws r = [] then Some v else None)"

definition JSON_parse :: "jsval \<Rightarrow> jsval js" where
  \<comment> \<open>the argument is converted to a string first\<close>
  "JSON_parse v = (case json_parse (to_str v) of None \<Rightarrow> throw SyntaxError | Some w \<Rightarrow> return w)"


declare p_value.simps [simp del] p_elems.simps [simp del] p_members.simps [simp del]

section \<open>Fuel\<close>

lemma skip_ws_length: "length (skip_ws s) \<le> length s"
  by (simp add: skip_ws_def length_dropWhile_le)

lemma skip_ws_Cons: "skip_ws s = c # r \<Longrightarrow> length r < length s"
  using skip_ws_length [of s] by simp

lemma p_string_length: "p_string s = Some (t, r) \<Longrightarrow> length r < length s"
proof (induction s arbitrary: t r rule: p_string.induct)
  case (1 s)
  from "1.prems" obtain x q where u: "p_unit s = Some (x, q)"
    by (subst (asm) p_string.simps) (auto split: option.splits)
  show ?case
  proof (cases x)
    case None
    with "1.prems" u p_unit_length [OF u] show ?thesis by (simp add: p_string.simps [of s])
  next
    case (Some c)
    with "1.prems" u obtain t' where "p_string q = Some (t', r)"
      by (auto simp: p_string.simps [of s])
    with "1.IH" [OF u refl Some] p_unit_length [OF u] show ?thesis by fastforce
  qed
qed

lemma p_exponent_length: "p_exponent s = Some (e, r) \<Longrightarrow> length r \<le> length s"
  by (auto simp: p_exponent_def p_digits_def Let_def length_dropWhile_le le_SucI
      split: list.splits if_splits)

lemma p_fraction_length: "p_fraction s = Some (e, r) \<Longrightarrow> length r \<le> length s"
  by (auto simp: p_fraction_def p_digits_def Let_def length_dropWhile_le le_SucI
      split: list.splits if_splits)

lemma p_magnitude_length: "p_magnitude neg s = Some (v, r) \<Longrightarrow> length r \<le> length s"
proof -
  assume "p_magnitude neg s = Some (v, r)"
  then obtain fs s3 e where f: "p_fraction (dropWhile is_digit s) = Some (fs, s3)"
    and e: "p_exponent s3 = Some (e, r)"
    by (auto simp: p_magnitude_def p_digits_def split: if_splits option.splits)
  from p_fraction_length [OF f] p_exponent_length [OF e] length_dropWhile_le [of is_digit s]
  show ?thesis by linarith
qed

lemma p_number_length: "p_number s = Some (v, r) \<Longrightarrow> length r \<le> length s"
  by (fastforce simp: p_number_def split: list.splits if_splits dest: p_magnitude_length)

lemma p_word_length: "p_word w v s = Some (v', r) \<Longrightarrow> length r \<le> length s"
  by (auto simp: p_word_def split: if_splits)

lemma p_length:
  "p_value n s = Some (v, r) \<Longrightarrow> length r \<le> length s"
  "p_elems n s = Some (vs, r) \<Longrightarrow> length r \<le> length s"
  "p_members n s = Some (ms, r) \<Longrightarrow> length r \<le> length s"
proof (induction n arbitrary: s v vs ms r)
  case 0
  { case 1 then show ?case by (simp add: p_value.simps) }
  { case 2 then show ?case by (simp add: p_elems.simps) }
  { case 3 then show ?case by (simp add: p_members.simps) }
next
  case (Suc n)
  { case 1
    then obtain c q where q: "skip_ws s = c # q"
      by (auto simp: p_value.simps split: list.splits)
    from 1 q skip_ws_Cons [OF q] show ?case
      by (auto simp: p_value.simps split: list.splits if_splits
          dest!: p_string_length p_word_length p_number_length Suc.IH skip_ws_Cons) }
  { case 2
    then obtain v' q where v: "p_value n s = Some (v', q)"
      by (auto simp: p_elems.simps split: option.splits)
    from 2 v Suc.IH(1) [OF v] show ?case
      by (auto simp: p_elems.simps split: list.splits if_splits dest!: Suc.IH(2) skip_ws_Cons) }
  { case 3
    then obtain c r1 k r2 r3 v' r4 where
      "skip_ws s = c # r1" "p_string r1 = Some (k, r2)" "skip_ws r2 = CHR '':'' # r3"
      "p_value n r3 = Some (v', r4)"
      by (auto simp: p_members.simps split: list.splits option.splits if_splits)
    note f = this skip_ws_Cons [OF this(1)] p_string_length [OF this(2)]
      skip_ws_Cons [OF this(3)] Suc.IH(1) [OF this(4)]
    from 3 f show ?case
      by (auto simp: p_members.simps split: list.splits if_splits dest!: Suc.IH(3) skip_ws_Cons) }
qed

lemma p_fuel:
  "2 * length s + 1 \<le> n \<Longrightarrow> p_value (Suc n) s = p_value n s"
  "2 * length s + 2 \<le> n \<Longrightarrow> p_elems (Suc n) s = p_elems n s"
  "2 * length s + 2 \<le> n \<Longrightarrow> p_members (Suc n) s = p_members n s"
proof (induction n arbitrary: s)
  case 0
  { case 1 then show ?case by simp }
  { case 2 then show ?case by simp }
  { case 3 then show ?case by simp }
next
  case (Suc n)
  { case 1
    show ?case
    proof (cases "skip_ws s")
      case (Cons c r)
      then have "2 * length r + 2 \<le> n" using skip_ws_Cons [OF Cons] 1 by simp
      then show ?thesis
        by (simp add: p_value.simps(2) [of "Suc n" s] p_value.simps(2) [of n s] Cons Suc.IH
            split: list.splits)
    qed (simp add: p_value.simps) }
  { case 2
    show ?case
    proof (cases "p_value n s")
      case None
      with Suc.IH(1) [of s] 2 show ?thesis by (simp add: p_elems.simps)
    next
      case (Some a)
      obtain v q where a: "a = (v, q)" by force
      have "2 * length q' + 2 \<le> n" if "skip_ws q = c # q'" for c q'
        using skip_ws_Cons [OF that] p_length(1) [OF Some [unfolded a]] 2 by simp
      with Suc.IH(1) [of s] Suc.IH(2) 2 Some a show ?thesis
        by (simp add: p_elems.simps(2) [of "Suc n" s] p_elems.simps(2) [of n s] split: list.splits)
    qed }
  { case 3
    show ?case
    proof (cases "skip_ws s")
      case (Cons c r)
      note l1 = skip_ws_Cons [OF Cons]
      show ?thesis
      proof (cases "p_string r")
        case (Some a)
        obtain k r1 where a: "a = (k, r1)" by force
        note l2 = p_string_length [OF Some [unfolded a]]
        show ?thesis
        proof (cases "skip_ws r1")
          case Cons': (Cons x r2)
          note l3 = skip_ws_Cons [OF Cons']
          from l1 l2 l3 3 have v: "p_value (Suc n) r2 = p_value n r2" by (intro Suc.IH) simp
          have "2 * length q' + 2 \<le> n" if "p_value n r2 = Some (v, r3)" "skip_ws r3 = y # q'" for v r3 y q'
            using skip_ws_Cons [OF that(2)] p_length(1) [OF that(1)] l1 l2 l3 3 by simp
          then show ?thesis
            by (simp add: p_members.simps(2) [of "Suc n" s] p_members.simps(2) [of n s] Cons Some a Cons'
                v Suc.IH split: option.splits list.splits)
        qed (simp add: p_members.simps Cons Some a)
      qed (simp add: p_members.simps Cons)
    qed (simp add: p_members.simps) }
qed

text \<open>From the fuel \<open>json_parse\<close> hands out upwards the result no longer depends on it.\<close>

lemma p_value_fuel: "2 * length s + 1 \<le> n \<Longrightarrow> p_value n s = p_value (2 * length s + 1) s"
  by (induction n rule: dec_induct) (auto simp: p_fuel)

section \<open>Parsing undoes printing\<close>

text \<open>The values JSON carries: no undefined, no NaN, objects in enumeration order.\<close>

fun json_ok :: "jsval \<Rightarrow> bool" where
  "json_ok (JStr s) = True"
| "json_ok (JNum n) = (\<bar>n\<bar> < 2 ^ 53)"
| "json_ok (JBool b) = True"
| "json_ok JNull = True"
| "json_ok (JArr vs) = list_all json_ok vs"
| "json_ok (JObj kvs) = (obj_of kvs = kvs \<and> list_all (\<lambda>(k, v). json_ok v) kvs)"
| "json_ok _ = False"

lemma json_clean_ok: "json_ok v \<Longrightarrow> json_clean v = v"
proof (induction v rule: json_clean.induct)
  case (1 vs)
  then show ?case by (auto simp: list_all_iff intro: map_idI)
next
  case (2 kvs)
  then have "filter (\<lambda>(k, v). v \<noteq> JUndef) kvs = kvs"
    by (auto simp: list_all_iff filter_id_conv)
  with 2 show ?case by (auto simp: list_all_iff intro!: map_idI)
qed auto

subsection \<open>String literals\<close>

lemma hex_val_hex_digit: "n < 16 \<Longrightarrow> hex_val (hex_digit n) = Some n"
  by (auto simp: hex_val_def hex_digit_def code_char_of Let_def)

lemma p_unit_quote_escape:
  "c \<in> {CHR 0x22, CHR 0x5C, CHR 0x08, CHR 0x0C, CHR 0x0A, CHR 0x0D, CHR 0x09}
    \<Longrightarrow> p_unit (quote_char c @ r) = Some (Some c, r)"
  by (auto simp: quote_char_def p_unit_def escape_char_def Let_def code_def)

lemma p_unit_quote_control:
  assumes "code c < 32" and "code c \<notin> {8, 9, 10, 12, 13}"
  shows "p_unit (quote_char c @ r) = Some (Some c, r)"
proof -
  have q: "quote_char c = [CHR 0x5C, CHR ''u'', CHR ''0'', CHR ''0'', hex_digit (code c div 16), hex_digit (code c mod 16)]"
    using assms by (simp add: quote_char_def Let_def)
  have h: "hex_val CHR ''0'' = Some 0" by (simp add: hex_val_def code_def)
  have "unit_char (code c) = c"
    using code_less [of c] by (simp add: unit_char_def) (simp add: code_def)
  with assms(1) show ?thesis
    by (simp add: q p_unit_def h hex_val_hex_digit less_mult_imp_div_less)
qed

lemma p_unit_quote_char: "p_unit (quote_char c @ r) = Some (Some c, r)"
proof -
  consider "code c \<in> code ` {CHR 0x22, CHR 0x5C, CHR 0x08, CHR 0x0C, CHR 0x0A, CHR 0x0D, CHR 0x09}"
    | "code c < 32" "code c \<notin> {8, 9, 10, 12, 13}"
    | "code c \<ge> 32" "code c \<noteq> 34" "code c \<noteq> 92"
    by (simp add: code_def) fastforce
  then show ?thesis
  proof cases
    case 1
    then have "c \<in> {CHR 0x22, CHR 0x5C, CHR 0x08, CHR 0x0C, CHR 0x0A, CHR 0x0D, CHR 0x09}"
      by (simp only: image_iff code_inject) blast
    then show ?thesis by (rule p_unit_quote_escape)
  next
    case 3
    then have "c \<noteq> CHR 0x22" "c \<noteq> CHR 0x5C" by (auto simp: code_def)
    with 3 show ?thesis by (simp add: quote_char_def p_unit_def Let_def)
  qed (rule p_unit_quote_control)
qed

lemma p_string_quote: "p_string (concat (map quote_char s) @ CHR 0x22 # r) = Some (s, r)"
proof (induction s)
  case Nil
  show ?case by (subst p_string.simps) (simp add: p_unit_def)
next
  case (Cons c s)
  then show ?case by (subst p_string.simps) (simp add: p_unit_quote_char)
qed

subsection \<open>Numbers\<close>

definition num_end :: "string \<Rightarrow> bool" where
  \<comment> \<open>what may follow a number without being read as part of it\<close>
  "num_end r \<longleftrightarrow> r = [] \<or> \<not> is_digit (hd r) \<and> hd r \<notin> {CHR ''.'', CHR ''e'', CHR ''E''}"

lemma num_end_simps [simp]:
  "num_end []" "num_end (CHR '','' # r)" "num_end (CHR '']'' # r)" "num_end (CHR ''}'' # r)"
  "num_end (CHR 0x0A # r)"
  by (auto simp: num_end_def is_digit_def code_def)

lemma num_end_append: "num_end w \<Longrightarrow> num_end r \<Longrightarrow> num_end (w @ r)"
  by (cases w) (auto simp: num_end_def)

lemma num_end_newline: "num_end r \<Longrightarrow> num_end (newline p d @ r)"
  by (simp add: newline_def)

lemma nat_str_length_mult10: "n \<noteq> 0 \<Longrightarrow> length (nat_str (10 * n)) = Suc (length (nat_str n))"
  by (subst nat_str.simps) simp

lemma nat_str_length_le: "n < 10 ^ Suc k \<Longrightarrow> length (nat_str n) \<le> Suc k"
proof (induction k arbitrary: n)
  case 0
  then show ?case by (simp add: nat_str.simps [of n])
next
  case (Suc k)
  then have "n div 10 < 10 ^ Suc k" by (simp add: less_mult_imp_div_less mult.commute)
  from Suc.IH [OF this] show ?case by (simp add: nat_str.simps [of n])
qed

lemma strip_zeros_spec:
  "n \<noteq> 0 \<Longrightarrow> \<exists>m k. strip_zeros n e = (m, e + int k) \<and> n = m * 10 ^ k \<and> m \<noteq> 0
     \<and> length (nat_str n) = length (nat_str m) + k"
proof (induction n e rule: strip_zeros.induct)
  case (1 n e)
  show ?case
  proof (cases "n mod 10 = 0")
    case True
    then have n: "n = 10 * (n div 10)" "n div 10 \<noteq> 0" using "1.prems" by auto
    from "1.IH" [OF _ n(2)] True "1.prems" obtain m k where
      "strip_zeros (n div 10) (e + 1) = (m, e + 1 + int k)" "n div 10 = m * 10 ^ k" "m \<noteq> 0"
      "length (nat_str (n div 10)) = length (nat_str m) + k" by blast
    moreover have "strip_zeros n e = strip_zeros (n div 10) (e + 1)"
      using True "1.prems" by (simp add: strip_zeros.simps [of n])
    moreover have "length (nat_str n) = Suc (length (nat_str (n div 10)))"
      using nat_str_length_mult10 [OF n(2)] n(1) by simp
    ultimately have "strip_zeros n e = (m, e + int (Suc k)) \<and> n = m * 10 ^ Suc k \<and> m \<noteq> 0
        \<and> length (nat_str n) = length (nat_str m) + Suc k"
      using n(1) by simp
    then show ?thesis by blast
  next
    case False
    then have "strip_zeros n e = (n, e + int 0)" by (simp add: strip_zeros.simps [of n])
    with "1.prems" show ?thesis by (intro exI [of _ n] exI [of _ 0]) simp
  qed
qed

lemma mk_num_int: "n < 10 ^ 21 \<Longrightarrow> mk_num neg n 0 = JNum (if neg then - int n else int n)"
proof (cases "n = 0")
  case False
  assume "n < 10 ^ 21"
  then have "length (nat_str n) \<le> 21"
    using nat_str_length_le [of n 20] by simp
  with strip_zeros_spec [OF False, of 0] show ?thesis
    by (auto simp: mk_num_def Let_def False)
qed (simp add: mk_num_def)

lemma p_digits_nat_str:
  "num_end r \<Longrightarrow> p_digits (nat_str n @ r) = (nat_str n, r)"
proof -
  assume "num_end r"
  then have "takeWhile is_digit r = []" "dropWhile is_digit r = r"
    by (cases r; auto simp: num_end_def)+
  then show ?thesis
    using nat_str_digits [of n]
    by (simp add: p_digits_def takeWhile_append2 dropWhile_append2)
qed

lemma p_magnitude_nat_str:
  assumes "num_end r" and "n < 10 ^ 21"
  shows "p_magnitude neg (nat_str n @ r) = Some (JNum (if neg then - int n else int n), r)"
proof -
  have "p_fraction r = Some ([], r)" "p_exponent r = Some (0, r)"
    using assms(1) by (cases r; auto simp: p_fraction_def p_exponent_def num_end_def)+
  moreover have "hd (nat_str n) = CHR ''0'' \<Longrightarrow> length (nat_str n) = 1"
    by (simp add: nat_str_hd_zero nat_str.simps [of 0])
  ultimately show ?thesis
    using assms by (simp add: p_magnitude_def p_digits_nat_str mk_num_int)
qed

lemma nat_str_Cons: "\<exists>c t. nat_str n = c # t \<and> is_digit c"
  using nat_str_digits [of n] by (cases "nat_str n") auto

lemma p_number_int_str:
  assumes "num_end r" and "\<bar>i\<bar> < 10 ^ 21"
  shows "p_number (int_str i @ r) = Some (JNum i, r)"
proof (cases "i < 0")
  case True
  with p_magnitude_nat_str [OF assms(1), of "nat (- i)" True] assms(2) show ?thesis
    by (simp add: p_number_def int_str_def nat_less_iff)
next
  case False
  obtain c t where c: "nat_str (nat i) = c # t" "is_digit c" using nat_str_Cons by blast
  then have "c \<noteq> CHR ''-''" using not_digit_minus by auto
  with c False p_magnitude_nat_str [OF assms(1), of "nat i" False] assms(2) show ?thesis
    by (simp add: p_number_def int_str_def nat_less_iff)
qed

subsection \<open>Values\<close>

lemma newline_ws: "list_all json_ws (newline p d)"
  by (auto simp: newline_def list_all_iff json_ws_def code_def)

lemma skip_ws_append [simp]: "list_all json_ws w \<Longrightarrow> skip_ws (w @ s) = skip_ws s"
  by (simp add: skip_ws_def list_all_iff dropWhile_append2)

lemma skip_ws_simps [simp]:
  "skip_ws (newline p d @ s) = skip_ws s"
  "skip_ws (CHR 0x20 # s) = skip_ws s"
  "\<not> json_ws c \<Longrightarrow> skip_ws (c # s) = c # s"
  "skip_ws [] = []"
  by (simp add: newline_ws) (auto simp: skip_ws_def json_ws_def code_def)

lemma not_ws_simps [simp]:
  "\<not> json_ws (CHR 0x22)" "\<not> json_ws (CHR ''['')" "\<not> json_ws (CHR '']'')" "\<not> json_ws (CHR ''{'')"
  "\<not> json_ws (CHR ''}'')" "\<not> json_ws (CHR '','')" "\<not> json_ws (CHR '':'')" "\<not> json_ws (CHR ''t'')"
  "\<not> json_ws (CHR ''f'')" "\<not> json_ws (CHR ''n'')" "\<not> json_ws (CHR ''-'')"
  by (simp_all add: json_ws_def code_def)

lemma is_digit_not: "is_digit c \<Longrightarrow> \<not> json_ws c \<and> c \<noteq> CHR 0x22 \<and> c \<noteq> CHR ''['' \<and> c \<noteq> CHR ''{''
    \<and> c \<noteq> CHR ''t'' \<and> c \<noteq> CHR ''f'' \<and> c \<noteq> CHR ''n'' \<and> c \<noteq> CHR '']'' \<and> c \<noteq> CHR ''}''"
  by (auto simp: is_digit_def json_ws_def code_def)

lemma int_str_Cons:
  "\<exists>c t. int_str i = c # t \<and> (is_digit c \<or> c = CHR ''-'')"
  using nat_str_Cons [of "nat i"] by (auto simp: int_str_def)

lemma show_val_Cons:
  "json_ok v \<Longrightarrow> \<exists>c t. show_val p d v = c # t \<and> \<not> json_ws c \<and> c \<noteq> CHR '']'' \<and> c \<noteq> CHR ''}''"
proof (cases v)
  case (JNum i)
  with int_str_Cons [of i] is_digit_not show ?thesis by auto
next
  case (JArr vs)
  then show ?thesis by (cases vs) auto
next
  case (JObj ms)
  then show ?thesis by (cases ms) auto
qed (auto simp: quote_str_def)

lemma p_value_int:
  assumes "num_end r" and "\<bar>i\<bar> < 10 ^ 21" and "list_all json_ws w"
  shows "p_value (Suc n) (w @ int_str i @ r) = Some (JNum i, r)"
proof -
  obtain c t where c: "int_str i = c # t" "is_digit c \<or> c = CHR ''-''" using int_str_Cons by blast
  then have d: "\<not> json_ws c" "c \<noteq> CHR 0x22 \<and> c \<noteq> CHR ''['' \<and> c \<noteq> CHR ''{''
      \<and> c \<noteq> CHR ''t'' \<and> c \<noteq> CHR ''f'' \<and> c \<noteq> CHR ''n''"
    using is_digit_not [of c] by auto
  from p_number_int_str [OF assms(1,2)] show ?thesis
    using assms(3) d by (simp add: p_value.simps c(1))
qed

lemma p_value_word:
  "list_all json_ws w \<Longrightarrow> p_value (Suc n) (w @ ''true'' @ r) = Some (JBool True, r)"
  "list_all json_ws w \<Longrightarrow> p_value (Suc n) (w @ ''false'' @ r) = Some (JBool False, r)"
  "list_all json_ws w \<Longrightarrow> p_value (Suc n) (w @ ''null'' @ r) = Some (JNull, r)"
  by (simp_all add: p_value.simps p_word_def starts_with_def)

lemma p_value_quote:
  "list_all json_ws w \<Longrightarrow> p_value (Suc n) (w @ quote_str s @ r) = Some (JStr s, r)"
  by (simp add: p_value.simps quote_str_def p_string_quote)

lemma p_elems_last:
  "p_value n s = Some (v, w @ CHR '']'' # q) \<Longrightarrow> list_all json_ws w \<Longrightarrow>
     p_elems (Suc n) s = Some ([v], q)"
  by (simp add: p_elems.simps)

lemma p_elems_comma:
  "p_value n s = Some (v, CHR '','' # q) \<Longrightarrow> p_elems n q = Some (vs, r) \<Longrightarrow>
     p_elems (Suc n) s = Some (v # vs, r)"
  by (simp add: p_elems.simps)

lemma p_members_last:
  "p_value n (sp @ s) = Some (v, w @ CHR ''}'' # q) \<Longrightarrow> list_all json_ws w \<Longrightarrow>
     p_members (Suc n) (newline p d @ quote_str k @ CHR '':'' # sp @ s) = Some ([(k, v)], q)"
  by (simp add: p_members.simps quote_str_def p_string_quote)

lemma p_members_comma:
  "p_value n (sp @ s) = Some (v, CHR '','' # q) \<Longrightarrow> p_members n q = Some (ms, r) \<Longrightarrow>
     p_members (Suc n) (newline p d @ quote_str k @ CHR '':'' # sp @ s) = Some ((k, v) # ms, r)"
  by (simp add: p_members.simps quote_str_def p_string_quote)

lemma show_parse:
  "json_ok v \<Longrightarrow> num_end r \<Longrightarrow> list_all json_ws w \<Longrightarrow>
     2 * length (w @ show_val p d v @ r) + 1 \<le> n \<Longrightarrow>
     p_value n (w @ show_val p d v @ r) = Some (v, r)"
  "vs \<noteq> [] \<Longrightarrow> list_all json_ok vs \<Longrightarrow> list_all json_ws w \<Longrightarrow> num_end w \<Longrightarrow>
     2 * length (show_elems p d vs @ w @ CHR '']'' # r) + 2 \<le> n \<Longrightarrow>
     p_elems n (show_elems p d vs @ w @ CHR '']'' # r) = Some (vs, r)"
  "ms \<noteq> [] \<Longrightarrow> list_all (\<lambda>(k, v). json_ok v) ms \<Longrightarrow> list_all json_ws w \<Longrightarrow> num_end w \<Longrightarrow>
     2 * length (show_members p d ms @ w @ CHR ''}'' # r) + 2 \<le> n \<Longrightarrow>
     p_members n (show_members p d ms @ w @ CHR ''}'' # r) = Some (ms, r)"
proof (induction p d v and p d vs and p d ms arbitrary: r w n and r w n and r w n
    rule: show_val_show_elems_show_members.induct)
  case (1 p d s)
  then show ?case by (cases n) (simp_all add: p_value_quote)
next
  case (2 p d i)
  then show ?case by (cases n) (simp_all add: p_value_int)
next
  case (4 p d b)
  then show ?case by (cases n) (simp_all add: p_value_word [simplified])
next
  case (5 p d)
  then show ?case by (cases n) (simp_all add: p_value.simps)
next
  case (6 p d v vs)
  then obtain m where m: "n = Suc m" by (cases n) auto
  let ?t = "show_elems p (Suc d) (v # vs) @ newline p d @ CHR '']'' # r"
  have ok: "list_all json_ok (v # vs)" using "6.prems" by simp
  have "p_elems m ?t = Some (v # vs, r)"
    using "6.prems" ok m by (intro "6.IH") (simp_all add: newline_ws num_end_newline [where r = "[]", simplified])
  moreover obtain c t where c: "show_val p (Suc d) v = c # t" "\<not> json_ws c" "c \<noteq> CHR '']''"
    using show_val_Cons [of v p "Suc d"] ok by auto
  then obtain t' where "skip_ws ?t = c # t'" by (cases vs) auto
  ultimately show ?case
    using "6.prems"(3) m c(3) by (simp add: p_value.simps)
next
  case (7 p d)
  then show ?case by (cases n) (simp_all add: p_value.simps)
next
  case (8 p d m ms)
  then obtain n' where n: "n = Suc n'" by (cases n) auto
  let ?t = "show_members p (Suc d) (m # ms) @ newline p d @ CHR ''}'' # r"
  have ok: "list_all (\<lambda>(k, v). json_ok v) (m # ms)" using "8.prems" by simp
  have "p_members n' ?t = Some (m # ms, r)"
    using "8.prems" ok n by (intro "8.IH") (simp_all add: newline_ws num_end_newline [where r = "[]", simplified])
  moreover obtain t' where "skip_ws ?t = CHR 0x22 # t'"
    by (cases m; cases ms) (auto simp: quote_str_def)
  ultimately show ?case
    using "8.prems"(1,3) n by (simp add: p_value.simps)
next
  case (9 p d)
  then show ?case by (cases n) (simp_all add: p_value_word [simplified])
next
  case (13 p d v)
  then obtain m where m: "n = Suc m" by (cases n) auto
  have "p_value m (newline p d @ show_val p d v @ w @ CHR '']'' # r) = Some (v, w @ CHR '']'' # r)"
    using "13.prems" m by (intro "13.IH") (auto simp: newline_ws num_end_append)
  from p_elems_last [OF this "13.prems"(3)] show ?case by (simp add: m)
next
  case (14 p d v v' vs)
  then obtain m where m: "n = Suc m" by (cases n) auto
  let ?q = "show_elems p d (v' # vs) @ w @ CHR '']'' # r"
  have "p_value m (newline p d @ show_val p d v @ CHR '','' # ?q) = Some (v, CHR '','' # ?q)"
    using "14.prems" m by (subst "14.IH"(1)) (auto simp: newline_ws)
  moreover have "p_elems m ?q = Some (v' # vs, r)"
    using "14.prems" m by (intro "14.IH"(2)) auto
  ultimately show ?case using p_elems_comma by (simp add: m)
next
  case (16 p d k v)
  then obtain m where m: "n = Suc m" by (cases n) auto
  let ?sp = "if p then '' '' else []"
  have "p_value m (?sp @ show_val p d v @ w @ CHR ''}'' # r) = Some (v, w @ CHR ''}'' # r)"
    using "16.prems" m by (intro "16.IH") (auto simp: num_end_append json_ws_def code_def quote_str_def)
  from p_members_last [OF this "16.prems"(3)] show ?case by (auto simp: m)
next
  case (17 p d k v m ms)
  then obtain n' where n: "n = Suc n'" by (cases n) auto
  let ?sp = "if p then '' '' else []"
  let ?q = "show_members p d (m # ms) @ w @ CHR ''}'' # r"
  have "p_value n' (?sp @ show_val p d v @ CHR '','' # ?q) = Some (v, CHR '','' # ?q)"
    using "17.prems" n by (subst "17.IH"(1)) (auto simp: json_ws_def code_def quote_str_def)
  moreover have "p_members n' ?q = Some (m # ms, r)"
    using "17.prems" n by (intro "17.IH"(2)) auto
  ultimately show ?case using p_members_comma [of n' ?sp] by (auto simp: n)
qed auto

lemma json_parse_show: "json_ok v \<Longrightarrow> json_parse (show_val p d v) = Some v"
  using show_parse(1) [of v "[]" "[]" p d "2 * length (show_val p d v) + 2"]
  by (simp add: json_parse_def)

lemma json_parse_stringify: "json_ok v \<Longrightarrow> json_parse (json_stringify v) = Some v"
  by (simp add: json_stringify_def json_clean_ok json_parse_show)

lemma json_parse_pretty: "json_ok v \<Longrightarrow> json_parse (json_pretty v) = Some v"
  by (simp add: json_pretty_def json_clean_ok json_parse_show)

lemma JSON_parse_stringify: "json_ok v \<Longrightarrow> JSON_parse (JStr (json_stringify v)) = Inr v"
  by (simp add: JSON_parse_def json_parse_stringify)

end
