(* ===== verification/Storage.thy ===== *)
theory Storage
  imports Json
begin

text \<open>
  The browser's local storage, where the console keeps its session under three keys, and the
  contract of a keyed store as a locale: what a lookup returns after a write or a removal.
  The local storage is one interpretation of it, the server's key-value store another
  (theory Server_KV). The locale's lemmas are about whole sequences of writes and removals.
\<close>

datatype ('k, 'v) store_op = Put 'k 'v | Del 'k

fun op_key :: "('k, 'v) store_op \<Rightarrow> 'k" where
  "op_key (Put k v) = k"
| "op_key (Del k) = k"

fun op_result :: "('k, 'v) store_op \<Rightarrow> 'v option" where
  "op_result (Put k v) = Some v"
| "op_result (Del k) = None"

fun run_op :: "('k \<Rightarrow> 'v \<Rightarrow> 's \<Rightarrow> 's) \<Rightarrow> ('k \<Rightarrow> 's \<Rightarrow> 's) \<Rightarrow> ('k, 'v) store_op \<Rightarrow> 's \<Rightarrow> 's" where
  "run_op put del (Put k v) s = put k v s"
| "run_op put del (Del k) s = del k s"

definition run_ops :: "('k \<Rightarrow> 'v \<Rightarrow> 's \<Rightarrow> 's) \<Rightarrow> ('k \<Rightarrow> 's \<Rightarrow> 's) \<Rightarrow> ('k, 'v) store_op list \<Rightarrow> 's \<Rightarrow> 's" where
  "run_ops put del ops s = fold (run_op put del) ops s"

locale keyed_store =
  fixes get :: "'s \<Rightarrow> 'k \<Rightarrow> 'v option"
    and put :: "'k \<Rightarrow> 'v \<Rightarrow> 's \<Rightarrow> 's"
    and del :: "'k \<Rightarrow> 's \<Rightarrow> 's"
  assumes get_put: "get (put k v s) k' = (if k' = k then Some v else get s k')"
    and get_del: "get (del k s) k' = (if k' = k then None else get s k')"
begin

lemma get_op: "get (run_op put del a s) k = (if k = op_key a then op_result a else get s k)"
  by (cases a) (simp_all add: get_put get_del)

lemma get_ops:
  "get (run_ops put del ops s) k =
     (case filter (\<lambda>a. op_key a = k) ops of [] \<Rightarrow> get s k | as \<Rightarrow> op_result (last as))"
  unfolding run_ops_def
proof (induction ops arbitrary: s)
  case (Cons a ops)
  then show ?case by (auto simp: get_op split: list.splits)
qed simp

lemma get_ops_frame: "k \<notin> op_key ` set ops \<Longrightarrow> get (run_ops put del ops s) k = get s k"
proof -
  assume "k \<notin> op_key ` set ops"
  then have "filter (\<lambda>a. op_key a = k) ops = []" by (auto simp: filter_empty_conv)
  then show ?thesis by (simp add: get_ops)
qed

lemma get_put_then_del: "get (del k (put k v s)) k' = get (del k s) k'"
  by (simp add: get_put get_del)

end

section \<open>Local storage\<close>

type_synonym storage = "string \<rightharpoonup> string"

definition get_item :: "storage \<Rightarrow> string \<Rightarrow> jsval" where
  "get_item st k = (case st k of None \<Rightarrow> JNull | Some s \<Rightarrow> JStr s)"

definition set_item :: "string \<Rightarrow> jsval \<Rightarrow> storage \<Rightarrow> storage" where
  \<comment> \<open>the value is converted to a string\<close>
  "set_item k v st = st(k \<mapsto> to_str v)"

definition remove_item :: "string \<Rightarrow> storage \<Rightarrow> storage" where
  "remove_item k st = st(k := None)"

abbreviation token_key :: string where "token_key \<equiv> ''konsul_token''"
abbreviation refresh_key :: string where "refresh_key \<equiv> ''konsul_refresh_token''"
abbreviation user_key :: string where "user_key \<equiv> ''konsul_user''"

interpretation local_storage: keyed_store
  "\<lambda>st. st" "\<lambda>k s. set_item k (JStr s)" remove_item
  by unfold_locales (auto simp: set_item_def remove_item_def)

lemma get_item_simps [simp]:
  "get_item (set_item k v st) k' = (if k' = k then JStr (to_str v) else get_item st k')"
  "get_item (remove_item k st) k' = (if k' = k then JNull else get_item st k')"
  by (simp_all add: get_item_def set_item_def remove_item_def)

lemma truthy_get_item: "truthy (get_item st k) \<longleftrightarrow> (\<exists>s. st k = Some s \<and> s \<noteq> [])"
  by (auto simp: get_item_def split: option.splits)

end
