(* ===== verification/Api.thy ===== *)
theory Api
  imports Storage
begin

text \<open>
  The HTTP client of the console (web/admin/src/lib/api.ts): the axios instance \<open>api\<close> with
  its two interceptors, the bare instance \<open>authApi\<close>, and the functions the pages call.
  The server behind the network is a parameter of every definition, a function of the request
  and of its own state; \<open>None\<close> is a request that got no answer. Of axios the model uses
  its documented contract: the request interceptor runs before a request is sent, a status
  outside 200 to 299 rejects with the response attached, the response interceptor handles the
  rejection, and \<open>api(config)\<close> sends a configuration, its custom field \<open>_retry\<close> included,
  through the same interceptors. The requests one call makes are taken one after the other.
  The base URL is fixed at build time and left out of \<open>rq_url\<close>, as is the content type,
  the same on every request.
\<close>

record request =
  rq_method :: string
  rq_url :: string
  rq_body :: jsval
  rq_auth :: "string option"
  rq_retry :: bool

record response =
  rs_status :: nat
  rs_data :: jsval

type_synonym 's server = "request \<Rightarrow> 's \<Rightarrow> response option \<times> 's"

record 's world =
  w_store :: storage
  w_location :: "string option"
  w_server :: 's

definition mk_request :: "string \<Rightarrow> string \<Rightarrow> jsval \<Rightarrow> request" where
  "mk_request m u b = \<lparr>rq_method = m, rq_url = u, rq_body = b, rq_auth = None, rq_retry = False\<rparr>"

definition send :: "'s server \<Rightarrow> request \<Rightarrow> 's world \<Rightarrow> response js \<times> 's world" where
  \<comment> \<open>one exchange with the server\<close>
  "send srv rq w =
     (case srv rq (w_server w) of (r, s') \<Rightarrow>
        ((case r of None \<Rightarrow> throw (RequestFailed None)
          | Some resp \<Rightarrow> if 200 \<le> rs_status resp \<and> rs_status resp < 300 then return resp
                         else throw (RequestFailed (Some (rs_status resp)))),
         w\<lparr>w_server := s'\<rparr>))"

section \<open>Interceptors\<close>

definition request_interceptor :: "storage \<Rightarrow> request \<Rightarrow> request" where
  "request_interceptor st config =
     (let token = get_item st token_key
      in if truthy token then config\<lparr>rq_auth := Some (''Bearer '' @ to_str token)\<rparr> else config)"

definition refresh_body :: "jsval \<Rightarrow> jsval \<Rightarrow> jsval js" where
  "refresh_body refreshToken user =
     and_then (get_prop user ''username'') (\<lambda>username.
     and_then (get_prop user ''roles'') (\<lambda>roles.
     and_then (get_prop user ''policies'') (\<lambda>policies.
       return (JObj [(''refresh_token'', refreshToken), (''username'', username),
                     (''roles'', roles), (''policies'', policies)]))))"

definition token_pair :: "response \<Rightarrow> (jsval \<times> jsval) js" where
  \<comment> \<open>\<open>const { token, refresh_token } = response.data\<close>\<close>
  "token_pair resp =
     and_then (get_prop (rs_data resp) ''token'') (\<lambda>token.
     and_then (get_prop (rs_data resp) ''refresh_token'') (\<lambda>refresh_token.
       return (token, refresh_token)))"

definition store_tokens :: "jsval \<Rightarrow> jsval \<Rightarrow> storage \<Rightarrow> storage" where
  "store_tokens token refresh_token st = set_item refresh_key refresh_token (set_item token_key token st)"

definition refresh_session :: "'s server \<Rightarrow> 's world \<Rightarrow> jsval js \<times> 's world" where
  \<comment> \<open>the try block of the response interceptor, up to the retry\<close>
  "refresh_session srv w =
     (let refreshToken = get_item (w_store w) refresh_key;
          userStr = get_item (w_store w) user_key
      in if \<not> truthy refreshToken \<or> \<not> truthy userStr
         then (throw (ThrownError ''No refresh token available''), w)
         else case and_then (JSON_parse userStr) (refresh_body refreshToken) of
           Inl e \<Rightarrow> (throw e, w)
         | Inr body \<Rightarrow>
             (case send srv (mk_request ''POST'' ''/auth/refresh'' body) w of
                (Inl e, w1) \<Rightarrow> (throw e, w1)
              | (Inr resp, w1) \<Rightarrow>
                  (case token_pair resp of
                     Inl e \<Rightarrow> (throw e, w1)
                   | Inr (token, refresh_token) \<Rightarrow>
                       (return token,
                        w1\<lparr>w_store := store_tokens token refresh_token (w_store w1)\<rparr>))))"

definition clear_storage :: "storage \<Rightarrow> storage" where
  "clear_storage st = remove_item user_key (remove_item refresh_key (remove_item token_key st))"

definition drop_session :: "'s world \<Rightarrow> 's world" where
  \<comment> \<open>the catch block: forget the session and go to the login page\<close>
  "drop_session w = w\<lparr>w_store := clear_storage (w_store w), w_location := Some ''/admin/login''\<rparr>"

lemma request_interceptor_fields [simp]:
  "rq_retry (request_interceptor st c) = rq_retry c"
  "rq_method (request_interceptor st c) = rq_method c"
  "rq_url (request_interceptor st c) = rq_url c"
  "rq_body (request_interceptor st c) = rq_body c"
  by (simp_all add: request_interceptor_def Let_def)

function api_request :: "'s server \<Rightarrow> request \<Rightarrow> 's world \<Rightarrow> response js \<times> 's world" where
  \<comment> \<open>a call of the instance \<open>api\<close>; the call that retries is returned without \<open>await\<close>, so
     its own rejection is not caught\<close>
  "api_request srv cfg w =
     (let config = request_interceptor (w_store w) cfg
      in case send srv config w of
           (Inr resp, w1) \<Rightarrow> (return resp, w1)
         | (Inl err, w1) \<Rightarrow>
             if err = RequestFailed (Some 401) \<and> \<not> rq_retry config then
               (let originalRequest = config\<lparr>rq_retry := True\<rparr>
                in case refresh_session srv w1 of
                     (Inl e, w2) \<Rightarrow> (throw e, drop_session w2)
                   | (Inr token, w2) \<Rightarrow>
                       api_request srv (originalRequest\<lparr>rq_auth := Some (''Bearer '' @ to_str token)\<rparr>) w2)
             else (throw err, w1))"
  by pat_completeness auto
termination
  by (relation "measure (\<lambda>(srv, cfg, w). if rq_retry cfg then 0 else 1)") auto

declare api_request.simps [simp del]

definition api_get :: "'s server \<Rightarrow> string \<Rightarrow> 's world \<Rightarrow> response js \<times> 's world" where
  "api_get srv url w = api_request srv (mk_request ''GET'' url JUndef) w"

definition api_put :: "'s server \<Rightarrow> string \<Rightarrow> jsval \<Rightarrow> 's world \<Rightarrow> response js \<times> 's world" where
  "api_put srv url body w = api_request srv (mk_request ''PUT'' url body) w"

definition api_delete :: "'s server \<Rightarrow> string \<Rightarrow> 's world \<Rightarrow> response js \<times> 's world" where
  "api_delete srv url w = api_request srv (mk_request ''DELETE'' url JUndef) w"

definition authApi_post :: "'s server \<Rightarrow> string \<Rightarrow> jsval \<Rightarrow> 's world \<Rightarrow> response js \<times> 's world" where
  \<comment> \<open>the instance without interceptors\<close>
  "authApi_post srv url body w = send srv (mk_request ''POST'' url body) w"

section \<open>Service calls\<close>

definition getServices :: "'s server \<Rightarrow> 's world \<Rightarrow> jsval js \<times> 's world" where
  "getServices srv w =
     (case api_get srv ''/services/'' w of
        (Inr resp, w1) \<Rightarrow> (return (or_else (rs_data resp) (JArr [])), w1)
      | (Inl e, w1) \<Rightarrow> (return (JArr []), w1))"

definition void :: "response js \<times> 's world \<Rightarrow> unit js \<times> 's world" where
  "void r = (case r of (Inl e, w) \<Rightarrow> (throw e, w) | (Inr _, w) \<Rightarrow> (return (), w))"

definition registerService :: "'s server \<Rightarrow> jsval \<Rightarrow> 's world \<Rightarrow> unit js \<times> 's world" where
  "registerService srv service w = void (api_put srv ''/register'' service w)"

definition deregisterService :: "'s server \<Rightarrow> jsval \<Rightarrow> 's world \<Rightarrow> unit js \<times> 's world" where
  "deregisterService srv serviceName w = void (api_delete srv (''/deregister/'' @ to_str serviceName) w)"

definition sendHeartbeat :: "'s server \<Rightarrow> jsval \<Rightarrow> 's world \<Rightarrow> unit js \<times> 's world" where
  "sendHeartbeat srv serviceName w = void (api_put srv (''/heartbeat/'' @ to_str serviceName) JUndef w)"

definition getService :: "'s server \<Rightarrow> jsval \<Rightarrow> 's world \<Rightarrow> jsval js \<times> 's world" where
  "getService srv serviceName w =
     (case api_get srv (''/services/'' @ to_str serviceName) w of
        (Inr resp, w1) \<Rightarrow> (return (or_else (rs_data resp) (JArr [])), w1)
      | (Inl e, w1) \<Rightarrow> (throw e, w1))"

section \<open>Key-value calls\<close>

definition kv_pair :: "jsval \<Rightarrow> jsval \<Rightarrow> jsval" where
  "kv_pair key value = JObj [(''key'', key), (''value'', value)]"

definition getKV :: "'s server \<Rightarrow> jsval \<Rightarrow> 's world \<Rightarrow> jsval js \<times> 's world" where
  "getKV srv key w =
     (case api_get srv (''/kv/'' @ to_str key) w of
        (Inr resp, w1) \<Rightarrow> (return (kv_pair key (rs_data resp)), w1)
      | (Inl e, w1) \<Rightarrow> (return JNull, w1))"

definition setKV :: "'s server \<Rightarrow> jsval \<Rightarrow> jsval \<Rightarrow> 's world \<Rightarrow> unit js \<times> 's world" where
  "setKV srv key value w = void (api_put srv (''/kv/'' @ to_str key) (JObj [(''value'', value)]) w)"

definition deleteKV :: "'s server \<Rightarrow> jsval \<Rightarrow> 's world \<Rightarrow> unit js \<times> 's world" where
  "deleteKV srv key w = void (api_delete srv (''/kv/'' @ to_str key) w)"

definition listKV :: "'s server \<Rightarrow> 's world \<Rightarrow> jsval js \<times> 's world" where
  "listKV srv w =
     (case api_get srv ''/kv/'' w of
        (Inr resp, w1) \<Rightarrow>
          (return (case rs_data resp of
                     JArr keys \<Rightarrow> JArr (map (\<lambda>key. kv_pair key (JStr [])) keys)
                   | _ \<Rightarrow> JArr []), w1)
      | (Inl e, w1) \<Rightarrow> (return (JArr []), w1))"

fun fetch_pairs :: "'s server \<Rightarrow> jsval list \<Rightarrow> 's world \<Rightarrow> jsval list \<times> 's world" where
  \<comment> \<open>one value request per key; a failed one shows as an empty value\<close>
  "fetch_pairs srv [] w = ([], w)"
| "fetch_pairs srv (key # keys) w =
     (case api_get srv (''/kv/'' @ to_str key) w of (r, w1) \<Rightarrow>
        (let pair = (case r of Inr resp \<Rightarrow> kv_pair key (rs_data resp) | Inl e \<Rightarrow> kv_pair key (JStr []))
         in case fetch_pairs srv keys w1 of (pairs, w2) \<Rightarrow> (pair # pairs, w2)))"

definition listKVWithValues :: "'s server \<Rightarrow> 's world \<Rightarrow> jsval js \<times> 's world" where
  "listKVWithValues srv w =
     (case api_get srv ''/kv/'' w of
        (Inr resp, w1) \<Rightarrow>
          (case rs_data resp of
             JArr keys \<Rightarrow> (case fetch_pairs srv keys w1 of (pairs, w2) \<Rightarrow> (return (JArr pairs), w2))
           | _ \<Rightarrow> (return (JArr []), w1))
      | (Inl e, w1) \<Rightarrow> (return (JArr []), w1))"

definition getHealth :: "'s server \<Rightarrow> 's world \<Rightarrow> jsval js \<times> 's world" where
  "getHealth srv w =
     (case api_get srv ''/health'' w of
        (Inr resp, w1) \<Rightarrow> (return (rs_data resp), w1)
      | (Inl e, w1) \<Rightarrow> (throw e, w1))"

section \<open>What one call does\<close>

text \<open>
  Every call ends in one of four ways: no refresh was tried; the refresh failed and the session
  was dropped; or the refresh gave a token and the request went out once more.
\<close>

definition refreshable :: "response js \<Rightarrow> request \<Rightarrow> bool" where
  "refreshable r cfg \<longleftrightarrow> r = Inl (RequestFailed (Some 401)) \<and> \<not> rq_retry cfg"

lemma api_request_plain:
  assumes "send srv (request_interceptor (w_store w) cfg) w = (r, w1)" and "\<not> refreshable r cfg"
  shows "api_request srv cfg w = (r, w1)"
  using assms by (subst api_request.simps) (auto simp: refreshable_def Let_def split: sum.splits)

lemma api_request_refresh:
  assumes "send srv (request_interceptor (w_store w) cfg) w = (r, w1)" and "refreshable r cfg"
  shows "api_request srv cfg w =
    (case refresh_session srv w1 of
       (Inl e, w2) \<Rightarrow> (throw e, drop_session w2)
     | (Inr token, w2) \<Rightarrow>
         api_request srv
           ((request_interceptor (w_store w) cfg)\<lparr>rq_retry := True, rq_auth := Some (''Bearer '' @ to_str token)\<rparr>) w2)"
  using assms by (subst api_request.simps) (auto simp: refreshable_def Let_def split: sum.splits)

lemma api_request_retry:
  "rq_retry cfg \<Longrightarrow> api_request srv cfg w = send srv (request_interceptor (w_store w) cfg) w"
  by (cases "send srv (request_interceptor (w_store w) cfg) w")
    (auto simp: refreshable_def intro: api_request_plain)

lemmas api_request_unfold = api_request_plain api_request_refresh api_request_retry

lemma send_frame:
  "send srv rq w = (r, w1) \<Longrightarrow> w_store w1 = w_store w \<and> w_location w1 = w_location w"
  by (auto simp: send_def split: prod.splits)

lemma clear_storage_apply [simp]:
  "clear_storage st k = (if k = token_key \<or> k = refresh_key \<or> k = user_key then None else st k)"
  by (simp add: clear_storage_def remove_item_def)

text \<open>What a refresh may do to the storage.\<close>

definition tokens_replaced :: "storage \<Rightarrow> storage \<Rightarrow> bool" where
  "tokens_replaced st st' \<longleftrightarrow> (\<exists>t r. st' = st(token_key \<mapsto> t, refresh_key \<mapsto> r))"

lemma tokens_replaced_store_tokens [simp]: "tokens_replaced st (store_tokens t r st)"
  unfolding tokens_replaced_def store_tokens_def set_item_def by blast

lemma store_tokens_apply [simp]:
  "store_tokens t r st k = (if k = refresh_key then Some (to_str r)
     else if k = token_key then Some (to_str t) else st k)"
  by (simp add: store_tokens_def set_item_def)

lemma refresh_session_store:
  assumes "refresh_session srv w = (r, w1)"
  shows "w_location w1 = w_location w
    \<and> (case r of Inl e \<Rightarrow> w_store w1 = w_store w
       | Inr t \<Rightarrow> tokens_replaced (w_store w) (w_store w1) \<and> w_store w1 token_key = Some (to_str t))"
  using assms
  by (auto simp: refresh_session_def Let_def
      dest!: send_frame split: if_splits sum.splits prod.splits)

section \<open>The requests of one call\<close>

text \<open>The server with a log of the requests it got, to count them.\<close>

definition logged :: "'s server \<Rightarrow> ('s \<times> request list) server" where
  "logged srv = (\<lambda>rq (s, l). case srv rq s of (r, s') \<Rightarrow> (r, (s', l @ [rq])))"

definition request_log :: "('s \<times> request list) world \<Rightarrow> request list" where
  "request_log w = snd (w_server w)"

lemma request_log_update [simp]:
  "request_log (w\<lparr>w_store := st\<rparr>) = request_log w"
  "request_log (drop_session w) = request_log w"
  by (simp_all add: request_log_def drop_session_def)

lemma send_log: "send (logged srv) rq w = (r, w1) \<Longrightarrow> request_log w1 = request_log w @ [rq]"
  by (auto simp: send_def logged_def request_log_def split: prod.splits)

definition refresh_request :: "request \<Rightarrow> bool" where
  "refresh_request rq \<longleftrightarrow> rq_method rq = ''POST'' \<and> rq_url rq = ''/auth/refresh''"

lemma refresh_session_log:
  assumes "refresh_session (logged srv) w = (r, w1)"
  shows "(\<exists>e. r = Inl e \<and> request_log w1 = request_log w)
    \<or> (\<exists>rq. refresh_request rq \<and> request_log w1 = request_log w @ [rq])"
  using assms
  by (auto simp: refresh_session_def Let_def refresh_request_def mk_request_def
      dest!: send_log split: if_splits sum.splits prod.splits) metis

definition same_request :: "request \<Rightarrow> request \<Rightarrow> bool" where
  \<comment> \<open>equal but for the credentials and the retry mark\<close>
  "same_request a b \<longleftrightarrow> rq_method a = rq_method b \<and> rq_url a = rq_url b \<and> rq_body a = rq_body b"

lemma same_request_interceptor [simp]:
  "same_request c (request_interceptor st d) = same_request c d"
  by (simp add: same_request_def)

section \<open>The session during one call\<close>

lemma api_request_session:
  assumes "api_request srv cfg w = (r, w')"
  shows "w_store w' = w_store w \<and> w_location w' = w_location w
    \<or> tokens_replaced (w_store w) (w_store w') \<and> w_location w' = w_location w
    \<or> w_store w' = clear_storage (w_store w) \<and> w_location w' = Some ''/admin/login'' \<and> (\<exists>e. r = Inl e)"
proof -
  let ?a = "request_interceptor (w_store w) cfg"
  obtain r1 w1 where s: "send srv ?a w = (r1, w1)" by force
  note f1 = send_frame [OF s]
  show ?thesis
  proof (cases "refreshable r1 cfg")
    case False
    from api_request_plain [OF s False] assms f1 show ?thesis by auto
  next
    case True
    obtain r2 w2 where f: "refresh_session srv w1 = (r2, w2)" by force
    note f2 = refresh_session_store [OF f]
    show ?thesis
    proof (cases r2)
      case (Inl e)
      with api_request_refresh [OF s True] f assms have "r = Inl e" "w' = drop_session w2" by simp_all
      with f1 f2 Inl show ?thesis by (simp add: drop_session_def)
    next
      case (Inr t)
      let ?c = "?a\<lparr>rq_retry := True, rq_auth := Some (''Bearer '' @ to_str t)\<rparr>"
      from api_request_refresh [OF s True] f assms Inr
      have "send srv (request_interceptor (w_store w2) ?c) w2 = (r, w')"
        by (simp add: api_request_retry)
      from send_frame [OF this] f1 f2 Inr show ?thesis by simp
    qed
  qed
qed

lemma api_request_keeps_session:
  \<comment> \<open>a call whose first answer is no 401 leaves the session alone\<close>
  assumes "api_request srv cfg w = (r, w')"
    and "fst (send srv (request_interceptor (w_store w) cfg) w) \<noteq> Inl (RequestFailed (Some 401))"
  shows "w_store w' = w_store w \<and> w_location w' = w_location w"
proof -
  obtain r1 w1 where s: "send srv (request_interceptor (w_store w) cfg) w = (r1, w1)" by force
  with assms(2) have "\<not> refreshable r1 cfg" by (simp add: refreshable_def)
  from api_request_plain [OF s this] assms(1) send_frame [OF s] show ?thesis by simp
qed

lemma length_fetch_pairs: "length (fst (fetch_pairs srv keys w)) = length keys"
  by (induction keys arbitrary: w) (simp_all add: case_prod_beta Let_def)

lemma fetch_pairs_keys:
  "map (\<lambda>p. opt_prop p ''key'') (fst (fetch_pairs srv keys w)) = keys"
  by (induction keys arbitrary: w)
    (auto simp: kv_pair_def opt_prop_def Let_def case_prod_beta split: sum.splits)

section \<open>A small server for the examples\<close>

definition example_server :: "unit server" where
  \<comment> \<open>knows one token, \<open>new\<close>, which it also issues, and two keys, one of which it cannot read\<close>
  "example_server rq s =
     ((if rq_url rq = ''/auth/refresh'' \<or> rq_url rq = ''/auth/login'' then
         Some \<lparr>rs_status = 200, rs_data = JObj [(''token'', JStr ''new''), (''refresh_token'', JStr ''r2'')]\<rparr>
       else if rq_auth rq \<noteq> Some ''Bearer new'' then Some \<lparr>rs_status = 401, rs_data = JNull\<rparr>
       else if rq_url rq = ''/kv/'' then Some \<lparr>rs_status = 200, rs_data = JArr [JStr ''a'', JStr ''b'']\<rparr>
       else if rq_url rq = ''/kv/a'' then Some \<lparr>rs_status = 200, rs_data = JStr ''v''\<rparr>
       else Some \<lparr>rs_status = 404, rs_data = JNull\<rparr>), ())"

definition example_world :: "string \<Rightarrow> 's \<Rightarrow> 's world" where
  \<comment> \<open>a browser that holds a session with this token\<close>
  "example_world token s =
     \<lparr>w_store = [token_key \<mapsto> token, refresh_key \<mapsto> ''r1'', user_key \<mapsto> ''{}''],
      w_location = None, w_server = s\<rparr>"

lemmas example_defs = example_server_def example_world_def mk_request_def send_def
  request_interceptor_def get_item_def

lemma example_user: "and_then (JSON_parse (JStr ''{}'')) (refresh_body t) =
    Inr (JObj [(''refresh_token'', t), (''username'', JUndef), (''roles'', JUndef), (''policies'', JUndef)])"
proof -
  have "json_ok (JObj [])" by (simp add: obj_of_def)
  from JSON_parse_stringify [OF this] have "JSON_parse (JStr ''{}'') = Inr (JObj [])"
    by (simp add: json_stringify_def)
  then show ?thesis by (simp add: refresh_body_def)
qed

lemma example_refresh:
  "refresh_session example_server (example_world ''old'' ()) =
     (Inr (JStr ''new''), (example_world ''new'' ())\<lparr>w_store :=
        [token_key \<mapsto> ''new'', refresh_key \<mapsto> ''r2'', user_key \<mapsto> ''{}'']\<rparr>)"
  by (simp add: refresh_session_def example_defs example_user [unfolded example_defs] token_pair_def
      store_tokens_def set_item_def fun_upd_twist)

lemma example_call:
  "send example_server (request_interceptor (w_store (example_world ''old'' ())) (mk_request ''GET'' u JUndef))
     (example_world ''old'' ()) =
   (if u = ''/auth/refresh'' \<or> u = ''/auth/login''
    then (Inr \<lparr>rs_status = 200, rs_data = JObj [(''token'', JStr ''new''), (''refresh_token'', JStr ''r2'')]\<rparr>,
          example_world ''old'' ())
    else (Inl (RequestFailed (Some 401)), example_world ''old'' ()))"
  by (simp add: example_defs)

definition bearer :: "storage \<Rightarrow> request \<Rightarrow> string option" where
  \<comment> \<open>the credentials of a request sent with this storage\<close>
  "bearer st cfg = (case st token_key of
     Some t \<Rightarrow> if t = [] then rq_auth cfg else Some (''Bearer '' @ t) | None \<Rightarrow> rq_auth cfg)"

lemma rq_auth_interceptor: "rq_auth (request_interceptor st cfg) = bearer st cfg"
  by (auto simp: request_interceptor_def bearer_def get_item_def Let_def split: option.splits)

lemma api_request_log:
  assumes "api_request (logged srv) cfg w = (r, w')"
  shows "\<exists>a l. request_log w' = request_log w @ a # l \<and> same_request cfg a
    \<and> rq_auth a = bearer (w_store w) cfg
    \<and> (l = [] \<or> (\<exists>b. refresh_request b \<and> l = [b])
      \<or> (\<exists>b c tok. l = [b, c] \<and> refresh_request b \<and> same_request cfg c \<and> rq_retry c
           \<and> rq_auth c = Some (''Bearer '' @ tok) \<and> w_store w' token_key = Some tok))"
proof -
  let ?a = "request_interceptor (w_store w) cfg"
  obtain r1 w1 where s: "send (logged srv) ?a w = (r1, w1)" by force
  have a: "same_request cfg ?a" by (simp add: same_request_def)
  note l1 = send_log [OF s] and auth = rq_auth_interceptor [of "w_store w" cfg]
  show ?thesis
  proof (cases "refreshable r1 cfg")
    case False
    from api_request_plain [OF s False] assms a auth l1 show ?thesis by auto
  next
    case True
    obtain r2 w2 where f: "refresh_session (logged srv) w1 = (r2, w2)" by force
    note l2 = refresh_session_log [OF f]
    show ?thesis
    proof (cases r2)
      case (Inl e)
      with api_request_refresh [OF s True] f assms have "w' = drop_session w2" by simp
      with l1 l2 a auth Inl show ?thesis by auto
    next
      case (Inr t)
      let ?c = "?a\<lparr>rq_retry := True, rq_auth := Some (''Bearer '' @ to_str t)\<rparr>"
      let ?d = "request_interceptor (w_store w2) ?c"
      from api_request_refresh [OF s True] f assms Inr have d: "send (logged srv) ?d w2 = (r, w')"
        by (simp add: api_request_retry)
      from refresh_session_store [OF f] Inr have t: "w_store w2 token_key = Some (to_str t)" by simp
      then have "w_store w' token_key = Some (to_str t)" using send_frame [OF d] by simp
      moreover have "rq_auth ?d = Some (''Bearer '' @ to_str t)"
        by (simp add: rq_auth_interceptor bearer_def t)
      moreover obtain b where "refresh_request b" "request_log w2 = request_log w1 @ [b]"
        using l2 Inr by auto
      ultimately show ?thesis using send_log [OF d] l1 a auth
        by (intro exI [of _ ?a] exI [of _ "[b, ?d]"]) (simp add: same_request_def)
    qed
  qed
qed

lemma api_request_first:
  assumes "api_request (logged srv) cfg w = (r, w')"
  shows "\<exists>a l. request_log w' = request_log w @ a # l \<and> same_request cfg a"
  using api_request_log [OF assms] by blast

section \<open>Properties\<close>



text \<open>
  C11: During one call the session is handled as a unit: the storage is untouched, or both
  tokens are replaced and nothing else is, or all three keys are removed, the browser is sent
  to the login page and the call fails. The last two happen only after a 401 to the first
  request.
\<close>

theorem api_call_session:
  assumes "api_request srv cfg w = (r, w')"
  shows "(w_store w' = w_store w \<and> w_location w' = w_location w
      \<or> tokens_replaced (w_store w) (w_store w') \<and> w_location w' = w_location w
      \<or> w_store w' = clear_storage (w_store w) \<and> w_location w' = Some ''/admin/login'' \<and> (\<exists>e. r = Inl e))
    \<and> (fst (send srv (request_interceptor (w_store w) cfg) w) \<noteq> Inl (RequestFailed (Some 401)) \<longrightarrow>
        w_store w' = w_store w \<and> w_location w' = w_location w)"
  using api_request_session [OF assms] api_request_keeps_session [OF assms] by blast

theorem api_call_session_witness:
  "let w' = snd (api_request example_server (mk_request ''GET'' ''/kv/'' JUndef) (example_world ''new'' ()))
   in w_store w' token_key = Some ''new'' \<and> w_location w' = None"
  using api_call_session [OF surjective_pairing, of example_server "mk_request ''GET'' ''/kv/'' JUndef"
      "example_world ''new'' ()"]
  by (simp add: example_defs Let_def)

text \<open>The outcome after a refresh is the answer to the repeated request.\<close>

lemma api_call_retry_final:
  assumes "send srv (request_interceptor (w_store w) cfg) w = (Inl (RequestFailed (Some 401)), w1)"
    and "\<not> rq_retry cfg" and "refresh_session srv w1 = (Inr token, w2)"
  shows "\<exists>c. same_request cfg c \<and> rq_retry c \<and> api_request srv cfg w = send srv c w2
    \<and> w_store (snd (api_request srv cfg w)) = w_store w2 \<and> tokens_replaced (w_store w) (w_store w2)"
proof -
  let ?c = "(request_interceptor (w_store w) cfg)\<lparr>rq_retry := True, rq_auth := Some (''Bearer '' @ to_str token)\<rparr>"
  let ?d = "request_interceptor (w_store w2) ?c"
  from assms(2) have "refreshable (Inl (RequestFailed (Some 401))) cfg" by (simp add: refreshable_def)
  from api_request_refresh [OF assms(1) this] assms(3)
  have eq: "api_request srv cfg w = send srv ?d w2" by (simp add: api_request_retry)
  moreover have "w_store (snd (send srv ?d w2)) = w_store w2"
    by (cases "send srv ?d w2") (simp add: send_frame)
  moreover have "tokens_replaced (w_store w) (w_store w2)"
    using refresh_session_store [OF assms(3)] send_frame [OF assms(1)] by simp
  ultimately show ?thesis by (intro exI [of _ ?d]) (simp add: same_request_def)
qed

definition pair_answered :: "'s server \<Rightarrow> jsval list \<Rightarrow> jsval \<Rightarrow> bool" where
  \<comment> \<open>the pair's value is empty, or what the server answered for its key\<close>
  "pair_answered srv keys p \<longleftrightarrow> opt_prop p ''value'' = JStr []
     \<or> (\<exists>resp wa wb. opt_prop p ''key'' \<in> set keys
          \<and> api_get srv (''/kv/'' @ to_str (opt_prop p ''key'')) wa = (Inr resp, wb)
          \<and> opt_prop p ''value'' = rs_data resp)"

lemma opt_prop_kv_pair [simp]:
  "opt_prop (kv_pair k v) ''key'' = k" "opt_prop (kv_pair k v) ''value'' = v"
  by (simp_all add: kv_pair_def opt_prop_def)

lemma pair_answered_more: "pair_answered srv ks p \<Longrightarrow> pair_answered srv (k # ks) p"
  by (auto simp: pair_answered_def)

lemma fetch_pairs_answered: "p \<in> set (fst (fetch_pairs srv keys w)) \<Longrightarrow> pair_answered srv keys p"
proof (induction keys arbitrary: w)
  case (Cons k ks)
  obtain x wb where g: "api_get srv (''/kv/'' @ to_str k) w = (x, wb)" by force
  let ?p = "case x of Inr resp \<Rightarrow> kv_pair k (rs_data resp) | Inl e \<Rightarrow> kv_pair k (JStr [])"
  have "pair_answered srv (k # ks) ?p"
    using g by (cases x) (auto simp: pair_answered_def)
  moreover have "fst (fetch_pairs srv (k # ks) w) = ?p # fst (fetch_pairs srv ks wb)"
    using g by (simp add: case_prod_beta)
  ultimately show ?case
    using Cons.prems Cons.IH [of wb] pair_answered_more by auto
qed simp

text \<open>
  Loading the key-value list never fails, and when the server answers with a list of keys
  the page gets one pair per key, in the server's order, whose value is an answer the server
  gave or, where that request failed, empty.
\<close>

theorem listKVWithValues_keys:
  assumes "api_get srv ''/kv/'' w = (Inr resp, w1)" and "rs_data resp = JArr keys"
  shows "\<exists>pairs w2. listKVWithValues srv w = (Inr (JArr pairs), w2)
    \<and> map (\<lambda>p. opt_prop p ''key'') pairs = keys
    \<and> (\<forall>p \<in> set pairs. pair_answered srv keys p)"
proof -
  obtain pairs w2 where f: "fetch_pairs srv keys w1 = (pairs, w2)" by force
  with fetch_pairs_answered [of _ srv keys w1] fetch_pairs_keys [of srv keys w1] assms show ?thesis
    by (simp add: listKVWithValues_def)
qed

theorem listKVWithValues_keys_witness:
  "\<exists>pairs w2. listKVWithValues example_server (example_world ''new'' ()) = (Inr (JArr pairs), w2)
     \<and> map (\<lambda>p. opt_prop p ''key'') pairs = [JStr ''a'', JStr ''b'']"
proof -
  have "api_get example_server ''/kv/'' (example_world ''new'' ()) =
      (Inr \<lparr>rs_status = 200, rs_data = JArr [JStr ''a'', JStr ''b'']\<rparr>, example_world ''new'' ())"
    unfolding api_get_def by (rule api_request_plain) (simp_all add: example_defs refreshable_def)
  from listKVWithValues_keys [OF this] show ?thesis by auto
qed

end
