(* ===== verification/KV_Page.thy ===== *)
theory KV_Page
  imports Types Base64 Api
begin

text \<open>
  The key-value page (pages/KVStore.tsx) and its editor (components/KVEditor.tsx): the state of
  both components, their handlers, what they render, and the machine they form with the
  mutations that are under way. The query of the page is the pair of what its hook returns,
  the data and whether they are loading; the data may change at any moment. A mutation is
  pending from the click that starts it until it settles, which sends its request; its
  \<open>onSuccess\<close> runs then, on the state of that moment. The editor is mounted, with initial
  state from its props, when the page first renders it, and keeps its state until the page
  renders without it. A throw inside an event handler leaves the state as it was. A question
  to the user is answered by the parameter \<open>confirm\<close>.
\<close>

section \<open>State\<close>

datatype editor_mode = Create_Mode | Edit_Mode

record editor =
  ed_key :: jsval
  ed_value :: jsval
  ed_error :: string

datatype kv_mutation = Set_KV jsval jsval | Delete_KV jsval

record kv_page =
  kp_search :: string
  kp_open :: bool
  kp_mode :: editor_mode
  kp_selected :: jsval
  kp_data :: jsval
  kp_loading :: bool
  kp_editor :: "editor option"
  kp_pending :: "kv_mutation list"
  kp_stale :: bool

definition kv_page_init :: kv_page where
  "kv_page_init = \<lparr>kp_search = [], kp_open = False, kp_mode = Create_Mode, kp_selected = JNull,
     kp_data = JUndef, kp_loading = True, kp_editor = None, kp_pending = [], kp_stale = False\<rparr>"

datatype kv_action =
    Refetch
  | Create
  | Edit jsval
  | Delete jsval
  | Search string
  | Type_Key string
  | Type_Value string
  | Save
  | Close

section \<open>Values\<close>

definition decodeValue :: "jsval \<Rightarrow> jsval" where
  "decodeValue value = (case atob (to_str value) of Some decoded \<Rightarrow> JStr decoded | None \<Rightarrow> value)"

definition formatValue :: "jsval \<Rightarrow> jsval" where
  "formatValue value =
     (let decoded = decodeValue value
      in case JSON_parse decoded of
           Inr parsed \<Rightarrow> JStr (json_pretty parsed)
         | Inl e \<Rightarrow> decoded)"

definition key_matches :: "string \<Rightarrow> jsval \<Rightarrow> bool js" where
  "key_matches searchTerm kv =
     and_then (get_prop kv ''key'') (\<lambda>k.
     and_then (as_string k) (\<lambda>key.
       return (includes_str (to_lower key) (to_lower searchTerm))))"

fun filter_js :: "('a \<Rightarrow> bool js) \<Rightarrow> 'a list \<Rightarrow> 'a list js" where
  "filter_js p [] = return []"
| "filter_js p (x # xs) =
     and_then (p x) (\<lambda>b. and_then (filter_js p xs) (\<lambda>ys. return (if b then x # ys else ys)))"

definition filteredKVPairs :: "kv_page \<Rightarrow> jsval js" where
  \<comment> \<open>\<open>kvPairs?.filter(...)\<close>\<close>
  "filteredKVPairs s =
     (if kp_data s = JUndef \<or> kp_data s = JNull then return JUndef
      else and_then (as_array (kp_data s)) (\<lambda>kvs.
           and_then (filter_js (key_matches (kp_search s)) kvs) (\<lambda>fs. return (JArr fs))))"

section \<open>The editor\<close>

definition editor_mount :: "jsval \<Rightarrow> jsval \<Rightarrow> editor" where
  "editor_mount initialKey initialValue = \<lparr>ed_key = initialKey, ed_value = initialValue, ed_error = []\<rparr>"

definition looks_like_json :: "jsval \<Rightarrow> bool js" where
  "looks_like_json value =
     and_then (as_string value) (\<lambda>v.
       return (starts_with (js_trim v) ''{'' \<or> starts_with (js_trim v) ''[''))"

definition editor_save :: "editor \<Rightarrow> (editor \<times> (jsval \<times> jsval) option) js" where
  \<comment> \<open>\<open>handleSave\<close> of the editor; the second part is the call of \<open>onSave\<close>, which \<open>onClose\<close>
     follows\<close>
  "editor_save e =
     and_then (as_string (ed_key e)) (\<lambda>k.
       if js_trim k = [] then return (e\<lparr>ed_error := ''Key is required''\<rparr>, None)
       else case and_then (looks_like_json (ed_value e)) (\<lambda>b.
                   if b then and_then (JSON_parse (ed_value e)) (\<lambda>_. return ()) else return ()) of
              Inr _ \<Rightarrow> return (e, Some (ed_key e, ed_value e))
            | Inl err \<Rightarrow> return (e\<lparr>ed_error := ''Invalid JSON format''\<rparr>, None))"

definition editor_view :: "editor_mode \<Rightarrow> editor \<Rightarrow> kv_action view" where
  "editor_view mode e =
     el ''div'' [el ''div'' [
       el ''div'' [
         el ''h2'' [label (if mode = Create_Mode then ''Create New Key'' else ''Edit Key'')],
         elem ''button'' [] [On_Click Close] [icon ''X'']],
       el ''div'' [
         el ''div'' [
           el ''label'' [label ''Key''],
           elem ''input'' [(''type'', JStr ''text''), (''value'', JStr (to_str (ed_key e))),
                           (''disabled'', JBool (mode = Edit_Mode)), (''placeholder'', JStr ''my/key/path'')]
             [On_Change Type_Key] []],
         el ''div'' [
           el ''label'' [label ''Value''],
           elem ''textarea'' [(''value'', JStr (to_str (ed_value e))), (''rows'', JNum 10),
                              (''placeholder'', JStr ''Enter value (can be JSON)'')]
             [On_Change Type_Value] []],
         show_if (ed_error e \<noteq> []) (el ''div'' [label (ed_error e)])],
       el ''div'' [
         elem ''button'' [] [On_Click Close] [label ''Cancel''],
         elem ''button'' [] [On_Click Save] [icon ''Save'', label ''Save'']]]]"

section \<open>The page\<close>

definition handleCreate :: "kv_page \<Rightarrow> kv_page" where
  "handleCreate s = s\<lparr>kp_mode := Create_Mode, kp_selected := JNull, kp_open := True\<rparr>"

definition handleEdit :: "jsval \<Rightarrow> kv_page \<Rightarrow> kv_page" where
  "handleEdit kv s = s\<lparr>kp_mode := Edit_Mode, kp_selected := kv, kp_open := True\<rparr>"

definition handleSave :: "jsval \<Rightarrow> jsval \<Rightarrow> kv_page \<Rightarrow> kv_page" where
  "handleSave key value s = s\<lparr>kp_pending := kp_pending s @ [Set_KV key value]\<rparr>"

definition handleDelete :: "(string \<Rightarrow> bool) \<Rightarrow> jsval \<Rightarrow> kv_page \<Rightarrow> kv_page" where
  "handleDelete confirm key s =
     (if confirm (''Are you sure you want to delete key '' @ [CHR 0x22] @ to_str key @ [CHR 0x22] @ ''?'')
      then s\<lparr>kp_pending := kp_pending s @ [Delete_KV key]\<rparr> else s)"

definition close_editor :: "kv_page \<Rightarrow> kv_page" where
  "close_editor s = s\<lparr>kp_open := False, kp_selected := JNull\<rparr>"

definition initialKey :: "kv_page \<Rightarrow> jsval" where
  "initialKey s = or_else (opt_prop (kp_selected s) ''key'') (JStr [])"

definition initialValue :: "kv_page \<Rightarrow> jsval" where
  "initialValue s =
     (if truthy (kp_selected s) then formatValue (opt_prop (kp_selected s) ''value'') else JStr [])"

definition commit :: "kv_page \<Rightarrow> kv_page" where
  \<comment> \<open>the render after a state change mounts or unmounts the editor\<close>
  "commit s =
     (if kp_open s
      then s\<lparr>kp_editor := Some (case kp_editor s of
               Some e \<Rightarrow> e | None \<Rightarrow> editor_mount (initialKey s) (initialValue s))\<rparr>
      else s\<lparr>kp_editor := None\<rparr>)"

definition in_editor :: "(editor \<Rightarrow> editor) \<Rightarrow> kv_page \<Rightarrow> kv_page" where
  "in_editor f s = s\<lparr>kp_editor := map_option f (kp_editor s)\<rparr>"

fun kv_handle :: "(string \<Rightarrow> bool) \<Rightarrow> kv_action \<Rightarrow> kv_page \<Rightarrow> kv_page" where
  "kv_handle confirm Refetch s = s\<lparr>kp_stale := True\<rparr>"
| "kv_handle confirm Create s = commit (handleCreate s)"
| "kv_handle confirm (Edit kv) s = commit (handleEdit kv s)"
| "kv_handle confirm (Delete key) s = commit (handleDelete confirm key s)"
| "kv_handle confirm (Search term) s = commit (s\<lparr>kp_search := term\<rparr>)"
| "kv_handle confirm (Type_Key v) s = in_editor (\<lambda>e. e\<lparr>ed_key := JStr v\<rparr>) s"
| "kv_handle confirm (Type_Value v) s = in_editor (\<lambda>e. e\<lparr>ed_value := JStr v\<rparr>) s"
| "kv_handle confirm Save s =
     (case kp_editor s of
        None \<Rightarrow> s
      | Some e \<Rightarrow>
          (case editor_save e of
             Inl err \<Rightarrow> s
           | Inr (e', None) \<Rightarrow> s\<lparr>kp_editor := Some e'\<rparr>
           | Inr (e', Some (key, value)) \<Rightarrow> commit (close_editor (handleSave key value s))))"
| "kv_handle confirm Close s = commit (close_editor s)"

definition run_mutation :: "'s server \<Rightarrow> kv_mutation \<Rightarrow> 's world \<Rightarrow> unit js \<times> 's world" where
  \<comment> \<open>the \<open>mutationFn\<close> of both mutations\<close>
  "run_mutation srv m w = (case m of Set_KV key value \<Rightarrow> setKV srv key value w | Delete_KV key \<Rightarrow> deleteKV srv key w)"

definition on_success :: "kv_mutation \<Rightarrow> kv_page \<Rightarrow> kv_page" where
  "on_success m s =
     (case m of
        Set_KV key value \<Rightarrow> s\<lparr>kp_stale := True, kp_open := False, kp_selected := JNull\<rparr>
      | Delete_KV key \<Rightarrow> s\<lparr>kp_stale := True\<rparr>)"

definition settle :: "'s server \<Rightarrow> nat \<Rightarrow> kv_page \<times> 's world \<Rightarrow> kv_page \<times> 's world" where
  "settle srv i sw =
     (case sw of (s, w) \<Rightarrow>
        let m = kp_pending s ! i;
            s1 = s\<lparr>kp_pending := take i (kp_pending s) @ drop (Suc i) (kp_pending s)\<rparr>
        in case run_mutation srv m w of
             (Inr _, w1) \<Rightarrow> (commit (on_success m s1), w1)
           | (Inl e, w1) \<Rightarrow> (s1, w1))"

definition kv_card :: "jsval \<Rightarrow> kv_action view" where
  "kv_card kv =
     el ''div'' [
       el ''div'' [
         el ''div'' [
           el ''div'' [icon ''FolderTree''],
           el ''div'' [
             el ''h3'' [child (opt_prop kv ''key'')],
             guard_child (opt_prop kv ''modify_index'')
               (el ''p'' [label ''Modified Index: '', child (opt_prop kv ''modify_index'')])]],
         el ''div'' [
           elem ''button'' [(''title'', JStr ''Edit'')] [On_Click (Edit kv)] [icon ''Edit2''],
           elem ''button'' [(''title'', JStr ''Delete'')] [On_Click (Delete (opt_prop kv ''key''))] [icon ''Trash2'']]],
       el ''div'' [el ''pre'' [child (formatValue (opt_prop kv ''value''))]]]"

definition kv_list :: "kv_page \<Rightarrow> kv_action view" where
  "kv_list s =
     and_then (filteredKVPairs s) (\<lambda>fs.
       if kp_loading s then skeleton 5
       else if truthy fs \<and> positive_num (opt_prop fs ''length'')
            then and_then (as_array fs) (\<lambda>kvs. el ''div'' [each kvs kv_card])
       else el ''div'' [
              el ''p'' [label (if kp_search s \<noteq> [] then ''No keys match your search'' else ''No keys stored yet'')],
              el ''p'' [label (if kp_search s \<noteq> [] then ''Try a different search term''
                        else ''Click \"Create Key\" to add your first key-value pair'')]])"

definition kv_view :: "kv_page \<Rightarrow> kv_action view" where
  "kv_view s =
     el ''div'' [
       el ''div'' [
         el ''div'' [el ''h1'' [label ''Key-Value Store''], el ''p'' [label ''Browse and manage configuration data'']],
         el ''div'' [
           elem ''button'' [] [On_Click Refetch] [icon ''RefreshCw'', label ''Refresh''],
           elem ''button'' [] [On_Click Create] [icon ''Plus'', label ''Create Key'']]],
       el ''div'' [el ''div'' [el ''div'' [icon ''Search''],
         elem ''input'' [(''type'', JStr ''text''), (''value'', JStr (kp_search s)), (''placeholder'', JStr ''Search keys...'')]
           [On_Change Search] []]],
       kv_list s,
       (case kp_editor s of None \<Rightarrow> return [] | Some e \<Rightarrow> editor_view (kp_mode s) e)]"

section \<open>The machine\<close>

inductive kv_step :: "(string \<Rightarrow> bool) \<Rightarrow> 's server \<Rightarrow> kv_page \<times> 's world \<Rightarrow> kv_page \<times> 's world \<Rightarrow> bool"
  for confirm srv where
  kv_user: "kv_step confirm srv (s, w) (kv_handle confirm a s, w)"
| kv_settle: "i < length (kp_pending s) \<Longrightarrow> kv_step confirm srv (s, w) (settle srv i (s, w))"
| kv_fetch: "listKVWithValues srv w = (r, w') \<Longrightarrow> kv_step confirm srv (s, w)
    (s\<lparr>kp_data := (case r of Inr v \<Rightarrow> v | Inl e \<Rightarrow> kp_data s), kp_loading := False, kp_stale := False\<rparr>, w')"

inductive_cases kv_step_cases: "kv_step confirm srv sw sw'"

section \<open>Values and filtering\<close>

definition string_pair :: "jsval \<Rightarrow> bool" where
  \<comment> \<open>an object with a text under \<open>key\<close>, as the client builds it\<close>
  "string_pair kv \<longleftrightarrow> (\<exists>kvs k. kv = JObj kvs \<and> obj_get kvs ''key'' = JStr k)"

lemma opt_prop_JObj [simp]: "opt_prop (JObj kvs) k = obj_get kvs k"
  by (simp add: opt_prop_def)

lemma get_prop_opt_prop: "v \<noteq> JUndef \<Longrightarrow> v \<noteq> JNull \<Longrightarrow> get_prop v k = Inr (opt_prop v k)"
  by (cases v) (simp_all add: opt_prop_def)

definition key_text :: "jsval \<Rightarrow> string" where
  "key_text kv = to_str (opt_prop kv ''key'')"

definition matching :: "string \<Rightarrow> jsval \<Rightarrow> bool" where
  "matching term kv \<longleftrightarrow> includes_str (to_lower (key_text kv)) (to_lower term)"

lemma key_matches_pair: "string_pair kv \<Longrightarrow> key_matches term kv = Inr (matching term kv)"
  by (auto simp: string_pair_def key_matches_def as_string_def matching_def key_text_def)

lemma filter_js_return: "(\<And>x. x \<in> set xs \<Longrightarrow> p x = Inr (q x)) \<Longrightarrow> filter_js p xs = Inr (filter q xs)"
  by (induction xs) auto

lemma filteredKVPairs_pairs:
  assumes "kp_data s = JArr kvs" and "\<forall>kv \<in> set kvs. string_pair kv"
  shows "filteredKVPairs s = Inr (JArr (filter (matching (kp_search s)) kvs))"
proof -
  have "filter_js (key_matches (kp_search s)) kvs = Inr (filter (matching (kp_search s)) kvs)"
    using assms(2) by (intro filter_js_return) (simp add: key_matches_pair)
  with assms(1) show ?thesis by (simp add: filteredKVPairs_def as_array_def)
qed

lemma atob_object_text: "atob (to_str (JObj kvs)) = None"
  by (rule atob_rejects [of "CHR ''[''"]) (simp_all add: sextet_def ascii_ws_def code_def)

lemma object_text_no_json: "JSON_parse (JObj kvs) = Inl SyntaxError"
proof -
  have "json_parse ''[object Object]'' = None" by code_simp
  then show ?thesis by (simp add: JSON_parse_def)
qed

lemma formatValue_object [simp]: "formatValue (JObj kvs) = JObj kvs"
  by (simp add: formatValue_def decodeValue_def atob_object_text [simplified] object_text_no_json)

lemma formatValue_string: "\<exists>t. formatValue (JStr s) = JStr t"
  by (cases "JSON_parse (decodeValue (JStr s))"; cases "atob s")
    (auto simp: formatValue_def decodeValue_def)

text \<open>A JSON text of an object or an array holds a character base64 does not have.\<close>

lemma show_val_bracket:
  assumes "v = JArr vs \<or> v = JObj ms"
  shows "CHR ''['' \<in> set (show_val p d v) \<or> CHR ''{'' \<in> set (show_val p d v)"
  using assms by (cases vs; cases ms) auto

lemma atob_json_text:
  assumes "v = JArr vs \<or> v = JObj ms" and "json_ok v"
  shows "atob (json_stringify v) = None"
proof -
  have "CHR ''['' \<in> set (json_stringify v) \<or> CHR ''{'' \<in> set (json_stringify v)"
    using show_val_bracket [OF assms(1), of False 0] assms(2)
    by (simp add: json_stringify_def json_clean_ok)
  then show ?thesis
    by (elim disjE; intro atob_rejects) (assumption | simp add: sextet_def ascii_ws_def code_def)+
qed

lemma formatValue_json_text:
  assumes "v = JArr vs \<or> v = JObj ms" and "json_ok v"
  shows "formatValue (JStr (json_stringify v)) = JStr (json_pretty v)"
  using assms by (simp add: formatValue_def decodeValue_def atob_json_text [OF assms] JSON_parse_stringify)

section \<open>What the page shows\<close>

lemma kv_card_crash_iff:
  "crashes (kv_card kv) \<longleftrightarrow> crashes (child (opt_prop kv ''key'') :: kv_action view)
     \<or> crashes (child (opt_prop kv ''modify_index'') :: kv_action view)
     \<or> crashes (child (formatValue (opt_prop kv ''value'')) :: kv_action view)"
  by (simp add: kv_card_def guard_child_def)

lemma kv_list_pairs:
  assumes "kp_data s = JArr kvs" and "\<forall>kv \<in> set kvs. string_pair kv" and "\<not> kp_loading s"
    and "filter (matching (kp_search s)) kvs \<noteq> []"
  shows "kv_list s = el ''div'' [each (filter (matching (kp_search s)) kvs) kv_card]"
  using assms filteredKVPairs_pairs [OF assms(1,2)]
  by (simp add: kv_list_def positive_num_def opt_prop_def as_array_def)

lemma is_KVPair_string: "is_KVPair kv \<Longrightarrow> string_pair kv"
  by (auto simp: is_KVPair_def string_pair_def is_object_iff is_string_iff)

lemma kv_card_typed: "is_KVPair kv \<Longrightarrow> \<not> crashes (kv_card kv)"
proof -
  assume t: "is_KVPair kv"
  then obtain s where "opt_prop kv ''value'' = JStr s" by (auto simp: is_KVPair_def is_string_iff)
  moreover obtain f where "formatValue (JStr s) = JStr f" using formatValue_string by blast
  ultimately show ?thesis using t by (auto simp: is_KVPair_def kv_card_crash_iff)
qed

lemma kv_list_typed:
  assumes "list_of is_KVPair (kp_data s)"
  shows "\<not> crashes (kv_list s)"
proof -
  obtain kvs where kvs: "kp_data s = JArr kvs" "\<forall>kv \<in> set kvs. is_KVPair kv"
    using assms by (auto simp: list_of_iff list_all_iff)
  then have "filteredKVPairs s = Inr (JArr (filter (matching (kp_search s)) kvs))"
    by (intro filteredKVPairs_pairs) (simp_all add: is_KVPair_string)
  with kvs(2) kv_card_typed show ?thesis by (auto simp: kv_list_def as_array_def)
qed

lemma kv_view_typed: "list_of is_KVPair (kp_data s) \<Longrightarrow> \<not> crashes (kv_view s)"
  by (simp add: kv_view_def kv_list_typed editor_view_def split: option.split)

lemma view_clicks_card:
  "\<not> crashes (kv_card kv) \<Longrightarrow> view_clicks (kv_card kv) = [Edit kv, Delete (opt_prop kv ''key'')]"
  by (cases "truthy (opt_prop kv ''modify_index'')";
      simp add: kv_card_crash_iff kv_card_def guard_child_def view_clicks_children event_clicks_def)

section \<open>The machine's invariant\<close>

definition savable :: "jsval \<Rightarrow> jsval \<Rightarrow> bool" where
  \<comment> \<open>a key that is not blank, and a value that is JSON if it starts like JSON\<close>
  "savable key value \<longleftrightarrow> (\<exists>k v. key = JStr k \<and> value = JStr v \<and> js_trim k \<noteq> []
     \<and> (starts_with (js_trim v) ''{'' \<or> starts_with (js_trim v) ''['' \<longrightarrow> json_parse v \<noteq> None))"

lemma editor_save_cases:
  "editor_save e =
     (case ed_key e of
        JStr k \<Rightarrow>
          if js_trim k = [] then Inr (e\<lparr>ed_error := ''Key is required''\<rparr>, None)
          else if savable (ed_key e) (ed_value e) then Inr (e, Some (ed_key e, ed_value e))
          else Inr (e\<lparr>ed_error := ''Invalid JSON format''\<rparr>, None)
      | _ \<Rightarrow> Inl TypeError)"
proof (cases "ed_key e")
  case (JStr k)
  show ?thesis
  proof (cases "ed_value e")
    case v: (JStr v)
    show ?thesis
      by (auto simp: editor_save_def JStr v as_string_def looks_like_json_def savable_def JSON_parse_def
          split: option.splits)
  qed (auto simp: editor_save_def JStr as_string_def looks_like_json_def savable_def)
qed (simp_all add: editor_save_def as_string_def)

fun mutation_ok :: "kv_mutation \<Rightarrow> bool" where
  "mutation_ok (Set_KV key value) = savable key value"
| "mutation_ok (Delete_KV key) = True"

definition kv_ok :: "kv_page \<Rightarrow> bool" where
  "kv_ok s \<longleftrightarrow> (kp_open s \<longleftrightarrow> kp_editor s \<noteq> None) \<and> (\<not> kp_open s \<longrightarrow> kp_selected s = JNull)
     \<and> list_all mutation_ok (kp_pending s)"

lemma commit_ok [inv_intros]:
  "list_all mutation_ok (kp_pending s) \<Longrightarrow> (\<not> kp_open s \<longrightarrow> kp_selected s = JNull) \<Longrightarrow> kv_ok (commit s)"
  by (simp add: kv_ok_def commit_def)

lemma kv_handle_ok: "kv_ok s \<Longrightarrow> kv_ok (kv_handle confirm a s)"
proof (induction confirm a s rule: kv_handle.induct)
  case (8 confirm s)
  show ?case
  proof (cases "kp_editor s")
    case (Some e)
    show ?thesis
      using "8" Some
      by (auto simp: editor_save_cases kv_ok_def commit_def close_editor_def handleSave_def split: jsval.split)
  qed (use "8" in simp)
qed (auto simp: kv_ok_def commit_def handleCreate_def handleEdit_def handleDelete_def in_editor_def close_editor_def)

lemma settle_ok: "kv_ok s \<Longrightarrow> kv_ok (fst (settle srv i (s, w)))"
  by (auto simp: settle_def kv_ok_def commit_def on_success_def Let_def list_all_iff
      split: prod.split sum.split kv_mutation.split dest: in_set_takeD in_set_dropD)

interpretation kv: invariant_system "\<lambda>sw. fst sw = kv_page_init" "kv_step confirm srv" "\<lambda>sw. kv_ok (fst sw)"
  for confirm and srv :: "'s server"
proof unfold_locales
  show "kv_step confirm srv sw tw \<Longrightarrow> kv_ok (fst sw) \<Longrightarrow> kv_ok (fst tw)" for sw tw :: "kv_page \<times> 's world"
    by (induction rule: kv_step.induct) (auto simp: kv_handle_ok settle_ok, simp add: kv_ok_def)
qed (simp add: kv_ok_def kv_page_init_def)

section \<open>Properties\<close>

abbreviation yes :: "string \<Rightarrow> bool" where "yes \<equiv> \<lambda>_. True"

abbreviation kv_reach :: "(string \<Rightarrow> bool) \<Rightarrow> 's server \<Rightarrow> kv_page \<times> 's world \<Rightarrow> bool" where
  "kv_reach confirm srv \<equiv> reach (\<lambda>sw. fst sw = kv_page_init) (kv_step confirm srv)"

text \<open>
  C6: Whatever the user does and in whatever order requests settle, every write the page has
  under way has a key that is not blank and a value that parses if it starts like a JSON object
  or array; and the editor is mounted exactly while the page has it open.
\<close>

theorem kv_pending_writes_valid:
  assumes "kv_reach confirm srv (s, w)"
  shows "(\<forall>key value. Set_KV key value \<in> set (kp_pending s) \<longrightarrow> savable key value)
    \<and> (kp_open s \<longleftrightarrow> kp_editor s \<noteq> None)"
  using kv.invariant [OF assms] by (auto simp: kv_ok_def list_all_iff)

theorem kv_pending_writes_valid_witness:
  "let s = kv_handle yes Save (kv_handle yes (Type_Key ''k'') (kv_handle yes Create kv_page_init))
   in kp_pending s = [Set_KV (JStr ''k'') (JStr [])] \<and> savable (JStr ''k'') (JStr [])"
proof -
  let ?s1 = "kv_handle yes Create kv_page_init"
  let ?s2 = "kv_handle yes (Type_Key ''k'') ?s1"
  let ?s3 = "kv_handle yes Save ?s2"
  let ?w = "example_world ''new'' ()"
  have "kv_reach yes example_server (kv_page_init, ?w)" by (rule reach_init) simp
  then have "kv_reach yes example_server (?s1, ?w)" by (rule reach_step) (rule kv_user)
  then have "kv_reach yes example_server (?s2, ?w)" by (rule reach_step) (rule kv_user)
  then have r: "kv_reach yes example_server (?s3, ?w)" by (rule reach_step) (rule kv_user)
  have "\<not> is_ws (CHR ''k'')" by (simp add: is_ws_def code_def)
  then have "kp_pending ?s3 = [Set_KV (JStr ''k'') (JStr [])]"
    by (simp add: kv_page_init_def handleCreate_def commit_def editor_mount_def in_editor_def initialKey_def
        initialValue_def opt_prop_def or_else_def editor_save_def as_string_def looks_like_json_def
        js_trim_def starts_with_def handleSave_def close_editor_def)
  with kv_pending_writes_valid [OF r] show ?thesis by (simp add: Let_def)
qed

text \<open>
  With a loaded list whose pairs have text keys the page filters by key, ignoring case,
  keeping the order; an empty search keeps all; and unless a value cannot be shown, the page
  offers to edit and to delete exactly the pairs that match.
\<close>

theorem kv_list_offers:
  assumes "kp_data s = JArr kvs" and "\<forall>kv \<in> set kvs. string_pair kv" and "\<not> kp_loading s"
    and "\<not> crashes (kv_list s)"
  shows "filteredKVPairs s = Inr (JArr (filter (matching (kp_search s)) kvs))
    \<and> (kp_search s = [] \<longrightarrow> filter (matching (kp_search s)) kvs = kvs)
    \<and> view_clicks (kv_list s) =
        concat (map (\<lambda>kv. [Edit kv, Delete (opt_prop kv ''key'')]) (filter (matching (kp_search s)) kvs))"
proof -
  let ?f = "filter (matching (kp_search s)) kvs"
  have f: "filteredKVPairs s = Inr (JArr ?f)" by (rule filteredKVPairs_pairs) (use assms in auto)
  have all: "kp_search s = [] \<longrightarrow> ?f = kvs" by (simp add: matching_def to_lower_def)
  have "view_clicks (kv_list s) = concat (map (\<lambda>kv. [Edit kv, Delete (opt_prop kv ''key'')]) ?f)"
  proof (cases "?f = []")
    case True
    then show ?thesis using f assms(3)
      by (simp add: kv_list_def positive_num_def opt_prop_def view_clicks_children)
  next
    case False
    have eq: "kv_list s = el ''div'' [each ?f kv_card]"
      by (rule kv_list_pairs) (use assms False in auto)
    with assms(4) have nc: "\<forall>kv \<in> set ?f. \<not> crashes (kv_card kv)" by simp
    then have "map (\<lambda>kv. view_clicks (kv_card kv)) ?f = map (\<lambda>kv. [Edit kv, Delete (opt_prop kv ''key'')]) ?f"
      by (intro map_cong refl view_clicks_card) blast
    note cl = this
    have "\<not> crashes (each ?f kv_card)" using nc by simp
    then have "view_clicks (kv_list s) = concat (map (\<lambda>kv. view_clicks (kv_card kv)) ?f)"
      by (simp add: eq view_clicks_children view_clicks_each del: crashes_view)
    then show ?thesis unfolding cl .
  qed
  with f all show ?thesis by blast
qed

theorem kv_list_offers_witness:
  "let s = kv_page_init\<lparr>kp_data := JArr [kv_pair (JStr ''Db'') (JStr ''?''), kv_pair (JStr ''x'') (JStr ''?'')],
             kp_loading := False, kp_search := ''d''\<rparr>
   in view_clicks (kv_list s) = [Edit (kv_pair (JStr ''Db'') (JStr ''?'')), Delete (JStr ''Db'')]"
proof -
  let ?a = "kv_pair (JStr ''Db'') (JStr ''?'')" and ?b = "kv_pair (JStr ''x'') (JStr ''?'')"
  let ?s = "kv_page_init\<lparr>kp_data := JArr [?a, ?b], kp_loading := False, kp_search := ''d''\<rparr>"
  have m: "filter (matching ''d'') [?a, ?b] = [?a]"
    by code_simp
  have p: "\<forall>kv \<in> set [?a, ?b]. string_pair kv" by (simp add: string_pair_def kv_pair_def)
  obtain t where "formatValue (JStr ''?'') = JStr t" using formatValue_string by blast
  then have "\<not> crashes (kv_list ?s)"
    using kv_list_pairs [of ?s "[?a, ?b]"] p m
    by (simp add: kv_card_crash_iff) (simp add: kv_pair_def kv_page_init_def)
  from kv_list_offers [of ?s "[?a, ?b]", OF _ _ _ this] p m show ?thesis by (simp add: Let_def)
qed

lemma kv_view_object_crash:
  assumes "kp_data s = JArr kvs" and "\<forall>kv \<in> set kvs. string_pair kv" and "\<not> kp_loading s"
    and "kv \<in> set kvs" and "matching (kp_search s) kv" and "opt_prop kv ''value'' = JObj o'"
  shows "crashes (kv_view s)"
proof -
  have "filter (matching (kp_search s)) kvs \<noteq> []" using assms(4,5) by (auto simp: filter_empty_conv)
  from kv_list_pairs [OF assms(1-3) this]
  have "kv_list s = el ''div'' [each (filter (matching (kp_search s)) kvs) kv_card]" .
  moreover have "crashes (kv_card kv)" by (simp add: kv_card_crash_iff assms(6))
  ultimately have "crashes (kv_list s)" using assms(4,5) by auto
  then show ?thesis by (simp add: kv_view_def)
qed

text \<open>
  One pair with an object as its value, once loaded and not filtered away, crashes the whole
  page: the object is no string, so it is shown as it is, and it cannot be shown.
\<close>

theorem kv_object_value_crashes:
  assumes "kp_data s = JArr kvs" and "\<forall>kv \<in> set kvs. string_pair kv" and "\<not> kp_loading s"
    and "kv \<in> set kvs" and "matching (kp_search s) kv" and "opt_prop kv ''value'' = JObj o'"
  shows "crashes (kv_view s)"
  using assms by (rule kv_view_object_crash)

theorem kv_object_value_crashes_witness:
  "crashes (kv_view (kv_page_init\<lparr>kp_data := JArr [kv_pair (JStr ''a'') (JObj [(''value'', JStr ''1'')])],
      kp_loading := False\<rparr>))"
proof -
  let ?kv = "kv_pair (JStr ''a'') (JObj [(''value'', JStr ''1'')])"
  let ?s = "kv_page_init\<lparr>kp_data := JArr [?kv], kp_loading := False\<rparr>"
  show ?thesis
    by (rule kv_object_value_crashes [of ?s "[?kv]" ?kv "[(''value'', JStr ''1'')]"])
      (simp_all add: string_pair_def kv_pair_def matching_def kv_page_init_def to_lower_def)
qed

text \<open>What Edit followed by Save writes.\<close>

definition edit_and_save :: "jsval \<Rightarrow> kv_page \<Rightarrow> kv_page" where
  "edit_and_save kv s = kv_handle yes Save (kv_handle yes (Edit kv) s)"

lemma edit_and_save_pending:
  assumes "kp_editor s = None" and "js_trim k \<noteq> []" and "savable (JStr k) (formatValue (JStr v))"
  shows "kp_pending (edit_and_save (kv_pair (JStr k) (JStr v)) s)
    = kp_pending s @ [Set_KV (JStr k) (formatValue (JStr v))]"
proof -
  have "k \<noteq> []" using assms(2) by (auto simp: js_trim_def)
  then have e: "kp_editor (kv_handle yes (Edit (kv_pair (JStr k) (JStr v))) s) =
      Some \<lparr>ed_key = JStr k, ed_value = formatValue (JStr v), ed_error = []\<rparr>"
    using assms(1) by (simp add: handleEdit_def commit_def editor_mount_def initialKey_def initialValue_def
        or_else_def kv_pair_def)
  then show ?thesis using assms(2,3)
    by (simp add: edit_and_save_def editor_save_cases commit_def close_editor_def handleSave_def handleEdit_def)
qed





text \<open>
  C28: Saving closes the editor before the request is answered. If the request fails, the page is
  as if nothing had been saved: no message, no editor, the text gone. If it succeeds, the
  editor that is open at that moment is closed, whatever it holds by then.
\<close>

theorem kv_save_outcome:
  assumes "kp_editor s = Some e" and "editor_save e = Inr (e', Some (key, value))"
  shows "let t = kv_handle confirm Save s in
      kp_editor t = None \<and> kp_pending t = kp_pending s @ [Set_KV key value]
    \<and> (\<forall>u. kp_pending u = kp_pending s @ [Set_KV key value] \<longrightarrow>
        (let (u', w') = settle srv (length (kp_pending s)) (u, w) in
           (case fst (setKV srv key value w) of
              Inl err \<Rightarrow> u' = u\<lparr>kp_pending := kp_pending s\<rparr>
            | Inr x \<Rightarrow> kp_editor u' = None \<and> kp_stale u' \<and> kp_pending u' = kp_pending s)))"
proof -
  have s: "kp_editor (kv_handle confirm Save s) = None
      \<and> kp_pending (kv_handle confirm Save s) = kp_pending s @ [Set_KV key value]"
    using assms by (simp add: commit_def close_editor_def handleSave_def)
  have u: "let (u', w') = settle srv (length (kp_pending s)) (u, w) in
      (case fst (setKV srv key value w) of
         Inl err \<Rightarrow> u' = u\<lparr>kp_pending := kp_pending s\<rparr>
       | Inr x \<Rightarrow> kp_editor u' = None \<and> kp_stale u' \<and> kp_pending u' = kp_pending s)"
    if "kp_pending u = kp_pending s @ [Set_KV key value]" for u
  proof -
    obtain r w1 where "setKV srv key value w = (r, w1)" by force
    with that show ?thesis
      by (cases r) (simp_all add: settle_def run_mutation_def on_success_def commit_def)
  qed
  from s u show ?thesis by (simp add: Let_def)
qed

theorem kv_save_outcome_witness:
  "let s = kv_page_init\<lparr>kp_open := True, kp_editor := Some (editor_mount (JStr ''k'') (JStr ''?''))\<rparr>
   in kp_editor (kv_handle yes Save s) = None \<and> kp_pending (kv_handle yes Save s) = [Set_KV (JStr ''k'') (JStr ''?'')]"
proof -
  let ?e = "editor_mount (JStr ''k'') (JStr ''?'')"
  let ?s = "kv_page_init\<lparr>kp_open := True, kp_editor := Some ?e\<rparr>"
  have "js_trim ''k'' \<noteq> []" "\<not> starts_with (js_trim ''?'') ''{''" "\<not> starts_with (js_trim ''?'') ''[''" by code_simp+
  then have "editor_save ?e = Inr (?e, Some (JStr ''k'', JStr ''?''))"
    by (simp add: editor_mount_def editor_save_def as_string_def looks_like_json_def)
  from kv_save_outcome [of ?s, OF _ this, of yes example_server "example_world ''new'' ()"] show ?thesis
    by (simp add: Let_def kv_page_init_def del: kv_handle.simps)
qed

end
