(* ===== verification/Input.thy ===== *)
theory Input
  imports Json
begin

text \<open>
  What the forms of the console do with the text the user types: \<open>parseInt\<close>, and the
  comma-separated lists of the login page (pages/Login.tsx, blank entries dropped) and of the
  key page (pages/APIKeys.tsx, blank entries kept), with the texts they read back exactly.
\<close>

section \<open>Whole numbers\<close>

definition parseInt :: "string \<Rightarrow> jsval" where
  \<comment> \<open>without a radix: white space, a sign, then hexadecimal after \<open>0x\<close>, else decimal digits;
     what follows is ignored\<close>
  "parseInt s =
     (let t = dropWhile is_ws s;
          neg = starts_with t ''-'';
          u = (if neg \<or> starts_with t ''+'' then drop 1 t else t);
          hex = starts_with u ''0x'' \<or> starts_with u ''0X'';
          ds = (if hex then takeWhile (\<lambda>c. hex_val c \<noteq> None) (drop 2 u) else takeWhile is_digit u)
      in if ds = [] then JNaN
         else mk_num neg (if hex then foldl (\<lambda>n c. 16 * n + the (hex_val c)) 0 ds else digits_val ds) 0)"

lemma parseInt_nat: "n < 10 ^ 21 \<Longrightarrow> parseInt (nat_str n) = JNum (int n)"
proof -
  assume n: "n < 10 ^ 21"
  obtain c cs where s: "nat_str n = c # cs" by (cases "nat_str n") auto
  have d: "\<forall>c \<in> set (nat_str n). is_digit c" by (rule nat_str_digits)
  then have c: "is_digit c" and t: "takeWhile is_digit (nat_str n) = nat_str n" by (simp_all add: s)
  have ws: "dropWhile is_ws (nat_str n) = nat_str n"
    using c by (auto simp: s is_ws_def is_digit_def)
  have sign: "\<not> starts_with (nat_str n) ''-''" "\<not> starts_with (nat_str n) ''+''"
    using c by (auto simp: s starts_with_def is_digit_def code_def)
  have hex: "\<not> starts_with (nat_str n) ''0x''" "\<not> starts_with (nat_str n) ''0X''"
    using d by (auto simp: starts_with_iff is_digit_def code_def)
  show ?thesis by (simp add: parseInt_def ws sign hex t mk_num_int [OF n])
qed

section \<open>Comma-separated lists\<close>

definition split_trim :: "string \<Rightarrow> string list" where
  \<comment> \<open>\<open>s.split(',').map(p => p.trim())\<close>\<close>
  "split_trim s = map js_trim (split_on CHR '','' s)"

definition parse_list :: "string \<Rightarrow> string list" where
  \<comment> \<open>followed by \<open>filter(Boolean)\<close>\<close>
  "parse_list s = filter (\<lambda>w. w \<noteq> []) (split_trim s)"

definition entry :: "string \<Rightarrow> bool" where
  "entry w \<longleftrightarrow> trimmed w \<and> CHR '','' \<notin> set w"

lemma set_js_trim: "set (js_trim s) \<subseteq> set s"
  by (auto simp: js_trim_def dest!: set_dropWhileD)

lemma split_trim_entries: "w \<in> set (split_trim s) \<Longrightarrow> entry w"
  using set_js_trim split_on_pieces by (fastforce simp: split_trim_def entry_def js_trim_trimmed)

lemma parse_list_entries: "w \<in> set (parse_list s) \<Longrightarrow> entry w \<and> w \<noteq> []"
  using split_trim_entries by (auto simp: parse_list_def)

lemma js_trim_space: "js_trim (CHR '' '' # s) = js_trim s"
  by (simp add: js_trim_def is_ws_def code_def)

lemma split_on_join_space:
  "ws \<noteq> [] \<Longrightarrow> \<forall>w \<in> set ws. CHR '','' \<notin> set w \<Longrightarrow>
     split_on CHR '','' (join_with '', '' ws) = hd ws # map ((#) CHR '' '') (tl ws)"
proof (induction "'', ''" ws rule: join_with.induct)
  case (3 w v ws)
  then have ih: "split_on CHR '','' (join_with '', '' (v # ws)) = v # map ((#) CHR '' '') ws" by simp
  have "split_on CHR '','' (w @ CHR '','' # CHR '' '' # join_with '', '' (v # ws)) =
      w # split_on CHR '','' (CHR '' '' # join_with '', '' (v # ws))"
    using "3.prems" by (intro split_on_append) simp
  then show ?case by (simp add: ih)
qed (simp_all add: split_on_absent)

lemma split_trim_join:
  assumes "ws \<noteq> []" and "\<forall>w \<in> set ws. entry w"
  shows "split_trim (join_with '', '' ws) = ws"
proof -
  have "map js_trim ws = ws" using assms(2) by (intro map_idI) (simp add: entry_def js_trim_id)
  moreover have "split_trim (join_with '', '' ws) = map js_trim ws"
    using assms split_on_join_space [of ws]
    by (cases ws) (simp_all add: split_trim_def entry_def js_trim_space)
  ultimately show ?thesis by simp
qed

lemma parse_list_join: "\<forall>w \<in> set ws. entry w \<and> w \<noteq> [] \<Longrightarrow> parse_list (join_with '', '' ws) = ws"
proof (cases "ws = []")
  case True
  then show ?thesis by (simp add: parse_list_def split_trim_def js_trim_def)
next
  case False
  assume "\<forall>w \<in> set ws. entry w \<and> w \<noteq> []"
  with False show ?thesis by (simp add: parse_list_def split_trim_join)
qed

end
