(* ===== verification/Services_Page.thy ===== *)
theory Services_Page
  imports Types Input Api
begin

text \<open>
  The services page (pages/Services.tsx) and its cards (components/ServiceCard.tsx): the
  registration form with its tags, the three mutations, what is rendered, and the machine
  they form. Mutations settle as in theory KV_Page; the submit button is the one way to
  submit, and it is disabled while a registration is under way. \<open>date_text\<close> is the
  platform's \<open>toLocaleString\<close> of a date.
\<close>

section \<open>State\<close>

record service_form =
  sf_name :: string
  sf_address :: string
  sf_port :: jsval
  sf_tags :: "string list"
  sf_id :: "string option"

datatype service_mutation = Register jsval | Deregister jsval | Heartbeat jsval

record services_page =
  sp_open :: bool
  sp_form :: service_form
  sp_tag :: string
  sp_data :: jsval
  sp_loading :: bool
  sp_pending :: "service_mutation list"
  sp_stale :: bool

definition empty_form :: service_form where
  "empty_form = \<lparr>sf_name = [], sf_address = [], sf_port = JNum 8080, sf_tags = [], sf_id = None\<rparr>"

definition services_init :: services_page where
  "services_init = \<lparr>sp_open = False, sp_form = empty_form, sp_tag = [], sp_data = JUndef,
     sp_loading = True, sp_pending = [], sp_stale = False\<rparr>"

datatype service_action =
    Refetch_Services
  | Open_Form
  | Close_Form
  | Set_Name string
  | Set_Id string
  | Set_Address string
  | Set_Port string
  | Set_Tag string
  | Add_Tag
  | Remove_Tag string
  | Submit_Form
  | Send_Deregister jsval
  | Send_Heartbeat jsval

section \<open>Handlers\<close>

definition form_json :: "service_form \<Rightarrow> jsval" where
  \<comment> \<open>\<open>formData\<close> as an object; an id the user typed is its last member\<close>
  "form_json f =
     JObj ([(''name'', JStr (sf_name f)), (''address'', JStr (sf_address f)), (''port'', sf_port f),
            (''tags'', JArr (map JStr (sf_tags f))), (''metadata'', JObj [])]
           @ (case sf_id f of None \<Rightarrow> [] | Some i \<Rightarrow> [(''id'', JStr i)]))"

definition resetForm :: "services_page \<Rightarrow> services_page" where
  "resetForm s = s\<lparr>sp_form := empty_form, sp_tag := []\<rparr>"

definition handleSubmit :: "services_page \<Rightarrow> services_page" where
  "handleSubmit s = s\<lparr>sp_pending := sp_pending s @ [Register (form_json (sp_form s))]\<rparr>"

definition handleAddTag :: "services_page \<Rightarrow> services_page" where
  "handleAddTag s =
     (let tag = js_trim (sp_tag s)
      in if tag \<noteq> [] \<and> tag \<notin> set (sf_tags (sp_form s))
         then s\<lparr>sp_form := (sp_form s)\<lparr>sf_tags := sf_tags (sp_form s) @ [tag]\<rparr>, sp_tag := []\<rparr>
         else s)"

definition handleRemoveTag :: "string \<Rightarrow> services_page \<Rightarrow> services_page" where
  "handleRemoveTag tag s =
     s\<lparr>sp_form := (sp_form s)\<lparr>sf_tags := filter (\<lambda>t. t \<noteq> tag) (sf_tags (sp_form s))\<rparr>\<rparr>"

fun service_handle :: "service_action \<Rightarrow> services_page \<Rightarrow> services_page" where
  "service_handle Refetch_Services s = s\<lparr>sp_stale := True\<rparr>"
| "service_handle Open_Form s = s\<lparr>sp_open := True\<rparr>"
| "service_handle Close_Form s = s\<lparr>sp_open := False\<rparr>"
| "service_handle (Set_Name v) s = s\<lparr>sp_form := (sp_form s)\<lparr>sf_name := v\<rparr>\<rparr>"
| "service_handle (Set_Id v) s = s\<lparr>sp_form := (sp_form s)\<lparr>sf_id := Some v\<rparr>\<rparr>"
| "service_handle (Set_Address v) s = s\<lparr>sp_form := (sp_form s)\<lparr>sf_address := v\<rparr>\<rparr>"
| "service_handle (Set_Port v) s = s\<lparr>sp_form := (sp_form s)\<lparr>sf_port := parseInt v\<rparr>\<rparr>"
| "service_handle (Set_Tag v) s = s\<lparr>sp_tag := v\<rparr>"
| "service_handle Add_Tag s = handleAddTag s"
| "service_handle (Remove_Tag tag) s = handleRemoveTag tag s"
| "service_handle Submit_Form s = handleSubmit s"
| "service_handle (Send_Deregister i) s = s\<lparr>sp_pending := sp_pending s @ [Deregister i]\<rparr>"
| "service_handle (Send_Heartbeat i) s = s\<lparr>sp_pending := sp_pending s @ [Heartbeat i]\<rparr>"

fun is_register :: "service_mutation \<Rightarrow> bool" where
  "is_register (Register b) = True"
| "is_register _ = False"

definition registering :: "services_page \<Rightarrow> bool" where
  \<comment> \<open>\<open>registerMutation.isPending\<close>\<close>
  "registering s \<longleftrightarrow> list_ex is_register (sp_pending s)"

definition run_service_mutation :: "'s server \<Rightarrow> service_mutation \<Rightarrow> 's world \<Rightarrow> unit js \<times> 's world" where
  "run_service_mutation srv m w =
     (case m of
        Register body \<Rightarrow> registerService srv body w
      | Deregister i \<Rightarrow> deregisterService srv i w
      | Heartbeat i \<Rightarrow> sendHeartbeat srv i w)"

definition service_success :: "service_mutation \<Rightarrow> services_page \<Rightarrow> services_page" where
  "service_success m s =
     (case m of
        Register body \<Rightarrow> resetForm (s\<lparr>sp_stale := True, sp_open := False\<rparr>)
      | _ \<Rightarrow> s\<lparr>sp_stale := True\<rparr>)"

definition service_settle :: "'s server \<Rightarrow> nat \<Rightarrow> services_page \<times> 's world \<Rightarrow> services_page \<times> 's world" where
  "service_settle srv i sw =
     (case sw of (s, w) \<Rightarrow>
        let m = sp_pending s ! i;
            s1 = s\<lparr>sp_pending := take i (sp_pending s) @ drop (Suc i) (sp_pending s)\<rparr>
        in case run_service_mutation srv m w of
             (Inr _, w1) \<Rightarrow> (service_success m s1, w1)
           | (Inl e, w1) \<Rightarrow> (s1, w1))"

section \<open>Views\<close>

definition is_healthy :: "jsval \<Rightarrow> bool" where
  \<comment> \<open>of the status of a service\<close>
  "is_healthy status \<longleftrightarrow> status = JStr ''passing'' \<or> status = JStr ''healthy''"

definition tone :: "bool \<Rightarrow> string \<times> jsval" where
  \<comment> \<open>the colour of the class names that depend on a condition\<close>
  "tone good = (''class'', JStr (if good then ''green'' else ''red''))"

definition service_card :: "(jsval \<Rightarrow> string) \<Rightarrow> jsval \<Rightarrow> service_action view" where
  "service_card date_text service =
     (let isHealthy = is_healthy (opt_prop service ''status''); tags = opt_prop service ''tags''
      in el ''div'' [
        el ''div'' [
          el ''div'' [
            elem ''div'' [tone isHealthy] [] [elem ''Server'' [tone isHealthy] [] []],
            el ''div'' [el ''h3'' [child (opt_prop service ''name'')], el ''p'' [child (opt_prop service ''id'')]]],
          elem ''span'' [tone isHealthy] [] [child (or_else (opt_prop service ''status'') (JStr ''unknown''))]],
        el ''div'' [
          el ''div'' [el ''span'' [label ''Address:''],
            el ''span'' [child (opt_prop service ''address''), label '':'', child (opt_prop service ''port'')]],
          guard_child tags (show_if (positive_num (opt_prop tags ''length''))
            (and_then (as_array tags) (\<lambda>ts. el ''div'' [el ''span'' [label ''Tags:''],
               el ''div'' [each ts (\<lambda>tag. el ''span'' [child tag])]]))),
          guard_child (opt_prop service ''last_heartbeat'')
            (el ''div'' [el ''span'' [label ''Last Heartbeat:''],
               el ''span'' [label (date_text (opt_prop service ''last_heartbeat''))]])],
        el ''div'' [
          elem ''button'' [] [On_Click (Send_Heartbeat (opt_prop service ''id''))] [icon ''Heart'', label ''Heartbeat''],
          elem ''button'' [] [On_Click (Send_Deregister (opt_prop service ''id''))] [icon ''Trash2'', label ''Remove'']]])"

definition service_grid :: "(jsval \<Rightarrow> string) \<Rightarrow> services_page \<Rightarrow> service_action view" where
  "service_grid date_text s =
     (if sp_loading s then skeleton 3
      else if truthy (sp_data s) \<and> positive_num (opt_prop (sp_data s) ''length'')
           then and_then (as_array (sp_data s)) (\<lambda>services.
                  el ''div'' [each services (\<lambda>service.
                    and_then (get_prop service ''id'') (\<lambda>_. service_card date_text service))])
      else el ''div'' [el ''p'' [label ''No services registered yet''],
             el ''p'' [label ''Click \"Register Service\" to add your first service'']])"

definition tag_input_view :: "services_page \<Rightarrow> service_action view" where
  "tag_input_view s =
     el ''div'' [
       el ''label'' [label ''Tags''],
       el ''div'' [
         elem ''input'' [(''type'', JStr ''text''), (''value'', JStr (sp_tag s)), (''placeholder'', JStr ''Add a tag'')]
           [On_Change Set_Tag, On_Key (\<lambda>k. if k = ''Enter'' then Some Add_Tag else None)] [],
         elem ''button'' [(''type'', JStr ''button'')] [On_Click Add_Tag] [label ''Add'']],
       show_if (sf_tags (sp_form s) \<noteq> []) (el ''div'' (map (\<lambda>tag.
         el ''span'' [label tag,
           elem ''button'' [(''type'', JStr ''button'')] [On_Click (Remove_Tag tag)] [icon ''X'']])
         (sf_tags (sp_form s))))]"

definition form_field :: "string \<Rightarrow> string \<Rightarrow> bool \<Rightarrow> jsval \<Rightarrow> string \<Rightarrow> (string \<Rightarrow> service_action) \<Rightarrow> service_action view" where
  "form_field text type required value placeholder change =
     el ''div'' [el ''label'' [label text],
       elem ''input'' [(''type'', JStr type), (''required'', JBool required), (''value'', value),
                       (''placeholder'', JStr placeholder)] [On_Change change] []]"

definition form_modal :: "services_page \<Rightarrow> service_action view" where
  "form_modal s =
     (let f = sp_form s in
      el ''div'' [el ''div'' [
        el ''div'' [el ''h2'' [label ''Register New Service''], elem ''button'' [] [On_Click Close_Form] [icon ''X'']],
        elem ''form'' [] [On_Submit Submit_Form] [
          el ''div'' [
            form_field ''Service Name *'' ''text'' True (JStr (sf_name f)) ''my-service'' Set_Name,
            form_field ''Service ID'' ''text'' False (JStr (case sf_id f of None \<Rightarrow> [] | Some i \<Rightarrow> i)) ''auto-generated'' Set_Id,
            form_field ''Address *'' ''text'' True (JStr (sf_address f)) ''localhost'' Set_Address,
            form_field ''Port *'' ''number'' True (sf_port f) ''8080'' Set_Port],
          tag_input_view s,
          el ''div'' [
            elem ''button'' [(''type'', JStr ''button'')] [On_Click Close_Form] [label ''Cancel''],
            elem ''button'' [(''type'', JStr ''submit''), (''disabled'', JBool (registering s))] []
              [label (if registering s then ''Registering...'' else ''Register Service'')]]]]])"

definition services_view :: "(jsval \<Rightarrow> string) \<Rightarrow> services_page \<Rightarrow> service_action view" where
  "services_view date_text s =
     el ''div'' [
       el ''div'' [
         el ''div'' [el ''h1'' [label ''Services''], el ''p'' [label ''Manage registered services'']],
         el ''div'' [
           elem ''button'' [] [On_Click Refetch_Services] [icon ''RefreshCw'', label ''Refresh''],
           elem ''button'' [] [On_Click Open_Form] [icon ''Plus'', label ''Register Service'']]],
       service_grid date_text s,
       show_if (sp_open s) (form_modal s)]"

section \<open>The machine\<close>

inductive service_step :: "'s server \<Rightarrow> services_page \<times> 's world \<Rightarrow> services_page \<times> 's world \<Rightarrow> bool"
  for srv where
  sv_user: "(a = Submit_Form \<Longrightarrow> \<not> registering s) \<Longrightarrow> service_step srv (s, w) (service_handle a s, w)"
| sv_settle: "i < length (sp_pending s) \<Longrightarrow> service_step srv (s, w) (service_settle srv i (s, w))"
| sv_fetch: "getServices srv w = (r, w') \<Longrightarrow> service_step srv (s, w)
    (s\<lparr>sp_data := (case r of Inr v \<Rightarrow> v | Inl e \<Rightarrow> sp_data s), sp_loading := False, sp_stale := False\<rparr>, w')"

inductive_cases service_step_cases: "service_step srv sw sw'"

section \<open>The machine's invariant\<close>

definition tags_ok :: "string list \<Rightarrow> bool" where
  "tags_ok ts \<longleftrightarrow> distinct ts \<and> (\<forall>t \<in> set ts. trimmed t \<and> t \<noteq> [])"

fun register_ok :: "service_mutation \<Rightarrow> bool" where
  "register_ok (Register b) \<longleftrightarrow> (\<exists>f. tags_ok (sf_tags f) \<and> is_number (sf_port f) \<and> b = form_json f)"
| "register_ok _ \<longleftrightarrow> True"

definition services_ok :: "services_page \<Rightarrow> bool" where
  "services_ok s \<longleftrightarrow> tags_ok (sf_tags (sp_form s)) \<and> is_number (sf_port (sp_form s)) \<and> list_all register_ok (sp_pending s)
     \<and> length (filter is_register (sp_pending s)) \<le> 1"

lemma not_registering: "\<not> registering s \<longleftrightarrow> filter is_register (sp_pending s) = []"
  by (auto simp: registering_def list_ex_iff filter_empty_conv)

lemma tags_ok_add: "tags_ok ts \<Longrightarrow> js_trim t \<noteq> [] \<Longrightarrow> js_trim t \<notin> set ts \<Longrightarrow> tags_ok (ts @ [js_trim t])"
  by (auto simp: tags_ok_def js_trim_trimmed)

lemma tags_ok_filter: "tags_ok ts \<Longrightarrow> tags_ok (filter P ts)"
  by (auto simp: tags_ok_def)

lemma parseInt_number: "is_number (parseInt t)"
  by (auto simp: parseInt_def mk_num_def Let_def split: prod.split)

lemma form_json_typed: "is_number (sf_port f) \<Longrightarrow> is_RegisterServiceRequest (form_json f)"
  by (auto simp: is_RegisterServiceRequest_def form_json_def is_object_def optional_def list_all_iff opt_prop_def split: option.split)

lemma service_handle_ok:
  "services_ok s \<Longrightarrow> (a = Submit_Form \<Longrightarrow> \<not> registering s) \<Longrightarrow> services_ok (service_handle a s)"
  by (cases a) (auto simp: services_ok_def handleAddTag_def handleRemoveTag_def handleSubmit_def Let_def
      tags_ok_add tags_ok_filter not_registering parseInt_number)

lemma filter_take_drop:
  "length (filter P (take i xs @ drop (Suc i) xs)) \<le> length (filter P xs)"
proof (cases "i < length xs")
  case True
  then have "xs = take i xs @ xs ! i # drop (Suc i) xs" by (rule id_take_nth_drop)
  then have "length (filter P xs) = length (filter P (take i xs @ xs ! i # drop (Suc i) xs))" by simp
  then show ?thesis by simp
qed simp

lemma service_settle_ok: "services_ok s \<Longrightarrow> services_ok (fst (service_settle srv i (s, w)))"
proof -
  assume ok: "services_ok s"
  let ?s1 = "s\<lparr>sp_pending := take i (sp_pending s) @ drop (Suc i) (sp_pending s)\<rparr>"
  have "list_all register_ok (take i (sp_pending s) @ drop (Suc i) (sp_pending s))"
    using ok by (auto simp: services_ok_def list_all_iff dest: in_set_takeD in_set_dropD)
  with ok order_trans [OF filter_take_drop [of is_register i "sp_pending s"]] have "services_ok ?s1"
    by (simp add: services_ok_def)
  moreover have "services_ok (service_success m t)" if "services_ok t" for m t
    using that by (auto simp: service_success_def resetForm_def services_ok_def empty_form_def tags_ok_def
        split: service_mutation.split)
  ultimately show ?thesis
    by (auto simp: service_settle_def Let_def split: prod.split sum.split)
qed

interpretation services: invariant_system "\<lambda>sw. fst sw = services_init" "service_step srv" "\<lambda>sw. services_ok (fst sw)"
  for srv :: "'s server"
proof unfold_locales
  show "service_step srv sw tw \<Longrightarrow> services_ok (fst sw) \<Longrightarrow> services_ok (fst tw)" for sw tw :: "services_page \<times> 's world"
    by (induction rule: service_step.induct) (auto simp: service_handle_ok service_settle_ok, simp add: services_ok_def)
qed (simp add: services_ok_def services_init_def empty_form_def tags_ok_def)

section \<open>What the page shows\<close>

lemma opt_prop_get_prop: "get_prop v k = Inr x \<Longrightarrow> opt_prop v k = x"
  by (simp add: opt_prop_def)


lemma view_clicks_and_then:
  "(\<And>x. m = Inr x \<Longrightarrow> view_clicks (f x) = []) \<Longrightarrow> view_clicks (and_then m f) = []"
  by (cases m) auto

lemma service_card_clicks:
  assumes "\<not> crashes (service_card date_text sv)"
  shows "view_clicks (service_card date_text sv) =
    [Send_Heartbeat (opt_prop sv ''id''), Send_Deregister (opt_prop sv ''id'')]"
proof -
  let ?tags = "opt_prop sv ''tags''"
  let ?t = "guard_child ?tags (show_if (positive_num (opt_prop ?tags ''length''))
            (and_then (as_array ?tags) (\<lambda>ts. el ''div'' [el ''span'' [label ''Tags:''],
               el ''div'' [each ts (\<lambda>tag. el ''span'' [child tag])]]))) :: service_action view"
  let ?h = "guard_child (opt_prop sv ''last_heartbeat'')
            (el ''div'' [el ''span'' [label ''Last Heartbeat:''],
               el ''span'' [label (date_text (opt_prop sv ''last_heartbeat''))]]) :: service_action view"
  have e: "view_clicks (each ts (\<lambda>tag. el ''span'' [child tag]) :: service_action view) = []" for ts
  proof (cases "crashes (each ts (\<lambda>tag. el ''span'' [child tag]) :: service_action view)")
    case True
    then show ?thesis by (auto simp: crashes_def)
  next
    case False
    then show ?thesis by (simp add: view_clicks_each del: crashes_view)
  qed
  have c: "view_clicks (children [el ''span'' [label t], el ''div'' [v]] :: service_action view) = []"
    if "view_clicks v = []" for v t
    using that by (cases v) (simp_all add: children_def el_def label_def view_clicks_def)
  have t: "view_clicks ?t = []"
    by (auto simp: guard_child_def intro!: view_clicks_and_then c e)
  have h: "view_clicks ?h = []" by (auto simp: guard_child_def view_clicks_children)
  from assms show ?thesis
    unfolding service_card_def Let_def
    by (simp add: view_clicks_children event_clicks_def t h)
qed

lemma service_card_typed: "is_Service sv \<Longrightarrow> \<not> crashes (service_card date_text sv)"
  by (auto simp: is_Service_def service_card_def Let_def or_else_def as_array_def list_of_iff list_all_iff)

lemma services_view_typed:
  assumes "list_of is_Service (sp_data s)"
  shows "\<not> crashes (services_view date_text s)"
proof -
  obtain svs where svs: "sp_data s = JArr svs" "\<forall>sv \<in> set svs. is_Service sv"
    using assms by (auto simp: list_of_iff list_all_iff)
  then have "\<not> crashes (service_grid date_text s)"
    using service_card_typed by (auto simp: service_grid_def as_array_def is_Service_def is_object_iff)
  then show ?thesis
    by (simp add: services_view_def form_modal_def Let_def form_field_def tag_input_view_def)
qed

section \<open>Properties\<close>

abbreviation services_reach :: "'s server \<Rightarrow> services_page \<times> 's world \<Rightarrow> bool" where
  "services_reach srv \<equiv> reach (\<lambda>sw. fst sw = services_init) (service_step srv)"

text \<open>
  C22: Whatever the user types and in whatever order requests settle, the form's tags and the
  tags of every registration under way are distinct, trimmed and not empty, and at most one
  registration is under way.
\<close>

theorem services_tags_clean:
  assumes "services_reach srv (s, w)"
  shows "tags_ok (sf_tags (sp_form s)) \<and> length (filter is_register (sp_pending s)) \<le> 1
    \<and> (\<forall>b. Register b \<in> set (sp_pending s) \<longrightarrow>
        is_RegisterServiceRequest b \<and> (\<exists>ts. opt_prop b ''tags'' = JArr (map JStr ts) \<and> tags_ok ts))"
proof -
  have "services_ok s" using services.invariant [OF assms] by simp
  moreover have "opt_prop (form_json f) ''tags'' = JArr (map JStr (sf_tags f))" for f
    by (simp add: form_json_def opt_prop_def)
  ultimately show ?thesis by (fastforce simp: services_ok_def list_all_iff dest: form_json_typed)
qed

theorem services_tags_clean_witness:
  "let s = service_handle Add_Tag (service_handle (Set_Tag '' a '') services_init)
   in sf_tags (sp_form s) = [''a''] \<and> tags_ok (sf_tags (sp_form s))"
proof -
  let ?s1 = "service_handle (Set_Tag '' a '') services_init"
  let ?s2 = "service_handle Add_Tag ?s1"
  let ?w = "example_world ''new'' ()"
  have "services_reach example_server (services_init, ?w)" by (rule reach_init) simp
  then have "services_reach example_server (?s1, ?w)" by (rule reach_step) (rule sv_user, simp)
  then have "services_reach example_server (?s2, ?w)" by (rule reach_step) (rule sv_user, simp)
  moreover have "js_trim '' a '' = ''a''" by code_simp
  ultimately show ?thesis using services_tags_clean [of example_server ?s2 ?w]
    by (simp add: Let_def handleAddTag_def services_init_def empty_form_def)
qed

text \<open>
  Adding a tag that is new after trimming appends it and clears the input, and removing it
  gives the form back as it was; a blank or repeated tag changes nothing.
\<close>

theorem services_tag_roundtrip:
  "(if js_trim (sp_tag s) \<noteq> [] \<and> js_trim (sp_tag s) \<notin> set (sf_tags (sp_form s))
    then sf_tags (sp_form (handleAddTag s)) = sf_tags (sp_form s) @ [js_trim (sp_tag s)]
      \<and> sp_tag (handleAddTag s) = []
      \<and> handleRemoveTag (js_trim (sp_tag s)) (handleAddTag s) = s\<lparr>sp_tag := []\<rparr>
    else handleAddTag s = s)"
proof (cases "js_trim (sp_tag s) \<noteq> [] \<and> js_trim (sp_tag s) \<notin> set (sf_tags (sp_form s))")
  case True
  then have "filter (\<lambda>t. t \<noteq> js_trim (sp_tag s)) (sf_tags (sp_form s)) = sf_tags (sp_form s)"
    by (auto simp: filter_id_conv)
  with True show ?thesis by (simp add: handleAddTag_def handleRemoveTag_def)
qed (auto simp: handleAddTag_def)

text \<open>
  A registration that fails leaves the page as it was, the form and its window included; one
  that succeeds closes the window, empties the form and asks for the services again.
\<close>

theorem services_register_outcome:
  assumes "i < length (sp_pending s)" and "sp_pending s ! i = Register b"
  shows "let (s', w') = service_settle srv i (s, w); rest = take i (sp_pending s) @ drop (Suc i) (sp_pending s) in
    (case fst (registerService srv b w) of
       Inl e \<Rightarrow> s' = s\<lparr>sp_pending := rest\<rparr>
     | Inr x \<Rightarrow> s' = s\<lparr>sp_pending := rest, sp_open := False, sp_form := empty_form, sp_tag := [], sp_stale := True\<rparr>)"
proof -
  obtain r w1 where "registerService srv b w = (r, w1)" by force
  with assms show ?thesis
    by (cases r) (simp_all add: service_settle_def run_service_mutation_def service_success_def resetForm_def)
qed

theorem services_register_outcome_witness:
  "let s = services_init\<lparr>sp_pending := [Register JNull], sp_open := True\<rparr>
   in sp_open (fst (service_settle (\<lambda>rq s. (None, s)) 0 (s, example_world ''new'' ())))"
proof -
  let ?srv = "\<lambda>rq (s :: unit). (None :: response option, s)"
  let ?s = "services_init\<lparr>sp_pending := [Register JNull], sp_open := True\<rparr>"
  have "api_put ?srv ''/register'' JNull (example_world ''new'' ()) = (Inl (RequestFailed None), example_world ''new'' ())"
    unfolding api_put_def by (rule api_request_plain) (simp_all add: example_defs refreshable_def)
  then have "fst (registerService ?srv JNull (example_world ''new'' ())) = Inl (RequestFailed None)"
    by (simp add: registerService_def void_def)
  with services_register_outcome [of 0 ?s JNull ?srv "example_world ''new'' ()"] show ?thesis
    by (auto simp: Let_def split: prod.splits)
qed

text \<open>Each listed service has its two buttons.\<close>

lemma services_buttons:
  assumes "sp_data s = JArr svs" and "\<not> sp_loading s" and "\<not> crashes (service_grid date_text s)"
  shows "view_clicks (service_grid date_text s) =
    concat (map (\<lambda>sv. [Send_Heartbeat (opt_prop sv ''id''), Send_Deregister (opt_prop sv ''id'')]) svs)"
proof (cases "svs = []")
  case True
  with assms show ?thesis
    by (simp add: service_grid_def positive_num_def opt_prop_def view_clicks_children)
next
  case False
  let ?f = "\<lambda>sv. and_then (get_prop sv ''id'') (\<lambda>_. service_card date_text sv)"
  have eq: "service_grid date_text s = el ''div'' [each svs ?f]"
    using assms(1,2) False by (simp add: service_grid_def positive_num_def opt_prop_def as_array_def)
  with assms(3) have nc: "\<forall>sv \<in> set svs. \<not> crashes (?f sv)" by simp
  have "view_clicks (?f sv) = [Send_Heartbeat (opt_prop sv ''id''), Send_Deregister (opt_prop sv ''id'')]"
    if "sv \<in> set svs" for sv
  proof -
    from nc that have "\<not> crashes (?f sv)" by blast
    then show ?thesis by (cases "get_prop sv ''id''") (auto simp: service_card_clicks)
  qed
  then have m: "map (\<lambda>sv. view_clicks (?f sv)) svs =
      map (\<lambda>sv. [Send_Heartbeat (opt_prop sv ''id''), Send_Deregister (opt_prop sv ''id'')]) svs"
    by (intro map_cong refl) blast
  have "\<not> crashes (each svs ?f)" using nc by simp
  then have "view_clicks (service_grid date_text s) = concat (map (\<lambda>sv. view_clicks (?f sv)) svs)"
    by (simp add: eq view_clicks_each del: crashes_view)
  then show ?thesis unfolding m .
qed

text \<open>A service that came without an id is removed under the name \<open>undefined\<close>.\<close>

lemma services_remove_without_id:
  assumes "opt_prop sv ''id'' = JUndef"
    and "sp_pending s ! i = Deregister (opt_prop sv ''id'')"
  shows "\<exists>a l. request_log (snd (service_settle (logged srv) i (s, w))) = request_log w @ a # l
    \<and> rq_method a = ''DELETE'' \<and> rq_url a = ''/deregister/undefined''"
proof -
  let ?c = "mk_request ''DELETE'' ''/deregister/undefined'' JUndef"
  obtain r w1 where a: "api_request (logged srv) ?c w = (r, w1)" by force
  have "snd (service_settle (logged srv) i (s, w)) = w1"
    using assms a
    by (cases r) (simp_all add: service_settle_def run_service_mutation_def deregisterService_def void_def api_delete_def)
  moreover obtain a l where "request_log w1 = request_log w @ a # l" "same_request ?c a"
    using api_request_first [OF a] by blast
  ultimately show ?thesis by (auto simp: same_request_def mk_request_def)
qed

end
