(* ===== verification/Auth.thy ===== *)
theory Auth
  imports Api
begin

text \<open>
  The session of the console (web/admin/src/contexts/AuthContext.tsx): the state of
  \<open>AuthProvider\<close>, the load on mount, \<open>login\<close>, \<open>logout\<close> and \<open>refreshAccessToken\<close>. The
  fields hold JavaScript values because what the server and the storage deliver is not
  checked by the code. A throw inside the mount effect is the \<open>Inl\<close> of \<open>mount_auth\<close>.
  The session machine at the end composes these with calls of the HTTP client, which share
  the storage but not the state of the provider.
\<close>

record auth_state =
  au_user :: jsval
  au_token :: jsval
  au_refresh :: jsval
  au_loading :: bool

definition auth_init :: auth_state where
  "auth_init = \<lparr>au_user = JNull, au_token = JNull, au_refresh = JNull, au_loading = True\<rparr>"

definition is_authenticated :: "auth_state \<Rightarrow> bool" where
  "is_authenticated a \<longleftrightarrow> truthy (au_token a) \<and> truthy (au_user a)"

definition mount_auth :: "storage \<Rightarrow> auth_state \<Rightarrow> auth_state js" where
  "mount_auth st a =
     (let storedToken = get_item st token_key;
          storedRefreshToken = get_item st refresh_key;
          storedUser = get_item st user_key
      in if truthy storedToken \<and> truthy storedUser
         then and_then (JSON_parse storedUser) (\<lambda>user.
                return (a\<lparr>au_token := storedToken, au_refresh := storedRefreshToken,
                         au_user := user, au_loading := False\<rparr>))
         else return (a\<lparr>au_loading := False\<rparr>))"

definition user_data :: "string \<Rightarrow> string \<Rightarrow> string list \<Rightarrow> string list \<Rightarrow> jsval" where
  \<comment> \<open>also the body of the login request\<close>
  "user_data username userId roles policies =
     JObj [(''user_id'', JStr userId), (''username'', JStr username),
           (''roles'', JArr (map JStr roles)), (''policies'', JArr (map JStr policies))]"

definition login ::
  "'s server \<Rightarrow> string \<Rightarrow> string \<Rightarrow> string list \<Rightarrow> string list \<Rightarrow> auth_state \<times> 's world
    \<Rightarrow> unit js \<times> auth_state \<times> 's world" where
  "login srv username userId roles policies aw =
     (case aw of (a, w) \<Rightarrow>
        let userData = user_data username userId roles policies
        in case authApi_post srv ''/auth/login'' userData w of
             (Inl e, w1) \<Rightarrow> (throw e, a, w1)
           | (Inr resp, w1) \<Rightarrow>
               (case token_pair resp of
                  Inl e \<Rightarrow> (throw e, a, w1)
                | Inr (accessToken, newRefreshToken) \<Rightarrow>
                    (return (),
                     a\<lparr>au_token := accessToken, au_refresh := newRefreshToken, au_user := userData\<rparr>,
                     w1\<lparr>w_store := set_item user_key (JStr (json_stringify userData))
                          (store_tokens accessToken newRefreshToken (w_store w1))\<rparr>)))"

definition logout :: "auth_state \<times> 's world \<Rightarrow> auth_state \<times> 's world" where
  "logout aw =
     (case aw of (a, w) \<Rightarrow>
        (a\<lparr>au_token := JNull, au_refresh := JNull, au_user := JNull\<rparr>,
         w\<lparr>w_store := clear_storage (w_store w)\<rparr>))"

definition refreshAccessToken :: "'s server \<Rightarrow> auth_state \<times> 's world \<Rightarrow> auth_state \<times> 's world" where
  "refreshAccessToken srv aw =
     (case aw of (a, w) \<Rightarrow>
        if \<not> truthy (au_refresh a) \<or> \<not> truthy (au_user a) then logout (a, w)
        else case refresh_body (au_refresh a) (au_user a) of
          Inl e \<Rightarrow> logout (a, w)
        | Inr body \<Rightarrow>
            (case authApi_post srv ''/auth/refresh'' body w of
               (Inl e, w1) \<Rightarrow> logout (a, w1)
             | (Inr resp, w1) \<Rightarrow>
                 (case token_pair resp of
                    Inl e \<Rightarrow> logout (a, w1)
                  | Inr (newAccessToken, newRefreshToken) \<Rightarrow>
                      (a\<lparr>au_token := newAccessToken, au_refresh := newRefreshToken\<rparr>,
                       w1\<lparr>w_store := store_tokens newAccessToken newRefreshToken (w_store w1)\<rparr>))))"

section \<open>Login survives a reload\<close>

lemma user_data_ok: "json_ok (user_data u i rs ps)"
proof -
  have "obj_of [(''user_id'', a), (''username'', b), (''roles'', c), (''policies'', d)]
      = [(''user_id'', a), (''username'', b), (''roles'', c), (''policies'', d)]" for a b c d
    by (simp add: obj_of_def obj_put_def index_key_def is_digit_def code_def)
  then show ?thesis by (simp add: user_data_def list_all_iff)
qed

lemma truthy_user_data [simp]: "truthy (user_data u i rs ps)"
  by (simp add: user_data_def)

lemma json_stringify_nonempty: "json_ok v \<Longrightarrow> json_stringify v \<noteq> []"
  using show_val_Cons [of v False 0] by (auto simp: json_stringify_def json_clean_ok)

lemma login_result:
  assumes "login srv u i rs ps (a, w) = (Inr x, a', w')"
  obtains t r where "a' = a\<lparr>au_token := t, au_refresh := r, au_user := user_data u i rs ps\<rparr>"
    and "w_store w' = (store_tokens t r (w_store w))(user_key \<mapsto> json_stringify (user_data u i rs ps))"
    and "w_location w' = w_location w"
  using assms
  by (auto simp: login_def Let_def authApi_post_def set_item_def
      dest!: send_frame split: sum.splits prod.splits)

lemma login_failure:
  assumes "login srv u i rs ps (a, w) = (Inl e, a', w')"
  shows "a' = a \<and> w_store w' = w_store w \<and> w_location w' = w_location w"
  using assms
  by (auto simp: login_def Let_def authApi_post_def dest!: send_frame split: sum.splits prod.splits)

lemma mount_stored_user:
  assumes "st token_key = Some t" and "t \<noteq> []" and "st user_key = Some (json_stringify v)"
    and "json_ok v"
  shows "mount_auth st a =
    Inr (a\<lparr>au_token := JStr t, au_refresh := get_item st refresh_key, au_user := v, au_loading := False\<rparr>)"
  using assms
  by (simp add: mount_auth_def Let_def get_item_def JSON_parse_stringify json_stringify_nonempty)

lemma logout_facts:
  "logout (a, w) = (a', w') \<Longrightarrow> \<not> is_authenticated a'"
  "logout (a, w) = (a', w') \<Longrightarrow> w_store w' = clear_storage (w_store w)"
  by (auto simp: logout_def is_authenticated_def)

lemma refreshAccessToken_cases:
  assumes "refreshAccessToken srv (a, w) = (a', w')"
  shows "(\<exists>w1. w_store w1 = w_store w \<and> (a', w') = logout (a, w1))
    \<or> (\<exists>t r w1. a' = a\<lparr>au_token := t, au_refresh := r\<rparr> \<and> w' = w1\<lparr>w_store := store_tokens t r (w_store w)\<rparr>)"
proof (cases "\<not> truthy (au_refresh a) \<or> \<not> truthy (au_user a)")
  case True
  with assms show ?thesis by (auto simp: refreshAccessToken_def)
next
  case active: False
  show ?thesis
  proof (cases "refresh_body (au_refresh a) (au_user a)")
    case (Inl e)
    with assms active show ?thesis by (auto simp: refreshAccessToken_def)
  next
    case (Inr body)
    obtain r w1 where s: "authApi_post srv ''/auth/refresh'' body w = (r, w1)" by force
    then have w1: "w_store w1 = w_store w" by (auto simp: authApi_post_def dest: send_frame)
    show ?thesis
    proof (cases "and_then r token_pair")
      case (Inl e)
      with assms active \<open>refresh_body _ _ = _\<close> s have "(a', w') = logout (a, w1)"
        by (cases r) (auto simp: refreshAccessToken_def)
      with w1 show ?thesis by blast
    next
      case (Inr p)
      with assms active \<open>refresh_body _ _ = _\<close> s w1 show ?thesis
        by (cases p; cases r) (auto simp: refreshAccessToken_def)
    qed
  qed
qed

section \<open>The session machine\<close>

inductive session_step :: "'s server \<Rightarrow> auth_state \<times> 's world \<Rightarrow> auth_state \<times> 's world \<Rightarrow> bool"
  for srv where
  step_login: "login srv u i rs ps aw = (r, aw') \<Longrightarrow> session_step srv aw aw'"
| step_logout: "session_step srv aw (logout aw)"
| step_refresh: "session_step srv aw (refreshAccessToken srv aw)"
| step_api: "api_request srv cfg w = (r, w') \<Longrightarrow> session_step srv (a, w) (a, w')"
| step_load: "mount_auth (w_store w) auth_init = Inr a' \<Longrightarrow>
    session_step srv (a, w) (a', w\<lparr>w_location := None\<rparr>)"

inductive_cases session_step_cases: "session_step srv aw aw'"

definition session_init :: "auth_state \<times> 's world \<Rightarrow> bool" where
  \<comment> \<open>a browser that has never held a session\<close>
  "session_init aw \<longleftrightarrow> fst aw = auth_init \<and> w_store (snd aw) token_key = None
     \<and> w_store (snd aw) refresh_key = None \<and> w_store (snd aw) user_key = None"

definition stored_user :: "storage \<Rightarrow> jsval option" where
  \<comment> \<open>the user the storage holds, if it holds one that parses\<close>
  "stored_user st = (case st user_key of None \<Rightarrow> None | Some s \<Rightarrow> json_parse s)"

definition session_ok :: "auth_state \<times> 's world \<Rightarrow> bool" where
  "session_ok aw \<longleftrightarrow>
     (w_store (snd aw) user_key \<noteq> None \<longrightarrow> stored_user (w_store (snd aw)) \<noteq> None)
     \<and> (truthy (au_user (fst aw)) \<and> w_store (snd aw) user_key \<noteq> None \<longrightarrow>
          stored_user (w_store (snd aw)) = Some (au_user (fst aw)))"

lemma stored_user_update [simp]:
  "k \<noteq> user_key \<Longrightarrow> stored_user (st(k \<mapsto> s)) = stored_user st"
  "stored_user (clear_storage st) = None"
  "stored_user (store_tokens t r st) = stored_user st"
  "json_ok v \<Longrightarrow> stored_user (st(user_key \<mapsto> json_stringify v)) = Some v"
  by (simp_all add: stored_user_def json_parse_stringify)

lemma session_ok_clear [inv_intros]:
  "w_store w' = clear_storage st \<Longrightarrow> session_ok (a, w')"
  by (simp add: session_ok_def)

lemma session_ok_frame [inv_intros]:
  "session_ok (a, w) \<Longrightarrow> w_store w' user_key = w_store w user_key \<Longrightarrow> session_ok (a, w')"
  by (simp add: session_ok_def stored_user_def)

lemma session_ok_login [inv_intros]:
  assumes "session_ok aw" and "login srv u i rs ps aw = (r, aw')"
  shows "session_ok aw'"
proof -
  obtain a w a' w' where aw: "aw = (a, w)" "aw' = (a', w')" by force
  show ?thesis
  proof (cases r)
    case (Inl e)
    with assms aw login_failure [of srv u i rs ps a w e a' w'] show ?thesis
      by (auto intro: session_ok_frame)
  next
    case (Inr x)
    with assms(2) aw have "login srv u i rs ps (a, w) = (Inr x, a', w')" by simp
    then obtain t v where a': "a' = a\<lparr>au_token := t, au_refresh := v, au_user := user_data u i rs ps\<rparr>"
      and w': "w_store w' = (store_tokens t v (w_store w))(user_key \<mapsto> json_stringify (user_data u i rs ps))"
      by (rule login_result)
    have "stored_user (w_store w') = Some (user_data u i rs ps)"
      unfolding w' by (rule stored_user_update(4) [OF user_data_ok])
    then show ?thesis by (simp add: aw session_ok_def a')
  qed
qed

lemma session_ok_logout [inv_intros]: "session_ok (logout aw)"
  by (cases aw) (simp add: logout_def session_ok_def)

lemma session_ok_refresh [inv_intros]:
  assumes "session_ok aw"
  shows "session_ok (refreshAccessToken srv aw)"
proof -
  obtain a w where aw: "aw = (a, w)" by force
  obtain a' w' where r: "refreshAccessToken srv (a, w) = (a', w')" by force
  from refreshAccessToken_cases [OF r] show ?thesis
  proof (elim disjE exE conjE)
    fix w1
    assume "(a', w') = logout (a, w1)"
    then show ?thesis using aw r session_ok_logout by metis
  next
    fix t v w1
    assume "a' = a\<lparr>au_token := t, au_refresh := v\<rparr>" "w' = w1\<lparr>w_store := store_tokens t v (w_store w)\<rparr>"
    with assms show ?thesis by (simp add: aw r session_ok_def)
  qed
qed

lemma session_ok_load [inv_intros]:
  assumes "session_ok (a, w)" and "mount_auth (w_store w) auth_init = Inr a'"
    and "w_store w' = w_store w"
  shows "session_ok (a', w')"
  using assms
  by (auto simp: mount_auth_def session_ok_def auth_init_def Let_def and_then_Inr_iff JSON_parse_def
      stored_user_def get_item_def split: if_splits option.splits)

lemma session_ok_api [inv_intros]:
  assumes "session_ok (a, w)" and "api_request srv cfg w = (r, w')"
  shows "session_ok (a, w')"
proof -
  from api_request_session [OF assms(2)] consider "w_store w' user_key = w_store w user_key"
    | "w_store w' = clear_storage (w_store w)"
    by (auto simp: tokens_replaced_def)
  then show ?thesis
  proof cases
    case 1
    with assms(1) show ?thesis by (rule session_ok_frame)
  next
    case 2
    then show ?thesis by (rule session_ok_clear)
  qed
qed

lemma session_ok_step: "session_step srv aw aw' \<Longrightarrow> session_ok aw \<Longrightarrow> session_ok aw'"
proof (induction rule: session_step.induct)
  case (step_login u i rs ps aw r aw')
  from step_login.prems step_login.hyps show ?case by (rule session_ok_login)
next
  case (step_logout aw)
  show ?case by (rule session_ok_logout)
next
  case (step_refresh aw)
  then show ?case by (rule session_ok_refresh)
next
  case (step_api cfg w r w' a)
  from step_api.prems step_api.hyps show ?case by (rule session_ok_api)
next
  case (step_load w a' a)
  from step_load.prems step_load.hyps show ?case by (rule session_ok_load) simp
qed

interpretation session: invariant_system session_init "session_step srv" session_ok for srv :: "'s server"
proof unfold_locales
  show "session_init aw \<Longrightarrow> session_ok aw" for aw :: "auth_state \<times> 's world"
    by (simp add: session_init_def session_ok_def)
qed (rule session_ok_step)

section \<open>Properties\<close>

text \<open>
  C19: A session survives a reload: after a login that succeeded with a token, loading the page
  again finds the same token, refresh token and user and is authenticated. A login that fails
  changes neither the state nor the storage.
\<close>

theorem login_survives_reload:
  assumes "login srv u i rs ps (a, w) = (r, a', w')"
  shows "(case r of
      Inl e \<Rightarrow> a' = a \<and> w_store w' = w_store w
    | Inr x \<Rightarrow> to_str (au_token a') \<noteq> [] \<longrightarrow>
        (\<exists>b. mount_auth (w_store w') auth_init = Inr b \<and> is_authenticated b \<and> \<not> au_loading b
           \<and> au_user b = au_user a' \<and> au_user b = user_data u i rs ps
           \<and> au_token b = JStr (to_str (au_token a')) \<and> au_refresh b = JStr (to_str (au_refresh a'))))"
proof (cases r)
  case (Inl e)
  with assms login_failure [of srv u i rs ps a w e a' w'] show ?thesis by simp
next
  case (Inr x)
  with assms have "login srv u i rs ps (a, w) = (Inr x, a', w')" by simp
  then obtain t v where a': "a' = a\<lparr>au_token := t, au_refresh := v, au_user := user_data u i rs ps\<rparr>"
    and w': "w_store w' = (store_tokens t v (w_store w))(user_key \<mapsto> json_stringify (user_data u i rs ps))"
    by (rule login_result)
  show ?thesis
  proof (cases "to_str t = []")
    case False
    then have "mount_auth (w_store w') auth_init =
        Inr (auth_init\<lparr>au_token := JStr (to_str t), au_refresh := get_item (w_store w') refresh_key,
               au_user := user_data u i rs ps, au_loading := False\<rparr>)"
      by (intro mount_stored_user [OF _ _ _ user_data_ok]) (simp_all add: w')
    then show ?thesis using False Inr
      by (simp add: a' is_authenticated_def w' get_item_def auth_init_def)
  qed (simp add: Inr a')
qed

theorem login_survives_reload_witness:
  "let (r, a', w') = login example_server ''ann'' ''u1'' [''admin''] [] (auth_init, example_world ''old'' ())
   in r = Inr () \<and> (\<exists>b. mount_auth (w_store w') auth_init = Inr b \<and> au_token b = JStr ''new'')"
proof -
  obtain r a' w' where l: "login example_server ''ann'' ''u1'' [''admin''] []
      (auth_init, example_world ''old'' ()) = (r, a', w')" by (metis prod_cases3)
  then have "r = Inr ()" "au_token a' = JStr ''new''"
    by (auto simp: login_def authApi_post_def send_def example_server_def mk_request_def token_pair_def Let_def)
  with login_survives_reload [OF l] show ?thesis by (auto simp: l)
qed

text \<open>
  Signing out forgets the session and nothing else: the state is signed out, the three
  session keys are gone, every other key of the storage is untouched, and the next page load
  is signed out too.
\<close>

theorem logout_forgets_session:
  "case logout (a, w) of (a', w') \<Rightarrow>
     \<not> is_authenticated a' \<and> au_refresh a' = JNull
     \<and> (\<forall>k. w_store w' k = (if k \<in> {token_key, refresh_key, user_key} then None else w_store w k))
     \<and> mount_auth (w_store w') auth_init = Inr (auth_init\<lparr>au_loading := False\<rparr>)"
  by (simp add: logout_def is_authenticated_def mount_auth_def get_item_def)

text \<open>
  C5: In every reachable state of the session (logins, logouts, refreshes and calls of the
  client in any order, page loads in between, whatever the server answers) the stored user
  parses, so that the mount effect of a page load never throws; and whenever the provider has a
  user and the storage too, they are the same.
\<close>

theorem session_reload_never_throws:
  assumes "reach session_init (session_step srv) (a, w)"
  shows "(\<exists>b. mount_auth (w_store w) c = Inr b)
    \<and> (truthy (au_user a) \<and> w_store w user_key \<noteq> None \<longrightarrow> stored_user (w_store w) = Some (au_user a))"
proof -
  have "session_ok (a, w)" using assms by (rule session.invariant)
  then show ?thesis
    by (auto simp: session_ok_def mount_auth_def Let_def JSON_parse_def stored_user_def get_item_def
        split: option.splits)
qed

theorem session_reload_never_throws_witness:
  "\<exists>w. reach session_init (session_step example_server) w
     \<and> (\<exists>b. mount_auth (w_store (snd w)) auth_init = Inr b) \<and> w_store (snd w) user_key \<noteq> None"
proof -
  let ?w = "(auth_init, \<lparr>w_store = (\<lambda>k. None), w_location = None, w_server = ()\<rparr>)"
  have i: "reach session_init (session_step example_server) ?w"
    by (rule reach_init) (simp add: session_init_def)
  obtain r a' w' where l: "login example_server ''ann'' ''u1'' [] [] ?w = (r, a', w')" by (metis prod_cases3)
  then have r: "reach session_init (session_step example_server) (a', w')"
    by (intro reach_step [OF i] step_login)
  have "w_store w' user_key \<noteq> None"
    using l by (auto simp: login_def authApi_post_def send_def example_server_def mk_request_def
        token_pair_def Let_def set_item_def)
  with r session_reload_never_throws [OF r, of auth_init] show ?thesis
    by (intro exI [of _ "(a', w')"]) simp
qed

end
