(* ===== verification/Login_Page.thy ===== *)
theory Login_Page
  imports View Input Auth
begin

text \<open>
  The login page (pages/Login.tsx): its form, the submission, which runs the \<open>login\<close> of the
  session (theory Auth), and what it renders. The submission is one function; between its
  first setters and the answer of the server the page shows \<open>login_started\<close>. Where the page
  navigates to is a result of the submission.
\<close>

record login_page =
  lp_username :: string
  lp_userId :: string
  lp_roles :: string
  lp_policies :: string
  lp_error :: string
  lp_loading :: bool

definition login_page_init :: login_page where
  "login_page_init = \<lparr>lp_username = [], lp_userId = [], lp_roles = ''admin'', lp_policies = [],
     lp_error = [], lp_loading = False\<rparr>"

datatype login_action =
    Set_Username string
  | Set_UserId string
  | Set_Roles string
  | Set_Policies string
  | Sign_In

definition login_started :: "login_page \<Rightarrow> login_page" where
  "login_started p = p\<lparr>lp_error := [], lp_loading := True\<rparr>"

definition login_message :: string where
  "login_message = ''Login failed. Please check your credentials and try again.''"

definition handleLogin ::
  "'s server \<Rightarrow> login_page \<Rightarrow> auth_state \<times> 's world \<Rightarrow> login_page \<times> (auth_state \<times> 's world) \<times> string option" where
  "handleLogin srv p aw =
     (let p1 = login_started p;
          roleList = parse_list (lp_roles p);
          policyList = parse_list (lp_policies p);
          userId = (if lp_userId p \<noteq> [] then lp_userId p else lp_username p)
      in case login srv (lp_username p) userId roleList policyList aw of
           (Inr _, aw1) \<Rightarrow> (p1\<lparr>lp_loading := False\<rparr>, aw1, Some ''/'')
         | (Inl e, aw1) \<Rightarrow> (p1\<lparr>lp_error := login_message, lp_loading := False\<rparr>, aw1, None))"

fun login_edit :: "login_action \<Rightarrow> login_page \<Rightarrow> login_page" where
  "login_edit (Set_Username v) p = p\<lparr>lp_username := v\<rparr>"
| "login_edit (Set_UserId v) p = p\<lparr>lp_userId := v\<rparr>"
| "login_edit (Set_Roles v) p = p\<lparr>lp_roles := v\<rparr>"
| "login_edit (Set_Policies v) p = p\<lparr>lp_policies := v\<rparr>"
| "login_edit Sign_In p = login_started p"

definition login_input :: "string \<Rightarrow> string option \<Rightarrow> bool \<Rightarrow> string \<Rightarrow> string \<Rightarrow> (string \<Rightarrow> login_action) \<Rightarrow> login_action view" where
  "login_input text icon_name required value placeholder change =
     el ''div'' [el ''label'' [label text],
       (let input = elem ''input'' [(''type'', JStr ''text''), (''required'', JBool required), (''value'', JStr value),
                                    (''placeholder'', JStr placeholder)] [On_Change change] []
        in case icon_name of None \<Rightarrow> input | Some i \<Rightarrow> el ''div'' [el ''div'' [icon i], input])]"

definition login_form :: "login_page \<Rightarrow> login_action view" where
  "login_form p =
     elem ''form'' [] [On_Submit Sign_In] [
       login_input ''Username'' (Some ''User'') True (lp_username p) ''Enter username'' Set_Username,
       login_input ''User ID (optional)'' (Some ''Key'') False (lp_userId p) ''Defaults to username'' Set_UserId,
       login_input ''Roles (comma-separated)'' (Some ''Shield'') True (lp_roles p) ''admin, developer'' Set_Roles,
       login_input ''Policies (comma-separated, optional)'' None False (lp_policies p) ''developer, readonly'' Set_Policies,
       show_if (lp_error p \<noteq> []) (el ''div'' [label (lp_error p)]),
       elem ''button'' [(''type'', JStr ''submit''), (''disabled'', JBool (lp_loading p))] []
         [label (if lp_loading p then ''Signing in...'' else ''Sign In'')]]"

definition login_view :: "login_page \<Rightarrow> login_action view" where
  "login_view p =
     el ''div'' [el ''div'' [
       el ''div'' [el ''div'' [icon ''Lock''], el ''h1'' [label ''Konsul Admin''],
         el ''p'' [label ''Sign in to manage your cluster'']],
       el ''div'' [login_form p,
         el ''div'' [el ''p'' [label ''This login uses Konsul's JWT authentication system. Ensure authentication is enabled on the server.'']]],
       el ''div'' [el ''p'' [label ''Development mode: Authentication may be disabled on the server'']]]]"

lemma handleLogin_cases:
  assumes "handleLogin srv p aw = (p', aw', nav)"
  obtains (ok) x where "login srv (lp_username p) (if lp_userId p \<noteq> [] then lp_userId p else lp_username p)
        (parse_list (lp_roles p)) (parse_list (lp_policies p)) aw = (Inr x, aw')"
      "p' = p\<lparr>lp_error := [], lp_loading := False\<rparr>" "nav = Some ''/''"
  | (failed) e where "login srv (lp_username p) (if lp_userId p \<noteq> [] then lp_userId p else lp_username p)
        (parse_list (lp_roles p)) (parse_list (lp_policies p)) aw = (Inl e, aw')"
      "p' = p\<lparr>lp_error := login_message, lp_loading := False\<rparr>" "nav = None"
  using assms
  by (auto simp: handleLogin_def Let_def login_started_def split: prod.splits sum.splits)

section \<open>Properties\<close>

text \<open>
  Signing in ends in one of two ways. Either the session holds the user with the roles and
  policies that were typed, the page shows no error and goes to the dashboard; or session and
  storage are as they were, the page shows the error and stays. The button is enabled again
  and the fields keep their texts in both.
\<close>

theorem sign_in_outcome:
  assumes "handleLogin srv p (a, w) = (p', (a', w'), nav)"
  shows "\<not> lp_loading p' \<and> lp_username p' = lp_username p \<and> lp_userId p' = lp_userId p
    \<and> lp_roles p' = lp_roles p \<and> lp_policies p' = lp_policies p
    \<and> (case nav of
         Some path \<Rightarrow> path = ''/'' \<and> lp_error p' = []
           \<and> au_user a' = user_data (lp_username p) (if lp_userId p = [] then lp_username p else lp_userId p)
               (parse_list (lp_roles p)) (parse_list (lp_policies p))
       | None \<Rightarrow> lp_error p' = login_message \<and> a' = a \<and> w_store w' = w_store w)"
  using assms
proof (cases rule: handleLogin_cases)
  case (ok x)
  from ok(1) have "au_user a' = user_data (lp_username p) (if lp_userId p \<noteq> [] then lp_userId p else lp_username p)
      (parse_list (lp_roles p)) (parse_list (lp_policies p))"
    by (rule login_result) simp
  with ok(2,3) show ?thesis by simp
next
  case (failed e)
  from login_failure [OF failed(1)] failed(2,3) show ?thesis by simp
qed

theorem sign_in_outcome_witness:
  "let p = login_page_init\<lparr>lp_username := ''ann'', lp_roles := ''admin, dev''\<rparr> in
   case handleLogin example_server p (auth_init, example_world ''old'' ()) of (p', (a', w'), nav) \<Rightarrow>
     nav = Some ''/'' \<and> \<not> lp_loading p' \<and> au_user a' = user_data ''ann'' ''ann'' [''admin'', ''dev''] []"
proof -
  let ?p = "login_page_init\<lparr>lp_username := ''ann'', lp_roles := ''admin, dev''\<rparr>"
  obtain p' a' w' nav where h: "handleLogin example_server ?p (auth_init, example_world ''old'' ()) = (p', (a', w'), nav)"
    by (metis prod.exhaust)
  have l: "parse_list ''admin, dev'' = [''admin'', ''dev'']" "parse_list [] = []" by code_simp+
  have "nav = Some ''/''"
    using h by (auto simp: handleLogin_def Let_def login_def authApi_post_def send_def example_server_def
        mk_request_def token_pair_def)
  with sign_in_outcome [OF h] show ?thesis
    unfolding Let_def h by (simp add: l login_page_init_def)
qed

text \<open>What the lists hold, and which texts they read back.\<close>

lemma login_lists:
  "(\<forall>w \<in> set (parse_list s). entry w \<and> w \<noteq> [])
   \<and> ((\<forall>w \<in> set ws. entry w \<and> w \<noteq> []) \<longrightarrow> parse_list (join_with '', '' ws) = ws)"
  using parse_list_entries parse_list_join by blast

end
