(* ===== verification/ApiKeys_Page.thy ===== *)
theory ApiKeys_Page
  imports View Input Auth
begin

text \<open>
  The page of the API keys (pages/APIKeys.tsx). Its requests go through \<open>fetch\<close>, without the
  interceptors of the client, and carry the token of the session's state at the time of the
  render. \<open>fetch\<close> rejects only when there is no answer; the code checks \<open>ok\<close>. The answer of
  \<open>json()\<close> is the parsed body. Mutations settle as in theory KV_Page, with the token they
  were started with. \<open>date_text\<close> is the platform's date formatting, \<open>confirm\<close> the user's
  answer; the clipboard is part of the page's state here.
\<close>

section \<open>Requests\<close>

definition fetch :: "'s server \<Rightarrow> request \<Rightarrow> 's world \<Rightarrow> response js \<times> 's world" where
  "fetch srv rq w =
     (case srv rq (w_server w) of (r, s') \<Rightarrow>
        ((case r of None \<Rightarrow> throw TypeError | Some resp \<Rightarrow> return resp), w\<lparr>w_server := s'\<rparr>))"

definition response_ok :: "response \<Rightarrow> bool" where
  "response_ok resp \<longleftrightarrow> 200 \<le> rs_status resp \<and> rs_status resp < 300"

definition key_request :: "string \<Rightarrow> string \<Rightarrow> jsval \<Rightarrow> jsval \<Rightarrow> request" where
  "key_request method url body token =
     (mk_request method url body)\<lparr>rq_auth := Some (''Bearer '' @ to_str token)\<rparr>"

definition checked :: "string \<Rightarrow> response js \<times> 's world \<Rightarrow> jsval js \<times> 's world" where
  \<comment> \<open>\<open>if (!response.ok) throw new Error(message)\<close>, then the body\<close>
  "checked message r =
     (case r of
        (Inl e, w) \<Rightarrow> (throw e, w)
      | (Inr resp, w) \<Rightarrow> (if response_ok resp then return (rs_data resp) else throw (ThrownError message), w))"

definition fetch_keys :: "'s server \<Rightarrow> jsval \<Rightarrow> 's world \<Rightarrow> jsval js \<times> 's world" where
  "fetch_keys srv token w =
     checked ''Failed to fetch API keys'' (fetch srv (key_request ''GET'' ''/auth/apikeys'' JUndef token) w)"

record key_form =
  kf_name :: string
  kf_permissions :: string
  kf_expiresIn :: string

definition empty_key_form :: key_form where
  "empty_key_form = \<lparr>kf_name = [], kf_permissions = ''read,write'', kf_expiresIn = ''31536000''\<rparr>"

definition create_body :: "key_form \<Rightarrow> jsval" where
  "create_body f = JObj [(''name'', JStr (kf_name f)),
     (''permissions'', JArr (map JStr (split_trim (kf_permissions f)))),
     (''expires_in'', parseInt (kf_expiresIn f))]"

definition create_key :: "'s server \<Rightarrow> jsval \<Rightarrow> key_form \<Rightarrow> 's world \<Rightarrow> jsval js \<times> 's world" where
  "create_key srv token f w =
     checked ''Failed to create API key''
       (fetch srv (key_request ''POST'' ''/auth/apikeys'' (JStr (json_stringify (create_body f))) token) w)"

definition delete_key :: "'s server \<Rightarrow> jsval \<Rightarrow> jsval \<Rightarrow> 's world \<Rightarrow> jsval js \<times> 's world" where
  "delete_key srv token keyId w =
     checked ''Failed to delete API key''
       (fetch srv (key_request ''DELETE'' (''/auth/apikeys/'' @ to_str keyId) JUndef token) w)"

definition revoke_key :: "'s server \<Rightarrow> jsval \<Rightarrow> jsval \<Rightarrow> 's world \<Rightarrow> jsval js \<times> 's world" where
  "revoke_key srv token keyId w =
     checked ''Failed to revoke API key''
       (fetch srv (key_request ''POST'' (''/auth/apikeys/'' @ to_str keyId @ ''/revoke'') JUndef token) w)"

section \<open>State and handlers\<close>

datatype key_mutation = Create_Key key_form | Delete_Key jsval | Revoke_Key jsval

record keys_page =
  ak_open :: bool
  ak_new :: jsval
  ak_copied :: bool
  ak_form :: key_form
  ak_data :: jsval
  ak_loading :: bool
  ak_pending :: "(jsval \<times> key_mutation) list"
  ak_stale :: bool
  ak_clipboard :: "string option"
  ak_timers :: nat

definition keys_init :: keys_page where
  "keys_init = \<lparr>ak_open = False, ak_new = JNull, ak_copied = False, ak_form = empty_key_form,
     ak_data = JUndef, ak_loading = True, ak_pending = [], ak_stale = False, ak_clipboard = None, ak_timers = 0\<rparr>"

datatype key_action =
    Open_Keys
  | Close_Keys
  | Key_Name string
  | Key_Permissions string
  | Key_Expires string
  | Create_Submit
  | Revoke_Click jsval
  | Delete_Click jsval
  | Copy_Click
  | Done_Click

definition copyToClipboard :: "jsval \<Rightarrow> keys_page \<Rightarrow> keys_page" where
  "copyToClipboard text s =
     s\<lparr>ak_clipboard := Some (to_str text), ak_copied := True, ak_timers := Suc (ak_timers s)\<rparr>"

definition copied_timeout :: "keys_page \<Rightarrow> keys_page" where
  "copied_timeout s = s\<lparr>ak_copied := False, ak_timers := ak_timers s - 1\<rparr>"

definition delete_question :: "jsval \<Rightarrow> string" where
  "delete_question key =
     ''Are you sure you want to delete '' @ [CHR 0x22] @ to_str (opt_prop key ''name'') @ [CHR 0x22] @ ''?''"

definition mutate_key :: "jsval \<Rightarrow> key_mutation \<Rightarrow> keys_page \<Rightarrow> keys_page" where
  "mutate_key token m s = s\<lparr>ak_pending := ak_pending s @ [(token, m)]\<rparr>"

fun key_handle :: "(string \<Rightarrow> bool) \<Rightarrow> jsval \<Rightarrow> key_action \<Rightarrow> keys_page \<Rightarrow> keys_page" where
  "key_handle confirm token Open_Keys s = s\<lparr>ak_open := True\<rparr>"
| "key_handle confirm token Close_Keys s = s\<lparr>ak_open := False\<rparr>"
| "key_handle confirm token (Key_Name v) s = s\<lparr>ak_form := (ak_form s)\<lparr>kf_name := v\<rparr>\<rparr>"
| "key_handle confirm token (Key_Permissions v) s = s\<lparr>ak_form := (ak_form s)\<lparr>kf_permissions := v\<rparr>\<rparr>"
| "key_handle confirm token (Key_Expires v) s = s\<lparr>ak_form := (ak_form s)\<lparr>kf_expiresIn := v\<rparr>\<rparr>"
| "key_handle confirm token Create_Submit s = mutate_key token (Create_Key (ak_form s)) s"
| "key_handle confirm token (Revoke_Click key) s = mutate_key token (Revoke_Key (opt_prop key ''id'')) s"
| "key_handle confirm token (Delete_Click key) s =
     (if confirm (delete_question key) then mutate_key token (Delete_Key (opt_prop key ''id'')) s else s)"
| "key_handle confirm token Copy_Click s =
     (if truthy (opt_prop (ak_new s) ''key'') then copyToClipboard (opt_prop (ak_new s) ''key'') s else s)"
| "key_handle confirm token Done_Click s = s\<lparr>ak_new := JNull, ak_open := False\<rparr>"

definition run_key_mutation :: "'s server \<Rightarrow> jsval \<Rightarrow> key_mutation \<Rightarrow> 's world \<Rightarrow> jsval js \<times> 's world" where
  "run_key_mutation srv token m w =
     (case m of
        Create_Key f \<Rightarrow> create_key srv token f w
      | Delete_Key i \<Rightarrow> delete_key srv token i w
      | Revoke_Key i \<Rightarrow> revoke_key srv token i w)"

definition key_success :: "key_mutation \<Rightarrow> jsval \<Rightarrow> keys_page \<Rightarrow> keys_page" where
  "key_success m data s =
     (case m of
        Create_Key f \<Rightarrow> s\<lparr>ak_stale := True, ak_new := data, ak_form := empty_key_form\<rparr>
      | _ \<Rightarrow> s\<lparr>ak_stale := True\<rparr>)"

definition key_settle :: "'s server \<Rightarrow> nat \<Rightarrow> keys_page \<times> 's world \<Rightarrow> keys_page \<times> 's world" where
  "key_settle srv i sw =
     (case sw of (s, w) \<Rightarrow>
        case ak_pending s ! i of (token, m) \<Rightarrow>
          let s1 = s\<lparr>ak_pending := take i (ak_pending s) @ drop (Suc i) (ak_pending s)\<rparr>
          in case run_key_mutation srv token m w of
               (Inr data, w1) \<Rightarrow> (key_success m data s1, w1)
             | (Inl e, w1) \<Rightarrow> (s1, w1))"

definition creating :: "keys_page \<Rightarrow> bool" where
  \<comment> \<open>\<open>createMutation.isPending\<close>\<close>
  "creating s \<longleftrightarrow> list_ex (\<lambda>(token, m). case m of Create_Key f \<Rightarrow> True | _ \<Rightarrow> False) (ak_pending s)"

section \<open>Views\<close>

definition join_js :: "jsval \<Rightarrow> string js" where
  \<comment> \<open>\<open>permissions.join(', ')\<close>\<close>
  "join_js v = and_then (as_array v) (\<lambda>vs.
     return (join_with '', '' (map (\<lambda>x. if x = JUndef \<or> x = JNull then [] else to_str x) vs)))"

definition on_off :: "jsval \<Rightarrow> string \<times> jsval" where
  "on_off enabled = (''class'', JStr (if truthy enabled then ''green'' else ''red''))"

definition key_card :: "(jsval \<Rightarrow> string) \<Rightarrow> jsval \<Rightarrow> key_action view" where
  "key_card date_text key =
     (let enabled = opt_prop key ''enabled'' in
      el ''div'' [el ''div'' [
        el ''div'' [
          elem ''div'' [on_off enabled] [] [elem ''Key'' [on_off enabled] [] []],
          el ''div'' [
            el ''div'' [el ''h3'' [child (opt_prop key ''name'')],
              elem ''span'' [on_off enabled] [] [label (if truthy enabled then ''Active'' else ''Revoked'')]],
            el ''div'' [
              el ''div'' [icon ''Shield'', and_then (join_js (opt_prop key ''permissions''))
                (\<lambda>ps. el ''span'' [label ''Permissions: '', label ps])],
              el ''div'' [icon ''Clock'', el ''span'' [label ''Created: '', label (date_text (opt_prop key ''created_at''))]],
              guard_child (opt_prop key ''expires_at'') (el ''div'' [icon ''Clock'',
                el ''span'' [label ''Expires: '', label (date_text (opt_prop key ''expires_at''))]]),
              el ''p'' [label ''ID: '', child (opt_prop key ''id'')]]]],
        el ''div'' [
          guard_child enabled (elem ''button'' [] [On_Click (Revoke_Click key)] [label ''Revoke'']),
          elem ''button'' [] [On_Click (Delete_Click key)] [icon ''Trash2'']]]])"

definition key_list :: "(jsval \<Rightarrow> string) \<Rightarrow> keys_page \<Rightarrow> key_action view" where
  "key_list date_text s =
     (if ak_loading s then skeleton 3
      else if truthy (ak_data s) \<and> positive_num (opt_prop (ak_data s) ''length'')
           then and_then (as_array (ak_data s)) (\<lambda>ks. el ''div'' [each ks (\<lambda>key.
                  and_then (get_prop key ''id'') (\<lambda>_. key_card date_text key))])
      else el ''div'' [icon ''Key'', el ''p'' [label ''No API keys created yet''],
             el ''p'' [label ''Click \"Create API Key\" to generate your first key'']])"

definition expiry_options :: "(string \<times> string) list" where
  "expiry_options = [(''3600'', ''1 hour''), (''86400'', ''1 day''), (''604800'', ''1 week''),
     (''2592000'', ''30 days''), (''31536000'', ''1 year'')]"

definition create_modal :: "keys_page \<Rightarrow> key_action view" where
  "create_modal s =
     (let f = ak_form s in
      el ''div'' [el ''div'' [
        el ''div'' [el ''h2'' [label ''Create New API Key''], elem ''button'' [] [On_Click Close_Keys] [icon ''X'']],
        elem ''form'' [] [On_Submit Create_Submit] [
          el ''div'' [el ''label'' [label ''Key Name *''],
            elem ''input'' [(''type'', JStr ''text''), (''required'', JBool True), (''value'', JStr (kf_name f)),
                            (''placeholder'', JStr ''production-api-key'')] [On_Change Key_Name] []],
          el ''div'' [el ''label'' [label ''Permissions (comma-separated) *''],
            elem ''input'' [(''type'', JStr ''text''), (''required'', JBool True), (''value'', JStr (kf_permissions f)),
                            (''placeholder'', JStr ''read, write'')] [On_Change Key_Permissions] []],
          el ''div'' [el ''label'' [label ''Expires In (seconds)''],
            elem ''select'' [(''value'', JStr (kf_expiresIn f))] [On_Change Key_Expires]
              (map (\<lambda>(v, t). elem ''option'' [(''value'', JStr v)] [] [label t]) expiry_options)],
          el ''div'' [
            elem ''button'' [(''type'', JStr ''button'')] [On_Click Close_Keys] [label ''Cancel''],
            elem ''button'' [(''type'', JStr ''submit''), (''disabled'', JBool (creating s))] []
              [label (if creating s then ''Creating...'' else ''Create API Key'')]]]]])"

definition detail_row :: "string \<Rightarrow> key_action view \<Rightarrow> key_action view" where
  "detail_row name v = el ''div'' [el ''span'' [label name], el ''span'' [v]]"

definition new_key_modal :: "(jsval \<Rightarrow> string) \<Rightarrow> keys_page \<Rightarrow> key_action view" where
  "new_key_modal date_text s =
     (let api_key = opt_prop (ak_new s) ''api_key'' in
      el ''div'' [el ''div'' [
        el ''div'' [el ''h2'' [label ''API Key Created Successfully!'']],
        el ''div'' [
          el ''div'' [el ''p'' [label ''Important: Save this key now!''],
            el ''p'' [label ''This is the only time you'll see the full key. Store it securely.'']],
          el ''div'' [el ''label'' [label ''API Key''],
            el ''div'' [el ''code'' [child (opt_prop (ak_new s) ''key'')],
              elem ''button'' [] [On_Click Copy_Click] [icon (if ak_copied s then ''Check'' else ''Copy'')]]],
          guard_child api_key (el ''div'' [
            detail_row ''Name'' (child (opt_prop api_key ''name'')),
            detail_row ''Permissions'' (and_then (join_js (opt_prop api_key ''permissions'')) label),
            detail_row ''Created'' (label (date_text (opt_prop api_key ''created_at'')))])],
        el ''div'' [elem ''button'' [] [On_Click Done_Click] [label ''Done'']]]])"

definition keys_view :: "(jsval \<Rightarrow> string) \<Rightarrow> keys_page \<Rightarrow> key_action view" where
  "keys_view date_text s =
     el ''div'' [
       el ''div'' [
         el ''div'' [el ''h1'' [label ''API Keys''], el ''p'' [label ''Manage authentication keys for programmatic access'']],
         elem ''button'' [] [On_Click Open_Keys] [icon ''Plus'', label ''Create API Key'']],
       key_list date_text s,
       show_if (ak_open s \<and> \<not> truthy (ak_new s)) (create_modal s),
       guard_child (ak_new s) (new_key_modal date_text s)]"

section \<open>The machine\<close>

inductive key_step :: "(string \<Rightarrow> bool) \<Rightarrow> 's server \<Rightarrow> keys_page \<times> 's world \<Rightarrow> keys_page \<times> 's world \<Rightarrow> bool"
  for confirm srv where
  ks_user: "(a = Create_Submit \<Longrightarrow> \<not> creating s) \<Longrightarrow> key_step confirm srv (s, w) (key_handle confirm token a s, w)"
| ks_settle: "i < length (ak_pending s) \<Longrightarrow> key_step confirm srv (s, w) (key_settle srv i (s, w))"
| ks_timeout: "0 < ak_timers s \<Longrightarrow> key_step confirm srv (s, w) (copied_timeout s, w)"
| ks_fetch: "truthy token \<Longrightarrow> fetch_keys srv token w = (r, w') \<Longrightarrow> key_step confirm srv (s, w)
    (s\<lparr>ak_data := (case r of Inr v \<Rightarrow> v | Inl e \<Rightarrow> ak_data s), ak_loading := False, ak_stale := False\<rparr>, w')"

inductive_cases key_step_cases: "key_step confirm srv sw sw'"

section \<open>Lemmas\<close>

definition keys_ok :: "keys_page \<Rightarrow> bool" where
  "keys_ok s \<longleftrightarrow> (ak_copied s \<longrightarrow> 0 < ak_timers s)"

lemma key_handle_ok: "keys_ok s \<Longrightarrow> keys_ok (key_handle confirm token a s)"
  by (cases a) (auto simp: keys_ok_def mutate_key_def copyToClipboard_def)

lemma key_settle_ok: "keys_ok s \<Longrightarrow> keys_ok (fst (key_settle srv i (s, w)))"
  by (auto simp: key_settle_def Let_def keys_ok_def key_success_def
      split: prod.split sum.split key_mutation.split)

interpretation keys: invariant_system "\<lambda>sw. fst sw = keys_init" "key_step confirm srv" "\<lambda>sw. keys_ok (fst sw)"
  for confirm and srv :: "'s server"
proof unfold_locales
  show "key_step confirm srv sw tw \<Longrightarrow> keys_ok (fst sw) \<Longrightarrow> keys_ok (fst tw)" for sw tw :: "keys_page \<times> 's world"
    by (induction rule: key_step.induct) (auto simp: key_handle_ok key_settle_ok, simp_all add: keys_ok_def copied_timeout_def)
qed (simp add: keys_ok_def keys_init_def)

lemma fetch_log:
  "fetch (logged srv) rq w = (r, w') \<Longrightarrow> request_log w' = request_log w @ [rq] \<and> w_store w' = w_store w"
  by (auto simp: fetch_def logged_def request_log_def split: prod.splits)

lemma checked_world: "snd (checked m r) = snd r"
  by (cases r; cases "fst r") (auto simp: checked_def)

lemma checked_error:
  "fst r = Inr resp \<Longrightarrow> \<not> response_ok resp \<Longrightarrow> fst (checked m r) = Inl (ThrownError m)"
  by (cases r) (auto simp: checked_def)

lemma create_body_ok:
  assumes "kf_expiresIn f = nat_str n" and "n < 2 ^ 53"
  shows "json_ok (create_body f)" and "parseInt (kf_expiresIn f) = JNum (int n)"
proof -
  have "n < 10 ^ 21" using assms(2) by simp
  then show p: "parseInt (kf_expiresIn f) = JNum (int n)" using assms(1) by (simp add: parseInt_nat)
  have "obj_of [(''name'', a), (''permissions'', b), (''expires_in'', c)]
      = [(''name'', a), (''permissions'', b), (''expires_in'', c)]" for a b c
    by (simp add: obj_of_def obj_put_def index_key_def is_digit_def code_def)
  then show "json_ok (create_body f)" using assms(2) p by (simp add: create_body_def list_all_iff)
qed

lemma key_card_clicks:
  assumes "\<not> crashes (key_card date_text key)"
  shows "view_clicks (key_card date_text key) =
    (if truthy (opt_prop key ''enabled'') then [Revoke_Click key, Delete_Click key] else [Delete_Click key])"
proof -
  have j: "view_clicks (and_then (join_js v) (\<lambda>ps. el ''span'' [label t, label ps]) :: key_action view) = []" for v t
    by (cases "join_js v") (simp_all add: view_clicks_children)
  have e: "view_clicks (guard_child (opt_prop key ''expires_at'') (el ''div'' [icon ''Clock'',
        el ''span'' [label ''Expires: '', label (date_text (opt_prop key ''expires_at''))]]) :: key_action view) = []"
    by (simp add: guard_child_def view_clicks_children)
  show ?thesis
    using assms unfolding key_card_def Let_def
    by (cases "truthy (opt_prop key ''enabled'')")
      (simp_all add: view_clicks_children event_clicks_def j e, simp_all add: guard_child_def event_clicks_def)
qed

section \<open>Properties\<close>

text \<open>
  Creating a key makes one request, with the given token, whose body parses to the name,
  the permissions, each trimmed, and the number of seconds of the selected option; the session
  in the storage is not touched.
\<close>

theorem create_key_request:
  assumes "kf_expiresIn f = nat_str n" and "n < 2 ^ 53"
  shows "\<exists>rq. request_log (snd (create_key (logged srv) token f w)) = request_log w @ [rq]
    \<and> rq_method rq = ''POST'' \<and> rq_url rq = ''/auth/apikeys'' \<and> rq_auth rq = Some (''Bearer '' @ to_str token)
    \<and> JSON_parse (rq_body rq) = Inr (JObj [(''name'', JStr (kf_name f)),
         (''permissions'', JArr (map JStr (split_trim (kf_permissions f)))), (''expires_in'', JNum (int n))])
    \<and> (\<forall>p \<in> set (split_trim (kf_permissions f)). entry p)
    \<and> w_store (snd (create_key (logged srv) token f w)) = w_store w"
proof -
  let ?rq = "key_request ''POST'' ''/auth/apikeys'' (JStr (json_stringify (create_body f))) token"
  obtain r w' where "fetch (logged srv) ?rq w = (r, w')" by force
  with fetch_log [OF this] have "request_log (snd (create_key (logged srv) token f w)) = request_log w @ [?rq]"
    "w_store (snd (create_key (logged srv) token f w)) = w_store w"
    by (simp_all add: create_key_def checked_world)
  moreover have "JSON_parse (rq_body ?rq) = Inr (create_body f)"
    using JSON_parse_stringify [OF create_body_ok(1) [OF assms]] by (simp add: key_request_def mk_request_def)
  ultimately show ?thesis using split_trim_entries create_body_ok(2) [OF assms]
    by (intro exI [of _ ?rq]) (simp add: key_request_def mk_request_def create_body_def)
qed

theorem create_key_request_witness:
  "\<exists>rq. request_log (snd (create_key (logged example_server) (JStr ''new'') empty_key_form (example_world ''new'' ((), []))))
      = [rq] \<and> JSON_parse (rq_body rq) = Inr (JObj [(''name'', JStr []),
         (''permissions'', JArr [JStr ''read'', JStr ''write'']), (''expires_in'', JNum 31536000)])"
proof -
  have n: "kf_expiresIn empty_key_form = nat_str 31536000"
    by (simp add: empty_key_form_def nat_str.simps digit_def char_of_def bit_simps)
  have p: "split_trim (kf_permissions empty_key_form) = [''read'', ''write'']" by code_simp
  from create_key_request [OF n, of example_server "JStr ''new''" "example_world ''new'' ((), [])"] p show ?thesis
    by (auto simp: request_log_def example_world_def empty_key_form_def)
qed

text \<open>
  A change of the keys that the server refuses, or that gets no answer, changes nothing on
  the page but that it is no longer under way; no message is shown.
\<close>

theorem key_change_refused:
  assumes "ak_pending s ! i = (token, m)"
    and "\<And>rq. case fst (fetch srv rq w) of Inl e \<Rightarrow> True | Inr resp \<Rightarrow> \<not> response_ok resp"
  shows "fst (key_settle srv i (s, w)) = s\<lparr>ak_pending := take i (ak_pending s) @ drop (Suc i) (ak_pending s)\<rparr>
    \<and> (\<exists>e. fst (run_key_mutation srv token m w) = Inl e)"
proof -
  have refused: "\<exists>e. fst (checked msg (fetch srv rq w)) = Inl e" for msg rq
    using assms(2) [of rq] by (cases "fetch srv rq w"; cases "fst (fetch srv rq w)") (auto simp: checked_def)
  have "\<exists>e. fst (run_key_mutation srv token m w) = Inl e"
    by (cases m) (simp_all add: run_key_mutation_def create_key_def delete_key_def revoke_key_def refused)
  then obtain e where e: "fst (run_key_mutation srv token m w) = Inl e" ..
  obtain r w1 where "run_key_mutation srv token m w = (r, w1)" by force
  with e assms(1) show ?thesis by (simp add: key_settle_def)
qed

theorem key_change_refused_witness:
  "fst (key_settle (\<lambda>rq s. (None, s)) 0
      (keys_init\<lparr>ak_pending := [(JStr ''t'', Delete_Key (JStr ''k''))]\<rparr>, example_world ''t'' ()))
    = keys_init\<lparr>ak_pending := []\<rparr>"
  using key_change_refused [of "keys_init\<lparr>ak_pending := [(JStr ''t'', Delete_Key (JStr ''k''))]\<rparr>" 0 "JStr ''t''"
      "Delete_Key (JStr ''k'')" "\<lambda>rq s. (None, s)" "example_world ''t'' ()"]
  by (simp add: fetch_def)

text \<open>
  While a new key is shown, its full text is on the page, and the copy button puts exactly
  that text on the clipboard; in every reachable state the mark that it was copied has a timer
  that will clear it.
\<close>

theorem new_key_shown_and_copied:
  assumes "reach (\<lambda>sw. fst sw = keys_init) (key_step confirm srv) (s, w)"
    and "opt_prop (ak_new s) ''key'' = JStr k" and "k \<noteq> []" and "\<not> crashes (keys_view date_text s)"
  shows "k \<in> set (view_texts (keys_view date_text s))
    \<and> ak_clipboard (key_handle confirm token Copy_Click s) = Some k
    \<and> (ak_copied s \<longrightarrow> 0 < ak_timers s)"
proof -
  have t: "truthy (ak_new s)" using assms(2) by (cases "ak_new s") (auto simp: opt_prop_def)
  have nc: "\<not> crashes (new_key_modal date_text s)"
    using assms(4) t by (auto simp: keys_view_def guard_child_def)
  then have "k \<in> set (view_texts (new_key_modal date_text s))"
    unfolding new_key_modal_def Let_def by (simp add: view_texts_children assms(2)) (simp add: view_texts_def)
  then have "k \<in> set (view_texts (keys_view date_text s))"
    using assms(4) t unfolding keys_view_def by (simp add: view_texts_children guard_child_def)
  moreover have "keys_ok s" using keys.invariant [OF assms(1)] by simp
  ultimately show ?thesis using assms(2,3) by (simp add: copyToClipboard_def keys_ok_def)
qed

theorem new_key_shown_and_copied_witness:
  "\<exists>s. ak_new s = JObj [(''key'', JStr ''k1'')] \<and> ''k1'' \<in> set (view_texts (keys_view to_str s))"
proof -
  let ?srv = "\<lambda>rq (s :: unit). (Some \<lparr>rs_status = 201, rs_data = JObj [(''key'', JStr ''k1'')]\<rparr>, s)"
  let ?w = "example_world ''t'' ()"
  let ?yes = "\<lambda>_ :: string. True"
  let ?s1 = "key_handle ?yes (JStr ''t'') Create_Submit keys_init"
  obtain s2 w2 where e: "key_settle ?srv 0 (?s1, ?w) = (s2, w2)" by force
  have "reach (\<lambda>sw. fst sw = keys_init) (key_step ?yes ?srv) (keys_init, ?w)" by (rule reach_init) simp
  then have "reach (\<lambda>sw. fst sw = keys_init) (key_step ?yes ?srv) (?s1, ?w)"
    by (rule reach_step) (rule ks_user, simp add: creating_def keys_init_def)
  then have "reach (\<lambda>sw. fst sw = keys_init) (key_step ?yes ?srv) (key_settle ?srv 0 (?s1, ?w))"
    by (rule reach_step) (rule ks_settle, simp add: mutate_key_def)
  then have r: "reach (\<lambda>sw. fst sw = keys_init) (key_step ?yes ?srv) (s2, w2)" unfolding e .
  have n: "ak_new s2 = JObj [(''key'', JStr ''k1'')]" and l: "ak_loading s2" and o: "ak_open s2 = False"
    using e by (auto simp add: key_settle_def keys_init_def mutate_key_def run_key_mutation_def create_key_def checked_def
        fetch_def response_ok_def key_success_def)
  have "\<not> crashes (keys_view to_str s2)"
    by (simp add: keys_view_def key_list_def l o n guard_child_def new_key_modal_def opt_prop_def skeleton_def)
  from new_key_shown_and_copied [OF r _ _ this, of "''k1''"] n show ?thesis
    by (intro exI [of _ s2]) (simp add: opt_prop_def)
qed

text \<open>
  With a loaded list of keys the page offers to delete each and to revoke exactly the
  enabled ones; an object that is no list, as a server that wraps the keys answers, shows as
  no keys at all.
\<close>

theorem key_list_offers:
  assumes "\<not> ak_loading s" and "\<not> crashes (key_list date_text s)"
  shows "(\<forall>ks. ak_data s = JArr ks \<longrightarrow> view_clicks (key_list date_text s) =
        concat (map (\<lambda>k. if truthy (opt_prop k ''enabled'') then [Revoke_Click k, Delete_Click k] else [Delete_Click k]) ks))
    \<and> (\<forall>kvs. ak_data s = JObj kvs \<and> obj_get kvs ''length'' = JUndef \<longrightarrow>
        view_clicks (key_list date_text s) = [] \<and> ''No API keys created yet'' \<in> set (view_texts (key_list date_text s)))"
proof (intro conjI allI impI)
  fix ks
  assume d: "ak_data s = JArr ks"
  show "view_clicks (key_list date_text s) =
        concat (map (\<lambda>k. if truthy (opt_prop k ''enabled'') then [Revoke_Click k, Delete_Click k] else [Delete_Click k]) ks)"
  proof (cases "ks = []")
    case True
    with d assms show ?thesis by (simp add: key_list_def positive_num_def opt_prop_def view_clicks_children)
  next
    case False
    let ?f = "\<lambda>k. and_then (get_prop k ''id'') (\<lambda>_. key_card date_text k)"
    have eq: "key_list date_text s = el ''div'' [each ks ?f]"
      using assms(1) d False by (simp add: key_list_def positive_num_def opt_prop_def as_array_def)
    with assms(2) have nc: "\<forall>k \<in> set ks. \<not> crashes (?f k)" by simp
    have "view_clicks (?f k) = (if truthy (opt_prop k ''enabled'') then [Revoke_Click k, Delete_Click k] else [Delete_Click k])"
      if "k \<in> set ks" for k
    proof -
      from nc that have "\<not> crashes (?f k)" by blast
      then show ?thesis by (cases "get_prop k ''id''") (auto simp: key_card_clicks)
    qed
    then have m: "map (\<lambda>k. view_clicks (?f k)) ks =
        map (\<lambda>k. if truthy (opt_prop k ''enabled'') then [Revoke_Click k, Delete_Click k] else [Delete_Click k]) ks"
      by (intro map_cong refl) blast
    have "\<not> crashes (each ks ?f)" using nc by simp
    then have "view_clicks (key_list date_text s) = concat (map (\<lambda>k. view_clicks (?f k)) ks)"
      by (simp add: eq view_clicks_each del: crashes_view)
    then show ?thesis unfolding m .
  qed
next
  fix kvs
  assume "ak_data s = JObj kvs \<and> obj_get kvs ''length'' = JUndef"
  with assms show "view_clicks (key_list date_text s) = []"
    "''No API keys created yet'' \<in> set (view_texts (key_list date_text s))"
    by (simp_all add: key_list_def positive_num_def opt_prop_def view_clicks_children view_texts_children)
qed

theorem key_list_offers_witness:
  "''No API keys created yet'' \<in> set (view_texts (key_list to_str
      (keys_init\<lparr>ak_data := JObj [(''keys'', JArr [JObj [(''id'', JStr ''a'')]]), (''count'', JNum 1)], ak_loading := False\<rparr>)))"
  using key_list_offers [of "keys_init\<lparr>ak_data := JObj [(''keys'', JArr [JObj [(''id'', JStr ''a'')]]), (''count'', JNum 1)],
      ak_loading := False\<rparr>" to_str]
  by (simp add: key_list_def positive_num_def opt_prop_def)

text \<open>
  C38: A refresh by the client does not reach the state of the session: the storage has the new
  token, which the client's next requests carry, but the provider keeps the old one, and the
  key page keeps sending it.
\<close>

theorem refresh_leaves_page_stale:
  assumes "send srv (request_interceptor (w_store w) cfg) w = (Inl (RequestFailed (Some 401)), w1)"
    and "\<not> rq_retry cfg" and "refresh_session srv w1 = (Inr token, w2)"
    and "to_str token \<noteq> to_str (au_token a)" and "to_str token \<noteq> []"
    and "api_request srv cfg w = (r, w')"
  shows "session_step srv (a, w) (a, w')
    \<and> bearer (w_store w') (mk_request ''GET'' ''/kv/'' JUndef) = Some (''Bearer '' @ to_str token)
    \<and> (\<forall>v. \<exists>rq. request_log (snd (fetch_keys (logged srv) (au_token a) v)) = request_log v @ [rq]
          \<and> rq_auth rq = Some (''Bearer '' @ to_str (au_token a)) \<and> rq_auth rq \<noteq> Some (''Bearer '' @ to_str token))"
proof -
  have "refreshable (Inl (RequestFailed (Some 401))) cfg" using assms(2) by (simp add: refreshable_def)
  from api_request_refresh [OF assms(1) this] assms(3,6)
  have "send srv (request_interceptor (w_store w2) ((request_interceptor (w_store w) cfg)
      \<lparr>rq_retry := True, rq_auth := Some (''Bearer '' @ to_str token)\<rparr>)) w2 = (r, w')"
    by (simp add: api_request_retry)
  with refresh_session_store [OF assms(3)] have "w_store w' token_key = Some (to_str token)"
    by (auto dest: send_frame)
  moreover have "\<exists>rq. request_log (snd (fetch_keys (logged srv) (au_token a) v)) = request_log v @ [rq]
      \<and> rq_auth rq = Some (''Bearer '' @ to_str (au_token a))" for v
  proof -
    let ?rq = "key_request ''GET'' ''/auth/apikeys'' JUndef (au_token a)"
    obtain x v' where f: "fetch (logged srv) ?rq v = (x, v')" by force
    from fetch_log [OF f] show ?thesis
      by (intro exI [of _ ?rq]) (simp add: fetch_keys_def checked_world f, simp add: key_request_def)
  qed
  ultimately show ?thesis using step_api [OF assms(6)] assms(4,5)
    by (fastforce simp: bearer_def)
qed

theorem refresh_leaves_page_stale_witness:
  "\<exists>w'. session_step example_server (auth_init\<lparr>au_token := JStr ''old''\<rparr>, example_world ''old'' ())
       (auth_init\<lparr>au_token := JStr ''old''\<rparr>, w')
     \<and> bearer (w_store w') (mk_request ''GET'' ''/kv/'' JUndef) = Some ''Bearer new''"
proof -
  let ?cfg = "mk_request ''GET'' ''/kv/a'' JUndef"
  have s: "send example_server (request_interceptor (w_store (example_world ''old'' ())) ?cfg) (example_world ''old'' ())
      = (Inl (RequestFailed (Some 401)), example_world ''old'' ())" by (simp add: example_call)
  obtain r w' where a: "api_request example_server ?cfg (example_world ''old'' ()) = (r, w')" by force
  from refresh_leaves_page_stale [OF s _ example_refresh _ _ a, of "auth_init\<lparr>au_token := JStr ''old''\<rparr>"]
  show ?thesis by (auto simp: mk_request_def)
qed

end
