(* ===== verification/Format.thy ===== *)
theory Format
  imports Prelude
begin

text \<open>
  The formatters of the dashboard and health pages (pages/Dashboard.tsx and
  pages/Health.tsx): both versions of \<open>formatUptime\<close>, and \<open>formatBytes\<close>.
  Seconds and byte counts are whole numbers; \<open>None\<close> is NaN, which is what arithmetic on
  a value that is no number gives. The float arithmetic of \<open>formatBytes\<close> is exact on the
  modelled range: dividing by a power of 1024 is exact below \<open>2 ^ 53\<close>, and the quotient of
  logarithms has the floor computed here for every byte count below \<open>1024 ^ 4\<close> (above, the
  unit read is out of range either way).
\<close>

definition num_text :: "int option \<Rightarrow> string" where
  "num_text x = (case x of None \<Rightarrow> ''NaN'' | Some n \<Rightarrow> int_str n)"

definition rem_js :: "int \<Rightarrow> int \<Rightarrow> int" where
  \<comment> \<open>the remainder operator: the sign of the dividend\<close>
  "rem_js a b = sgn a * (\<bar>a\<bar> mod \<bar>b\<bar>)"

lemma rem_js_nonneg [simp]: "0 \<le> a \<Longrightarrow> 0 < b \<Longrightarrow> rem_js a b = a mod b"
  by (cases "a = 0") (auto simp: rem_js_def)

definition positive :: "int option \<Rightarrow> bool" where
  "positive x = (case x of None \<Rightarrow> False | Some n \<Rightarrow> 0 < n)"

section \<open>Uptime\<close>

definition up_days :: "int option \<Rightarrow> int option" where
  "up_days s = map_option (\<lambda>n. n div 86400) s"

definition up_hours :: "int option \<Rightarrow> int option" where
  "up_hours s = map_option (\<lambda>n. rem_js n 86400 div 3600) s"

definition up_mins :: "int option \<Rightarrow> int option" where
  "up_mins s = map_option (\<lambda>n. rem_js n 3600 div 60) s"

definition up_secs :: "int option \<Rightarrow> int option" where
  "up_secs s = map_option (\<lambda>n. rem_js n 60) s"

definition formatUptime_dashboard :: "int option \<Rightarrow> string" where
  "formatUptime_dashboard seconds =
     (let days = up_days seconds; hours = up_hours seconds; mins = up_mins seconds
      in if positive days then num_text days @ ''d '' @ num_text hours @ ''h''
         else if positive hours then num_text hours @ ''h '' @ num_text mins @ ''m''
         else num_text mins @ ''m'')"

definition formatUptime_health :: "int option \<Rightarrow> string" where
  "formatUptime_health seconds =
     (let days = up_days seconds; hours = up_hours seconds; mins = up_mins seconds;
          secs = up_secs seconds;
          parts = [];
          parts = (if positive days then parts @ [num_text days @ ''d''] else parts);
          parts = (if positive hours then parts @ [num_text hours @ ''h''] else parts);
          parts = (if positive mins then parts @ [num_text mins @ ''m''] else parts);
          parts = (if positive secs \<or> parts = [] then parts @ [num_text secs @ ''s''] else parts)
      in join_with '' '' parts)"

lemma uptime_split:
  fixes n :: int
  assumes "0 \<le> n"
  shows "n = 86400 * (n div 86400) + 3600 * (n mod 86400 div 3600) + 60 * (n mod 3600 div 60) + n mod 60"
    and "n mod 86400 div 3600 < 24" and "n mod 3600 div 60 < 60" and "n mod 60 < 60"
proof -
  have "n mod 86400 mod 3600 = n mod 3600" "n mod 3600 mod 60 = n mod 60"
    by (simp_all add: mod_mod_cancel)
  with div_mult_mod_eq [of n 86400] div_mult_mod_eq [of "n mod 86400" 3600] div_mult_mod_eq [of "n mod 3600" 60]
  show "n = 86400 * (n div 86400) + 3600 * (n mod 86400 div 3600) + 60 * (n mod 3600 div 60) + n mod 60"
    by linarith
  show "n mod 86400 div 3600 < 24" "n mod 3600 div 60 < 60" "n mod 60 < 60"
    by (simp_all add: div_less_iff_less_mult int_div_less_self zdiv_mono1)
qed

text \<open>A reader of the health page's text: the sum of its parts, each a number and a unit.\<close>

definition unit_seconds :: "char \<Rightarrow> nat" where
  "unit_seconds u = (if u = CHR ''d'' then 86400 else if u = CHR ''h'' then 3600
     else if u = CHR ''m'' then 60 else 1)"

definition read_uptime :: "string \<Rightarrow> nat" where
  "read_uptime s = (\<Sum>p \<leftarrow> split_on CHR '' '' s. digits_val (butlast p) * unit_seconds (last p))"

lemma num_text_nonneg: "0 \<le> n \<Longrightarrow> num_text (Some n) = nat_str (nat n)"
  by (simp add: num_text_def int_str_def)

lemma nat_str_no_space: "CHR '' '' \<notin> set (nat_str n)"
  using nat_str_digits [of n] by (auto simp: is_digit_def code_def)

definition uptime_parts :: "int \<Rightarrow> int \<Rightarrow> int \<Rightarrow> int \<Rightarrow> string list" where
  "uptime_parts d h m s =
     (let ps = (if 0 < d then [nat_str (nat d) @ ''d''] else [])
          @ (if 0 < h then [nat_str (nat h) @ ''h''] else [])
          @ (if 0 < m then [nat_str (nat m) @ ''m''] else [])
      in ps @ (if 0 < s \<or> ps = [] then [nat_str (nat s) @ ''s''] else []))"

lemma formatUptime_health_parts:
  assumes "0 \<le> n"
  shows "formatUptime_health (Some n) =
    join_with '' '' (uptime_parts (n div 86400) (n mod 86400 div 3600) (n mod 3600 div 60) (n mod 60))"
proof -
  define d h m s where "d = n div 86400" and "h = n mod 86400 div 3600"
    and "m = n mod 3600 div 60" and "s = n mod 60"
  have ge: "0 \<le> d" "0 \<le> h" "0 \<le> m" "0 \<le> s"
    using assms by (simp_all add: d_def h_def m_def s_def pos_imp_zdiv_nonneg_iff)
  have f: "formatUptime_health (Some n) = join_with '' ''
     (let parts = []; parts = (if 0 < d then parts @ [num_text (Some d) @ ''d''] else parts);
          parts = (if 0 < h then parts @ [num_text (Some h) @ ''h''] else parts);
          parts = (if 0 < m then parts @ [num_text (Some m) @ ''m''] else parts);
          parts = (if 0 < s \<or> parts = [] then parts @ [num_text (Some s) @ ''s''] else parts) in parts)"
    using assms unfolding d_def h_def m_def s_def formatUptime_health_def
    by (simp only: up_days_def up_hours_def up_mins_def up_secs_def positive_def option.map
        option.case rem_js_nonneg Let_def simp_thms zero_less_numeral)
  show ?thesis
    unfolding f uptime_parts_def Let_def num_text_nonneg [OF ge(1)] num_text_nonneg [OF ge(2)]
      num_text_nonneg [OF ge(3)] num_text_nonneg [OF ge(4)] d_def [symmetric] h_def [symmetric]
      m_def [symmetric] s_def [symmetric]
    by (cases "0 < d"; cases "0 < h"; cases "0 < m"; simp)
qed

lemma uptime_parts_nonempty: "uptime_parts d h m s \<noteq> []"
  by (simp add: uptime_parts_def Let_def)

lemma uptime_parts_no_space: "\<forall>p \<in> set (uptime_parts d h m s). CHR '' '' \<notin> set p"
  by (simp add: uptime_parts_def Let_def nat_str_no_space)

lemmas uptime_parts_facts = uptime_parts_nonempty uptime_parts_no_space

lemma uptime_parts_value:
  assumes "0 \<le> d" "0 \<le> h" "0 \<le> m" "0 \<le> s"
  shows "int (\<Sum>p \<leftarrow> uptime_parts d h m s. digits_val (butlast p) * unit_seconds (last p))
    = 86400 * d + 3600 * h + 60 * m + s"
  using assms
  by (cases "0 < d"; cases "0 < h"; cases "0 < m"; cases "0 < s";
      simp add: uptime_parts_def unit_seconds_def)

lemma read_uptime_join:
  assumes "ps \<noteq> []" and "\<forall>p \<in> set ps. CHR '' '' \<notin> set p"
  shows "read_uptime (join_with '' '' ps) = (\<Sum>p \<leftarrow> ps. digits_val (butlast p) * unit_seconds (last p))"
  using split_join [OF assms] by (simp add: read_uptime_def)

lemma read_formatUptime_health:
  assumes "0 \<le> n"
  shows "int (read_uptime (formatUptime_health (Some n))) = n"
  using assms uptime_split(1) [OF assms]
  by (simp add: formatUptime_health_parts read_uptime_join uptime_parts_facts uptime_parts_value
      pos_imp_zdiv_nonneg_iff)

section \<open>Byte counts\<close>

fun log1024 :: "nat \<Rightarrow> nat" where
  "log1024 b = (if b < 1024 then 0 else Suc (log1024 (b div 1024)))"

declare log1024.simps [simp del]

lemma log1024_spec: "0 < b \<Longrightarrow> 1024 ^ log1024 b \<le> b \<and> b < 1024 ^ Suc (log1024 b)"
proof (induction b rule: log1024.induct)
  case (1 b)
  show ?case
  proof (cases "b < 1024")
    case True
    with "1.prems" show ?thesis by (simp add: log1024.simps [of b])
  next
    case False
    then have "0 < b div 1024" by (simp add: div_greater_zero_iff)
    with "1.IH" False have ih: "1024 ^ log1024 (b div 1024) \<le> b div 1024"
      "b div 1024 < 1024 ^ Suc (log1024 (b div 1024))" by auto
    from ih(1) have "1024 ^ log1024 (b div 1024) * 1024 \<le> b"
      by (simp add: less_eq_div_iff_mult_less_eq)
    moreover from ih(2) have "b < 1024 ^ Suc (log1024 (b div 1024)) * 1024"
      by (simp add: div_less_iff_less_mult)
    ultimately show ?thesis using False by (simp add: log1024.simps [of b] mult.commute)
  qed
qed

definition hundredths :: "nat \<Rightarrow> nat \<Rightarrow> nat" where
  \<comment> \<open>\<open>toFixed(2)\<close> of \<open>b / p\<close> as a count of hundredths: the nearest, the larger on a tie\<close>
  "hundredths b p = (200 * b + p) div (2 * p)"

definition fixed2 :: "nat \<Rightarrow> string" where
  "fixed2 h = nat_str (h div 100) @ ''.'' @ [digit (h div 10 mod 10), digit (h mod 10)]"

definition byte_units :: "string list" where
  "byte_units = [''B'', ''KB'', ''MB'', ''GB'']"

definition formatBytes :: "int \<Rightarrow> string" where
  \<comment> \<open>a negative count has no logarithm: every float below is NaN and the unit undefined\<close>
  "formatBytes bytes =
     (if bytes = 0 then ''0 B''
      else if bytes < 0 then ''NaN undefined''
      else let b = nat bytes; i = log1024 b
           in fixed2 (hundredths b (1024 ^ i)) @ '' ''
              @ (if i < length byte_units then byte_units ! i else ''undefined''))"

lemma hundredths_nearest:
  assumes "0 < p"
  shows "\<bar>int p * int (hundredths b p) - 100 * int b\<bar> * 2 \<le> int p"
proof -
  let ?h = "(200 * b + p) div (2 * p)"
  have "2 * p * ?h \<le> 200 * b + p" by (metis mult.commute div_times_less_eq_dividend)
  moreover have "200 * b + p < 2 * p * (?h + 1)"
    using dividend_less_times_div [of "2 * p" "200 * b + p"] assms by simp
  ultimately have "int (2 * p * ?h) \<le> int (200 * b + p)" "int (200 * b + p) < int (2 * p * (?h + 1))"
    by (simp_all only: of_nat_le_iff of_nat_less_iff)
  then have "2 * (int p * int ?h) \<le> 200 * int b + int p" "200 * int b + int p < 2 * (int p * int ?h) + 2 * int p"
    by (simp_all add: algebra_simps)
  then show ?thesis unfolding hundredths_def by (simp add: abs_if)
qed

lemma hundredths_range:
  assumes "p \<le> b" and "b < 1024 * p"
  shows "100 \<le> hundredths b p \<and> hundredths b p \<le> 102400"
proof -
  have p: "0 < p" using assms by (cases p) auto
  have "100 * (2 * p) \<le> 200 * b + p" "200 * b + p < 102401 * (2 * p)" using assms by linarith+
  then have "100 \<le> (200 * b + p) div (2 * p)" "(200 * b + p) div (2 * p) < 102401"
    using p by (simp_all only: less_eq_div_iff_mult_less_eq div_less_iff_less_mult
        mult_pos_pos zero_less_numeral)
  then show ?thesis by (simp add: hundredths_def)
qed

section \<open>Properties\<close>

text \<open>
  C39: The uptime text of the health page loses nothing: reading its parts back, each a count
  and a unit, gives the number of seconds.
\<close>

theorem uptime_text_exact:
  assumes "0 \<le> n"
  shows "int (read_uptime (formatUptime_health (Some n))) = n"
  using assms by (rule read_formatUptime_health)

theorem uptime_text_exact_witness:
  "int (read_uptime (formatUptime_health (Some 90061))) = 90061"
  using uptime_text_exact [of 90061] by simp



end
