(* ===== verification/Status_Pages.thy ===== *)
theory Status_Pages
  imports Types Format Api
begin

text \<open>
  The dashboard (pages/Dashboard.tsx), the health page (pages/Health.tsx) and their cards
  (components/StatCard.tsx). The pages keep no state of their own: they render what their
  queries hold, \<open>JUndef\<close> before the first answer. The callbacks they register with the live
  connection are here as what they do to the queries. Three functions of the platform are
  parameters: \<open>date_text\<close>, the local text of a date, and \<open>percent\<close>, the text of
  \<open>(a / b) * 100\<close> in floating point.
\<close>

section \<open>Cards\<close>

definition stat_card :: "string \<Rightarrow> jsval \<Rightarrow> string \<Rightarrow> (string \<times> bool) option \<Rightarrow> bool \<Rightarrow> 'a view" where
  "stat_card title value icon_name trend loading =
     el ''div'' [el ''div'' [
       el ''div'' [
         el ''p'' [label title],
         (if loading then el ''div'' [] else el ''p'' [child value]),
         (case trend of
            None \<Rightarrow> return []
          | Some (text, good) \<Rightarrow>
              show_if (\<not> loading)
                (elem ''p'' [(''class'', JStr (if good then ''green'' else ''red''))] [] [label text]))],
       el ''div'' [icon icon_name]]]"

section \<open>Queries and their updates\<close>

record queries =
  qs_services :: jsval
  qs_kv_list :: jsval
  qs_health :: jsval
  qs_stale :: "string list"

definition invalidate :: "string \<Rightarrow> queries \<Rightarrow> queries" where
  "invalidate k q = q\<lparr>qs_stale := qs_stale q @ [k]\<rparr>"

definition set_health :: "jsval \<Rightarrow> queries \<Rightarrow> queries" where
  \<comment> \<open>\<open>setQueryData\<close>: undefined is ignored\<close>
  "set_health v q = (if v = JUndef then q else q\<lparr>qs_health := v\<rparr>)"

definition on_service_event :: "jsval \<Rightarrow> queries \<Rightarrow> queries js" where
  "on_service_event event q = return (invalidate ''services'' q)"

definition on_kv_event :: "jsval \<Rightarrow> queries \<Rightarrow> queries js" where
  "on_kv_event event q = return (invalidate ''kv-list'' q)"

definition on_health_event :: "jsval \<Rightarrow> queries \<Rightarrow> queries js" where
  \<comment> \<open>of both pages\<close>
  "on_health_event event q = and_then (get_prop event ''data'') (\<lambda>d. return (set_health d q))"

section \<open>The dashboard\<close>

definition service_healthy :: "jsval \<Rightarrow> bool" where
  "service_healthy s \<longleftrightarrow> opt_prop s ''status'' = JStr ''passing'' \<or> opt_prop s ''status'' = JStr ''healthy''"

definition healthy_count :: "jsval \<Rightarrow> jsval js" where
  \<comment> \<open>\<open>services?.filter(...).length || 0\<close>\<close>
  "healthy_count services =
     (if services = JUndef \<or> services = JNull then return (JNum 0)
      else and_then (as_array services) (\<lambda>ss.
           and_then (map_js (\<lambda>s. get_prop s ''status'') ss) (\<lambda>_.
             return (JNum (int (length (filter service_healthy ss)))))))"

definition stats_grid :: "queries \<Rightarrow> bool \<Rightarrow> bool \<Rightarrow> bool \<Rightarrow> unit view" where
  "stats_grid q servicesLoading kvLoading healthLoading =
     and_then (healthy_count (qs_services q)) (\<lambda>n.
       el ''div'' [
         stat_card ''Total Services'' (or_else (opt_prop (qs_services q) ''length'') (JNum 0)) ''Server''
           (Some (to_str n @ '' healthy'', True)) servicesLoading,
         stat_card ''KV Keys'' (or_else (opt_prop (qs_kv_list q) ''length'') (JNum 0)) ''Database'' None kvLoading,
         stat_card ''System Status'' (or_else (opt_prop (qs_health q) ''status'') (JStr ''unknown'')) ''Activity'' None healthLoading,
         stat_card ''Uptime''
           (JStr (if truthy (opt_prop (qs_health q) ''uptime'')
                  then formatUptime_dashboard (whole_number (opt_prop (qs_health q) ''uptime'')) else ''0m''))
           ''Clock'' None healthLoading])"

definition recent_service :: "jsval \<Rightarrow> unit view" where
  "recent_service s =
     and_then (get_prop s ''id'') (\<lambda>_.
       el ''div'' [
         el ''div'' [el ''p'' [child (opt_prop s ''name'')],
           el ''p'' [child (opt_prop s ''address''), label '':'', child (opt_prop s ''port'')]],
         elem ''span'' [(''class'', JStr (if service_healthy s then ''green'' else ''red''))] []
           [child (or_else (opt_prop s ''status'') (JStr ''unknown''))]])"

definition recent_services :: "queries \<Rightarrow> bool \<Rightarrow> unit view" where
  "recent_services q servicesLoading =
     el ''div'' [el ''h2'' [label ''Recent Services''],
       (if servicesLoading then skeleton 3
        else if truthy (qs_services q) \<and> positive_num (opt_prop (qs_services q) ''length'')
             then and_then (as_array (qs_services q)) (\<lambda>ss. el ''div'' [each (take 5 ss) recent_service])
        else el ''p'' [label ''No services registered''])]"

definition info_row :: "string \<Rightarrow> unit view \<Rightarrow> unit view" where
  "info_row name v = el ''div'' [el ''span'' [label name], el ''span'' [v]]"

definition system_info :: "jsval \<Rightarrow> bool \<Rightarrow> unit view" where
  "system_info health healthLoading =
     (let sv = opt_prop health ''services''; sys = opt_prop health ''system'' in
      el ''div'' [el ''h2'' [label ''System Information''],
        (if healthLoading then skeleton 4
         else if truthy health
              then el ''div'' [
                info_row ''Status'' (child (opt_prop health ''status'')),
                info_row ''Version'' (child (or_else (opt_prop health ''version'') (JStr ''N/A''))),
                guard_child sv (info_row ''Healthy Services''
                  (children [child (opt_prop sv ''healthy''), label '' / '', child (opt_prop sv ''total'')])),
                guard_child sys (info_row ''Goroutines'' (child (opt_prop sys ''goroutines'')))]
         else el ''p'' [label ''Unable to fetch system info''])])"

definition dashboard_view :: "queries \<Rightarrow> bool \<Rightarrow> bool \<Rightarrow> bool \<Rightarrow> unit view" where
  "dashboard_view q servicesLoading kvLoading healthLoading =
     el ''div'' [
       el ''div'' [el ''h1'' [label ''Dashboard''], el ''p'' [label ''Overview of your Konsul cluster'']],
       stats_grid q servicesLoading kvLoading healthLoading,
       el ''div'' [recent_services q servicesLoading, system_info (qs_health q) healthLoading]]"

section \<open>The health page\<close>

definition bytes_text :: "jsval \<Rightarrow> string" where
  \<comment> \<open>\<open>formatBytes\<close> of an unchecked value: only the number zero is \<open>0 B\<close>\<close>
  "bytes_text v =
     (case v of
        JNum n \<Rightarrow> formatBytes n
      | _ \<Rightarrow> (case whole_number v of
                Some n \<Rightarrow> if n = 0 then ''NaN undefined'' else formatBytes n
              | None \<Rightarrow> ''NaN undefined''))"

definition health_cards :: "jsval \<Rightarrow> bool \<Rightarrow> unit view" where
  "health_cards health isLoading =
     (let sv = opt_prop health ''services'' in
      el ''div'' [
        stat_card ''Status'' (or_else (opt_prop health ''status'') (JStr ''unknown'')) ''Activity'' None isLoading,
        stat_card ''Uptime''
          (JStr (if truthy (opt_prop health ''uptime'')
                 then formatUptime_health (whole_number (opt_prop health ''uptime'')) else ''0s''))
          ''Clock'' None isLoading,
        stat_card ''Services'' (or_else (opt_prop sv ''total'') (JNum 0)) ''Zap''
          (if truthy sv then Some (to_str (opt_prop sv ''healthy'') @ '' healthy'',
                                   strict_eq (opt_prop sv ''healthy'') (opt_prop sv ''total'')) else None)
          isLoading,
        stat_card ''KV Keys'' (or_else (opt_prop (opt_prop health ''kv'') ''total_keys'') (JNum 0)) ''HardDrive'' None isLoading])"

definition bar :: "string \<Rightarrow> jsval \<Rightarrow> string \<Rightarrow> unit view" where
  "bar name v width =
     el ''div'' [el ''div'' [el ''span'' [label name], el ''span'' [child v]],
       el ''div'' [elem ''div'' [(''width'', JStr width)] [] []]]"

definition service_statistics :: "(jsval \<Rightarrow> jsval \<Rightarrow> string) \<Rightarrow> jsval \<Rightarrow> bool \<Rightarrow> unit view" where
  "service_statistics percent health isLoading =
     (let sv = opt_prop health ''services''; total = opt_prop sv ''total'';
          width = (\<lambda>v. (if positive_num total then percent v total else ''0'') @ ''%'')
      in el ''div'' [el ''div'' [el ''div'' [icon ''Zap''], el ''h2'' [label ''Service Statistics'']],
        (if isLoading then skeleton 3
         else if truthy sv
              then el ''div'' [
                bar ''Total Services'' total ''100%'',
                bar ''Healthy Services'' (opt_prop sv ''healthy'') (width (opt_prop sv ''healthy'')),
                bar ''Unhealthy Services'' (opt_prop sv ''unhealthy'') (width (opt_prop sv ''unhealthy''))]
         else el ''p'' [label ''No service data available''])])"

definition memory_row :: "jsval \<Rightarrow> string \<Rightarrow> string \<Rightarrow> unit view" where
  "memory_row sys name field =
     and_then (get_prop (opt_prop sys ''memory'') field) (\<lambda>v. info_row name (label (bytes_text v)))"

definition system_metrics :: "jsval \<Rightarrow> bool \<Rightarrow> unit view" where
  "system_metrics health isLoading =
     (let sys = opt_prop health ''system'' in
      el ''div'' [el ''div'' [el ''div'' [icon ''Cpu''], el ''h2'' [label ''System Metrics'']],
        (if isLoading then skeleton 5
         else if truthy sys
              then el ''div'' [
                info_row ''Goroutines'' (child (opt_prop sys ''goroutines'')),
                memory_row sys ''Memory Allocated'' ''alloc'',
                memory_row sys ''Total Allocated'' ''total_alloc'',
                memory_row sys ''System Memory'' ''sys'',
                memory_row sys ''Heap Allocated'' ''heap_alloc'',
                memory_row sys ''Heap System'' ''heap_sys'']
         else el ''p'' [label ''No system metrics available''])])"

definition general_information :: "(jsval \<Rightarrow> string) \<Rightarrow> jsval \<Rightarrow> bool \<Rightarrow> unit view" where
  "general_information date_text health isLoading =
     el ''div'' [el ''div'' [el ''div'' [icon ''Activity''], el ''h2'' [label ''General Information'']],
       (if isLoading then skeleton 3
        else if truthy health
             then el ''div'' [
               el ''div'' [el ''p'' [label ''Overall Status''],
                 elem ''p'' [(''class'', JStr (if opt_prop health ''status'' = JStr ''healthy'' then ''green'' else ''yellow''))] []
                   [child (opt_prop health ''status'')]],
               el ''div'' [el ''p'' [label ''Version''], el ''p'' [child (or_else (opt_prop health ''version'') (JStr ''N/A''))]],
               el ''div'' [el ''p'' [label ''Timestamp''], el ''p'' [label (date_text (opt_prop health ''timestamp''))]]]
        else el ''p'' [label ''Unable to fetch health data''])]"

definition health_view :: "(jsval \<Rightarrow> string) \<Rightarrow> (jsval \<Rightarrow> jsval \<Rightarrow> string) \<Rightarrow> jsval \<Rightarrow> bool \<Rightarrow> unit view" where
  "health_view date_text percent health isLoading =
     el ''div'' [
       el ''div'' [el ''h1'' [label ''System Health''], el ''p'' [label ''Monitor cluster health and performance metrics'']],
       health_cards health isLoading,
       el ''div'' [service_statistics percent health isLoading, system_metrics health isLoading,
         general_information date_text health isLoading]]"

section \<open>Which answers can be shown\<close>

definition plain :: "jsval \<Rightarrow> bool" where
  \<comment> \<open>neither an object nor an array\<close>
  "plain v \<longleftrightarrow> (\<forall>kvs. v \<noteq> JObj kvs) \<and> (\<forall>vs. v \<noteq> JArr vs)"

definition counts_ok :: "jsval \<Rightarrow> bool" where
  "counts_ok sv \<longleftrightarrow> plain (opt_prop sv ''total'') \<and> plain (opt_prop sv ''healthy'') \<and> plain (opt_prop sv ''unhealthy'')
     \<and> (\<forall>vs. sv \<noteq> JArr vs)"

definition system_ok :: "jsval \<Rightarrow> bool" where
  "system_ok sys \<longleftrightarrow> (\<not> truthy sys \<or> plain (opt_prop sys ''goroutines'')
       \<and> opt_prop sys ''memory'' \<noteq> JUndef \<and> opt_prop sys ''memory'' \<noteq> JNull)
     \<and> (\<forall>vs. sys \<noteq> JArr vs)"

definition health_ok :: "jsval \<Rightarrow> bool" where
  \<comment> \<open>what the type \<open>HealthResponse\<close> of the client promises, as far as the pages need it\<close>
  "health_ok h \<longleftrightarrow> plain (opt_prop h ''status'') \<and> plain (opt_prop h ''version'')
     \<and> counts_ok (opt_prop h ''services'') \<and> system_ok (opt_prop h ''system'')
     \<and> plain (opt_prop (opt_prop h ''kv'') ''total_keys'')"

lemma plain_child [simp]: "plain v \<Longrightarrow> \<not> crashes (child v)"
  by (cases v) (auto simp: plain_def)

lemma plain_simps [simp]: "plain (JStr s)" "plain (JNum n)" "plain JUndef" "plain JNull"
  "plain v \<Longrightarrow> plain w \<Longrightarrow> plain (or_else v w)"
  by (auto simp: plain_def or_else_def)

lemma plain_number: "is_number v \<Longrightarrow> plain v"
  by (cases v) (simp_all add: plain_def)

lemma opt_prop_undef: "opt_prop JUndef k = JUndef"
  by (simp add: opt_prop_def)

lemma typed_parts:
  "is_string v \<or> optional is_string v \<Longrightarrow> plain v"
  "optional is_service_counts v \<Longrightarrow> counts_ok v"
  "optional is_system v \<Longrightarrow> system_ok v"
  "optional (\<lambda>kv. is_object kv \<and> is_number (opt_prop kv p)) v \<Longrightarrow> plain (opt_prop v p)"
  by (auto simp: optional_def is_string_iff counts_ok_def is_service_counts_def system_ok_def is_system_def
      is_memory_def is_object_iff opt_prop_undef plain_number)

lemma is_HealthResponse_ok: "is_HealthResponse h \<Longrightarrow> health_ok h"
  unfolding is_HealthResponse_def health_ok_def by (blast intro: typed_parts)

lemma crashes_stat_card [simp]:
  "crashes (stat_card title value i trend loading :: 'a view) \<longleftrightarrow> \<not> loading \<and> crashes (child value :: 'a view)"
  by (auto simp: stat_card_def split: option.split)

lemma crashes_rows [simp]:
  "crashes (info_row n v) \<longleftrightarrow> crashes v"
  "crashes (bar n x width) \<longleftrightarrow> crashes (child x :: unit view)"
  "crashes (memory_row sys n f) \<longleftrightarrow> opt_prop sys ''memory'' = JUndef \<or> opt_prop sys ''memory'' = JNull"
  by (auto simp: info_row_def bar_def memory_row_def crashes_def [of "get_prop _ _"] get_prop_throws_iff)

lemma health_cards_ok: "health_ok h \<Longrightarrow> \<not> crashes (health_cards h l)"
  by (simp add: health_cards_def Let_def health_ok_def counts_ok_def)

lemma service_statistics_ok: "health_ok h \<Longrightarrow> \<not> crashes (service_statistics percent h l)"
  by (simp add: service_statistics_def Let_def health_ok_def counts_ok_def)

lemma system_metrics_ok: "health_ok h \<Longrightarrow> \<not> crashes (system_metrics h l)"
  by (auto simp: system_metrics_def Let_def health_ok_def system_ok_def)

lemma general_information_ok: "health_ok h \<Longrightarrow> \<not> crashes (general_information date_text h l)"
  by (simp add: general_information_def health_ok_def)

lemma system_info_ok: "health_ok h \<Longrightarrow> \<not> crashes (system_info h l)"
  by (auto simp: system_info_def Let_def health_ok_def counts_ok_def system_ok_def)

lemmas health_parts_ok = health_cards_ok service_statistics_ok system_metrics_ok general_information_ok system_info_ok

section \<open>Properties\<close>

definition plain_service :: "jsval \<Rightarrow> bool" where
  "plain_service s \<longleftrightarrow> s \<noteq> JUndef \<and> s \<noteq> JNull \<and> plain (opt_prop s ''name'') \<and> plain (opt_prop s ''address'')
     \<and> plain (opt_prop s ''port'') \<and> plain (opt_prop s ''status'')"

lemma is_Service_plain: "is_Service s \<Longrightarrow> plain_service s"
  by (auto simp: is_Service_def plain_service_def is_object_iff is_string_iff plain_number optional_def)

lemma get_prop_ok: "v \<noteq> JUndef \<Longrightarrow> v \<noteq> JNull \<Longrightarrow> get_prop v k = Inr (opt_prop v k)"
  by (cases v) (auto simp: opt_prop_def)

lemma recent_service_ok: "plain_service s \<Longrightarrow> \<not> crashes (recent_service s)"
  by (simp add: recent_service_def plain_service_def get_prop_ok)

lemma healthy_count_list:
  assumes "\<forall>s \<in> set ss. plain_service s"
  shows "healthy_count (JArr ss) = Inr (JNum (int (length (filter service_healthy ss))))"
proof -
  have "map_js (\<lambda>s. get_prop s ''status'') ss = Inr (map (\<lambda>s. opt_prop s ''status'') ss)"
    using assms by (induction ss) (auto simp: plain_service_def get_prop_ok)
  then show ?thesis by (simp add: healthy_count_def as_array_def)
qed

text \<open>With answers of the shape the pages need, neither crashes.\<close>

lemma health_pages_render:
  assumes "health_ok (qs_health q)" and "qs_services q = JArr ss" and "\<forall>s \<in> set ss. plain_service s"
    and "qs_kv_list q = JArr ks"
  shows "\<not> crashes (health_view date_text percent (qs_health q) l) \<and> \<not> crashes (dashboard_view q l1 l2 l3)"
proof -
  note ok = health_parts_ok [OF assms(1)]
  have "\<not> crashes (health_view date_text percent (qs_health q) l)" by (simp add: health_view_def ok)
  moreover have "\<not> crashes (stats_grid q l1 l2 l3)"
    using assms healthy_count_list [OF assms(3)]
    by (simp add: stats_grid_def health_ok_def opt_prop_def or_else_def)
  moreover have "\<not> crashes (recent_services q l1)"
    using assms(2,3) by (auto simp: recent_services_def as_array_def recent_service_ok dest: in_set_takeD)
  ultimately show ?thesis by (simp add: dashboard_view_def ok)
qed

text \<open>
  A health answer whose \<open>system\<close> part has no \<open>memory\<close>, or whose service counts hold an
  object, crashes the health page once it is loaded.
\<close>

theorem health_answer_crashes:
  assumes "truthy (opt_prop h ''system'') \<and> opt_prop (opt_prop h ''system'') ''memory'' \<in> {JUndef, JNull}
    \<or> (\<exists>kvs. opt_prop (opt_prop h ''services'') ''total'' = JObj kvs)"
  shows "crashes (health_view date_text percent h False)"
  using assms
proof
  assume "truthy (opt_prop h ''system'') \<and> opt_prop (opt_prop h ''system'') ''memory'' \<in> {JUndef, JNull}"
  then have "crashes (system_metrics h False)" by (auto simp: system_metrics_def Let_def)
  then show ?thesis by (simp add: health_view_def)
next
  assume "\<exists>kvs. opt_prop (opt_prop h ''services'') ''total'' = JObj kvs"
  then have "crashes (health_cards h False)" by (auto simp: health_cards_def Let_def or_else_def)
  then show ?thesis by (simp add: health_view_def)
qed

theorem health_answer_crashes_witness:
  "crashes (health_view to_str (\<lambda>a b. []) (JObj [(''status'', JStr ''healthy''), (''system'', JObj [(''goroutines'', JNum 7)])]) False)"
  by (rule health_answer_crashes) (simp add: opt_prop_def)

text \<open>
  An uptime that is a text, not a number of seconds, is shown as not a number on both pages.
\<close>

theorem uptime_text_is_nan:
  assumes "opt_prop h ''uptime'' = JStr t" and "t \<noteq> []" and "whole_number (JStr t) = None"
    and "\<not> crashes (health_view date_text percent h False)"
  shows "''NaNs'' \<in> set (view_texts (health_view date_text percent h False))
    \<and> formatUptime_dashboard (whole_number (opt_prop h ''uptime'')) = ''NaNm''"
proof -
  have f: "formatUptime_health None = ''NaNs''" "formatUptime_dashboard None = ''NaNm''" by code_simp+
  have nc: "\<not> crashes (health_cards h False)" using assms(4) by (simp add: health_view_def)
  let ?c = "stat_card ''Uptime'' (JStr (if truthy (opt_prop h ''uptime'')
      then formatUptime_health (whole_number (opt_prop h ''uptime'')) else ''0s'')) ''Clock'' None False :: unit view"
  have "''NaNs'' \<in> set (view_texts ?c)"
    by (simp add: assms(1,2) assms(3) [simplified] f stat_card_def view_texts_children) (simp add: view_texts_def)
  then have "''NaNs'' \<in> set (view_texts (health_cards h False))"
    unfolding health_cards_def Let_def
    by (rule view_texts_part [where v = ?c]) (use nc in \<open>simp_all add: health_cards_def Let_def\<close>)
  then have "''NaNs'' \<in> set (view_texts (health_view date_text percent h False))"
    unfolding health_view_def
    by (rule view_texts_part) (use assms(4) in \<open>simp_all add: health_view_def\<close>)
  with assms(1,3) f show ?thesis by simp
qed

theorem uptime_text_is_nan_witness:
  "''NaNs'' \<in> set (view_texts (health_view to_str (\<lambda>a b. []) (JObj [(''uptime'', JStr ''1m0s'')]) False))"
proof -
  have w: "whole_number (JStr ''1m0s'') = None" by code_simp
  have "health_ok (JObj [(''uptime'', JStr ''1m0s'')])"
    by (simp add: health_ok_def counts_ok_def system_ok_def opt_prop_def)
  then have "\<not> crashes (health_view to_str (\<lambda>a b. []) (JObj [(''uptime'', JStr ''1m0s'')]) False)"
    by (simp add: health_view_def health_parts_ok)
  from uptime_text_is_nan [OF _ _ w this] show ?thesis by (simp add: opt_prop_def)
qed

text \<open>
  The dashboard counts as healthy the services whose status is passing or healthy, and shows
  at most five of the services, the first ones.
\<close>

theorem dashboard_counts:
  assumes "qs_services q = JArr ss" and "\<forall>s \<in> set ss. plain_service s" and "qs_kv_list q = JArr ks"
    and "health_ok (qs_health q)"
  shows "int_str (int (length (filter service_healthy ss))) @ '' healthy''
      \<in> set (view_texts (dashboard_view q False l2 l3))
    \<and> (ss \<noteq> [] \<longrightarrow> recent_services q False =
        el ''div'' [el ''h2'' [label ''Recent Services''], el ''div'' [each (take 5 ss) recent_service]])"
proof -
  let ?n = "int (length (filter service_healthy ss))"
  note ok = health_parts_ok [OF assms(4)]
  have s: "\<not> crashes (stats_grid q False l2 l3)"
    using assms healthy_count_list [OF assms(2)]
    by (simp add: stats_grid_def health_ok_def opt_prop_def or_else_def)
  have r: "\<not> crashes (recent_services q False)"
    using assms(1,2) by (auto simp: recent_services_def as_array_def recent_service_ok dest: in_set_takeD)
  let ?c = "stat_card ''Total Services'' (or_else (opt_prop (qs_services q) ''length'') (JNum 0)) ''Server''
      (Some (to_str (JNum ?n) @ '' healthy'', True)) False :: unit view"
  have "plain (or_else (opt_prop (qs_services q) ''length'') (JNum 0))"
    by (simp add: assms(1) opt_prop_def or_else_def)
  then have "int_str ?n @ '' healthy'' \<in> set (view_texts ?c)"
    by (simp add: stat_card_def view_texts_children)
  then have "int_str ?n @ '' healthy'' \<in> set (view_texts (stats_grid q False l2 l3))"
    using s healthy_count_list [OF assms(2)] unfolding stats_grid_def assms(1)
    by (simp only: and_then.simps) (rule view_texts_part [where v = ?c], simp_all add: assms(1))
  then have "int_str ?n @ '' healthy'' \<in> set (view_texts (dashboard_view q False l2 l3))"
    unfolding dashboard_view_def
    by (rule view_texts_part) (use s r ok in simp_all)
  then show ?thesis using assms(1)
    by (simp add: recent_services_def as_array_def positive_num_def opt_prop_def)
qed

theorem dashboard_counts_witness:
  "''1 healthy'' \<in> set (view_texts (dashboard_view \<lparr>qs_services = JArr [JObj [(''status'', JStr ''passing'')],
      JObj [(''status'', JStr ''expired'')]], qs_kv_list = JArr [], qs_health = JUndef, qs_stale = []\<rparr> False False False))"
proof -
  let ?ss = "[JObj [(''status'', JStr ''passing'')], JObj [(''status'', JStr ''expired'')]]"
  let ?q = "\<lparr>qs_services = JArr ?ss, qs_kv_list = JArr [], qs_health = JUndef, qs_stale = []\<rparr>"
  have "length (filter service_healthy ?ss) = 1" by (simp add: service_healthy_def opt_prop_def)
  moreover have "int_str 1 = ''1''" by code_simp
  moreover have "\<forall>s \<in> set ?ss. plain_service s" by (simp add: plain_service_def opt_prop_def)
  moreover have "health_ok JUndef" by (simp add: health_ok_def counts_ok_def system_ok_def opt_prop_def)
  ultimately show ?thesis using dashboard_counts [of ?q ?ss "[]" False False] by simp
qed

end
