(* ===== verification/Live.thy ===== *)
theory Live
  imports Json
begin

text \<open>
  The live connection of the console (web/admin/src/contexts/WebSocketContext.tsx). The state
  of \<open>WebSocketProvider\<close> is modelled together with what outlives a render: the sockets that
  were opened, each with the values its handlers closed over (\<open>closure\<close>), and the reconnect
  timers still pending, which hold such values too.

  Of React the model uses the documented behaviour of hooks: a state setter changes the state
  the next render sees; a render takes a snapshot of the state; after it is committed the
  effect runs once, with the values of that snapshot, if one of its dependencies changed, and
  the cleanup of the previous run comes first. Setters run between a render and its effect are
  seen by the next render only (children run their effects before the provider). Every
  interleaving of these with socket events, timers and changes of the session is a run of
  \<open>live_step\<close>. Socket events follow the WebSocket standard: a socket is created connecting,
  a message arrives on an open socket only, \<open>close\<close> leads to a close event. A subscriber
  set is a fresh \<open>Set\<close> object after every change, told apart by its version.
\<close>

section \<open>States\<close>

datatype channel = KV | Services | Health

datatype ready_state = Connecting | Opened | Closing | Closed

fun ready_code :: "ready_state \<Rightarrow> nat" where
  \<comment> \<open>the numeric constants of the standard\<close>
  "ready_code Connecting = 0"
| "ready_code Opened = 1"
| "ready_code Closing = 2"
| "ready_code Closed = 3"

lemma ready_code_inject: "ready_code a = ready_code b \<longleftrightarrow> a = b"
  by (cases a; cases b) auto

instantiation ready_state :: linorder
begin

definition less_eq_ready_state :: "ready_state \<Rightarrow> ready_state \<Rightarrow> bool" where
  "a \<le> b \<longleftrightarrow> ready_code a \<le> ready_code b"

definition less_ready_state :: "ready_state \<Rightarrow> ready_state \<Rightarrow> bool" where
  "a < b \<longleftrightarrow> ready_code a < ready_code b"

instance
  by standard (auto simp: less_eq_ready_state_def less_ready_state_def ready_code_inject)

end

record subs =
  ss_version :: nat
  ss_members :: "nat list"

record closure =
  cl_auth :: bool
  cl_token :: jsval
  cl_kv :: subs
  cl_services :: subs
  cl_health :: subs

record socket =
  sk_url :: string
  sk_state :: ready_state
  sk_closure :: closure
  sk_sent :: "string list"

record live =
  lv_connected :: bool
  lv_ws :: "nat option"
  lv_kv :: subs
  lv_services :: subs
  lv_health :: subs
  lv_auth :: bool
  lv_token :: jsval
  lv_sockets :: "socket list"
  lv_timers :: "closure list"
  lv_rendered :: "closure \<times> nat option"
  lv_due :: bool
  lv_effect :: "(closure \<times> nat option) option"
  lv_log :: "(nat \<times> jsval) list"

record live_env =
  le_protocol :: string
  le_host :: string
  le_throws :: "nat \<Rightarrow> jsval \<Rightarrow> bool"

definition empty_subs :: subs where
  "empty_subs = \<lparr>ss_version = 0, ss_members = []\<rparr>"

definition subs_add :: "nat \<Rightarrow> subs \<Rightarrow> subs" where
  \<comment> \<open>\<open>new Set(prev).add(callback)\<close>\<close>
  "subs_add cb S = \<lparr>ss_version = Suc (ss_version S),
     ss_members = (if cb \<in> set (ss_members S) then ss_members S else ss_members S @ [cb])\<rparr>"

definition subs_delete :: "nat \<Rightarrow> subs \<Rightarrow> subs" where
  "subs_delete cb S = \<lparr>ss_version = Suc (ss_version S), ss_members = filter (\<lambda>c. c \<noteq> cb) (ss_members S)\<rparr>"

definition current_closure :: "live \<Rightarrow> closure" where
  \<comment> \<open>the values a render's \<open>connect\<close> closes over; also the identity of \<open>connect\<close>\<close>
  "current_closure s = \<lparr>cl_auth = lv_auth s, cl_token = lv_token s, cl_kv = lv_kv s,
     cl_services = lv_services s, cl_health = lv_health s\<rparr>"

definition live_init :: live where
  "live_init =
     \<lparr>lv_connected = False, lv_ws = None, lv_kv = empty_subs, lv_services = empty_subs,
      lv_health = empty_subs, lv_auth = False, lv_token = JNull, lv_sockets = [], lv_timers = [],
      lv_rendered = (\<lparr>cl_auth = False, cl_token = JNull, cl_kv = empty_subs,
                      cl_services = empty_subs, cl_health = empty_subs\<rparr>, None),
      lv_due = False, lv_effect = None, lv_log = []\<rparr>"

section \<open>Connecting and the socket handlers\<close>

definition ws_url :: "live_env \<Rightarrow> string" where
  "ws_url env =
     (let protocol = (if le_protocol env = ''https:'' then ''wss:'' else ''ws:'')
      in protocol @ ''//'' @ le_host env @ ''/ws/updates'')"

definition connect :: "live_env \<Rightarrow> closure \<Rightarrow> live \<Rightarrow> live" where
  "connect env cl s =
     (if \<not> cl_auth cl then s
      else s\<lparr>lv_sockets := lv_sockets s @
               [\<lparr>sk_url = ws_url env, sk_state = Connecting, sk_closure = cl, sk_sent = []\<rparr>],
             lv_ws := Some (length (lv_sockets s))\<rparr>)"

definition set_socket :: "nat \<Rightarrow> (socket \<Rightarrow> socket) \<Rightarrow> live \<Rightarrow> live" where
  "set_socket i f s = s\<lparr>lv_sockets := (lv_sockets s)[i := f (lv_sockets s ! i)]\<rparr>"

definition auth_message :: "jsval \<Rightarrow> string" where
  "auth_message token = json_stringify (JObj [(''type'', JStr ''auth''), (''token'', token)])"

definition subscribe_message :: string where
  "subscribe_message = json_stringify (JObj [(''type'', JStr ''subscribe''),
     (''channels'', JArr [JStr ''kv'', JStr ''services'', JStr ''health''])])"

definition on_open :: "nat \<Rightarrow> live \<Rightarrow> live" where
  "on_open i s =
     (set_socket i (\<lambda>k. k\<lparr>sk_state := Opened,
        sk_sent := sk_sent k
          @ (if truthy (cl_token (sk_closure k)) then [auth_message (cl_token (sk_closure k))] else [])
          @ [subscribe_message]\<rparr>) s)\<lparr>lv_connected := True\<rparr>"

fun channel_name :: "channel \<Rightarrow> string" where
  "channel_name KV = ''kv''"
| "channel_name Services = ''services''"
| "channel_name Health = ''health''"

fun captured :: "closure \<Rightarrow> channel \<Rightarrow> nat list" where
  "captured cl KV = ss_members (cl_kv cl)"
| "captured cl Services = ss_members (cl_services cl)"
| "captured cl Health = ss_members (cl_health cl)"

definition route :: "closure \<Rightarrow> jsval \<Rightarrow> nat list" where
  \<comment> \<open>the switch on the channel of a message\<close>
  "route cl ch =
     (if ch = JStr ''kv'' then captured cl KV
      else if ch = JStr ''services'' then captured cl Services
      else if ch = JStr ''health'' then captured cl Health
      else [])"

fun deliver :: "(nat \<Rightarrow> jsval \<Rightarrow> bool) \<Rightarrow> nat list \<Rightarrow> jsval \<Rightarrow> (nat \<times> jsval) list" where
  \<comment> \<open>\<open>forEach\<close> inside the try block: a callback that throws ends the loop\<close>
  "deliver throws [] d = []"
| "deliver throws (cb # cbs) d = (cb, d) # (if throws cb d then [] else deliver throws cbs d)"

definition on_message :: "live_env \<Rightarrow> nat \<Rightarrow> string \<Rightarrow> live \<Rightarrow> live" where
  "on_message env i data s =
     (case and_then (JSON_parse (JStr data)) (\<lambda>message.
             and_then (get_prop message ''channel'') (\<lambda>ch.
             and_then (get_prop message ''data'') (\<lambda>d. return (ch, d)))) of
        Inl e \<Rightarrow> s
      | Inr (ch, d) \<Rightarrow>
          s\<lparr>lv_log := lv_log s @ deliver (le_throws env) (route (sk_closure (lv_sockets s ! i)) ch) d\<rparr>)"

definition on_error :: "nat \<Rightarrow> live \<Rightarrow> live" where
  "on_error i s = s\<lparr>lv_connected := False\<rparr>"

definition on_close :: "nat \<Rightarrow> live \<Rightarrow> live" where
  \<comment> \<open>the timer's callback closes over what the socket's handlers close over\<close>
  "on_close i s =
     (set_socket i (\<lambda>k. k\<lparr>sk_state := Closed\<rparr>) s)
       \<lparr>lv_connected := False, lv_timers := lv_timers s @ [sk_closure (lv_sockets s ! i)]\<rparr>"

definition fire_timer :: "live_env \<Rightarrow> nat \<Rightarrow> live \<Rightarrow> live" where
  "fire_timer env k s =
     (let cl = lv_timers s ! k;
          s' = s\<lparr>lv_timers := take k (lv_timers s) @ drop (Suc k) (lv_timers s)\<rparr>
      in if cl_auth cl then connect env cl s' else s')"

section \<open>The effect and the subscriptions\<close>

definition close_socket :: "nat \<Rightarrow> live \<Rightarrow> live" where
  "close_socket i s =
     set_socket i (\<lambda>k. if sk_state k = Connecting \<or> sk_state k = Opened
                       then k\<lparr>sk_state := Closing\<rparr> else k) s"

definition cleanup :: "(closure \<times> nat option) option \<Rightarrow> live \<Rightarrow> live" where
  "cleanup eff s = (case eff of Some (_, Some i) \<Rightarrow> close_socket i s | _ \<Rightarrow> s)"

definition run_effect :: "live_env \<Rightarrow> live \<Rightarrow> live" where
  "run_effect env s =
     (if lv_effect s = Some (lv_rendered s) then s\<lparr>lv_due := False\<rparr>
      else let s1 = cleanup (lv_effect s) s;
               (cl, ws) = lv_rendered s;
               s2 = (if cl_auth cl \<and> ws = None then connect env cl s1 else s1)
           in s2\<lparr>lv_due := False, lv_effect := Some (lv_rendered s)\<rparr>)"

definition render :: "live \<Rightarrow> live" where
  "render s = s\<lparr>lv_rendered := (current_closure s, lv_ws s), lv_due := True\<rparr>"

fun subscribe :: "channel \<Rightarrow> nat \<Rightarrow> live \<Rightarrow> live" where
  "subscribe KV cb s = s\<lparr>lv_kv := subs_add cb (lv_kv s)\<rparr>"
| "subscribe Services cb s = s\<lparr>lv_services := subs_add cb (lv_services s)\<rparr>"
| "subscribe Health cb s = s\<lparr>lv_health := subs_add cb (lv_health s)\<rparr>"

fun unsubscribe :: "channel \<Rightarrow> nat \<Rightarrow> live \<Rightarrow> live" where
  "unsubscribe KV cb s = s\<lparr>lv_kv := subs_delete cb (lv_kv s)\<rparr>"
| "unsubscribe Services cb s = s\<lparr>lv_services := subs_delete cb (lv_services s)\<rparr>"
| "unsubscribe Health cb s = s\<lparr>lv_health := subs_delete cb (lv_health s)\<rparr>"

inductive live_step :: "live_env \<Rightarrow> live \<Rightarrow> live \<Rightarrow> bool" for env where
  st_open: "i < length (lv_sockets s) \<Longrightarrow> sk_state (lv_sockets s ! i) = Connecting \<Longrightarrow>
    live_step env s (on_open i s)"
| st_message: "i < length (lv_sockets s) \<Longrightarrow> sk_state (lv_sockets s ! i) = Opened \<Longrightarrow>
    live_step env s (on_message env i data s)"
| st_error: "i < length (lv_sockets s) \<Longrightarrow> sk_state (lv_sockets s ! i) \<noteq> Closed \<Longrightarrow>
    live_step env s (on_error i s)"
| st_close: "i < length (lv_sockets s) \<Longrightarrow> sk_state (lv_sockets s ! i) \<noteq> Closed \<Longrightarrow>
    live_step env s (on_close i s)"
| st_timer: "k < length (lv_timers s) \<Longrightarrow> live_step env s (fire_timer env k s)"
| st_subscribe: "live_step env s (subscribe ch cb s)"
| st_unsubscribe: "live_step env s (unsubscribe ch cb s)"
| st_session: "live_step env s (s\<lparr>lv_auth := b, lv_token := t\<rparr>)"
| st_render: "\<not> lv_due s \<Longrightarrow> live_step env s (render s)"
| st_effect: "lv_due s \<Longrightarrow> live_step env s (run_effect env s)"

inductive_cases live_step_cases: "live_step env s t"

section \<open>Invariants\<close>

definition alive :: "socket \<Rightarrow> bool" where
  "alive k \<longleftrightarrow> sk_state k \<noteq> Closed"

definition connections :: "live \<Rightarrow> nat" where
  \<comment> \<open>sockets not yet closed, and reconnects under way\<close>
  "connections s = length (filter alive (lv_sockets s)) + length (lv_timers s)"

definition first_closure :: "live \<Rightarrow> closure" where
  "first_closure s = sk_closure (lv_sockets s ! 0)"

definition inv_single :: "live \<Rightarrow> bool" where
  "inv_single s \<longleftrightarrow> (if lv_sockets s = [] then lv_timers s = [] else connections s = 1)"

definition inv_ws :: "live \<Rightarrow> bool" where
  "inv_ws s \<longleftrightarrow> lv_ws s = (if lv_sockets s = [] then None else Some (length (lv_sockets s) - 1))
     \<and> (lv_sockets s \<noteq> [] \<and> lv_due s \<longrightarrow> snd (lv_rendered s) \<noteq> None)"

definition inv_frozen :: "live \<Rightarrow> bool" where
  "inv_frozen s \<longleftrightarrow> (\<forall>k \<in> set (lv_sockets s). sk_closure k = first_closure s)
     \<and> (\<forall>cl \<in> set (lv_timers s). cl = first_closure s)
     \<and> (lv_sockets s \<noteq> [] \<longrightarrow> cl_auth (first_closure s))"

definition inv_connected :: "live \<Rightarrow> bool" where
  "inv_connected s \<longleftrightarrow>
     (lv_connected s \<longrightarrow> (\<exists>k \<in> set (lv_sockets s). sk_state k = Opened \<or> sk_state k = Closing))"

definition inv_log :: "live \<Rightarrow> bool" where
  "inv_log s \<longleftrightarrow> (\<forall>e \<in> set (lv_log s). lv_sockets s \<noteq> [] \<and> (\<exists>ch. fst e \<in> set (captured (first_closure s) ch)))"

definition live_inv :: "live \<Rightarrow> bool" where
  "live_inv s \<longleftrightarrow> inv_single s \<and> inv_ws s \<and> inv_frozen s \<and> inv_connected s \<and> inv_log s"

lemmas inv_defs = inv_single_def inv_ws_def inv_frozen_def inv_connected_def inv_log_def

lemma length_filter_update:
  "i < length xs \<Longrightarrow> length (filter P (xs[i := y])) + (if P (xs ! i) then 1 else 0)
     = length (filter P xs) + (if P y then 1 else 0)"
proof (induction xs arbitrary: i)
  case (Cons x xs)
  show ?case
  proof (cases i)
    case (Suc j)
    with Cons.prems Cons.IH [of j] show ?thesis by (auto split: if_splits)
  qed auto
qed simp

lemma set_socket_fields [simp]:
  "lv_connected (set_socket i f s) = lv_connected s" "lv_ws (set_socket i f s) = lv_ws s"
  "lv_timers (set_socket i f s) = lv_timers s" "lv_rendered (set_socket i f s) = lv_rendered s"
  "lv_due (set_socket i f s) = lv_due s" "lv_effect (set_socket i f s) = lv_effect s"
  "lv_log (set_socket i f s) = lv_log s"
  "length (lv_sockets (set_socket i f s)) = length (lv_sockets s)"
  "lv_sockets (set_socket i f s) = [] \<longleftrightarrow> lv_sockets s = []"
  by (simp_all add: set_socket_def)

text \<open>A handler changes the state of its socket, never what it closed over.\<close>

definition keeps_closure :: "(socket \<Rightarrow> socket) \<Rightarrow> bool" where
  "keeps_closure f \<longleftrightarrow> (\<forall>k. sk_closure (f k) = sk_closure k)"

lemma set_socket_closures:
  "keeps_closure f \<Longrightarrow> map sk_closure (lv_sockets (set_socket i f s)) = map sk_closure (lv_sockets s)"
proof (cases "i < length (lv_sockets s)")
  case True
  then have "(map sk_closure (lv_sockets s))[i := sk_closure (lv_sockets s ! i)] = map sk_closure (lv_sockets s)"
    by (metis list_update_id nth_map)
  moreover assume "keeps_closure f"
  ultimately show ?thesis by (simp add: set_socket_def keeps_closure_def map_update)
qed (simp add: set_socket_def list_update_beyond)

lemma closures_eq_frozen:
  assumes "map sk_closure (lv_sockets t) = map sk_closure (lv_sockets s)"
  shows "(lv_sockets t = []) = (lv_sockets s = [])"
    and "lv_sockets s \<noteq> [] \<Longrightarrow> first_closure t = first_closure s"
    and "(\<forall>k \<in> set (lv_sockets t). P (sk_closure k)) \<longleftrightarrow> (\<forall>k \<in> set (lv_sockets s). P (sk_closure k))"
proof -
  show e: "(lv_sockets t = []) = (lv_sockets s = [])"
    using assms by (metis Nil_is_map_conv)
  show "lv_sockets s \<noteq> [] \<Longrightarrow> first_closure t = first_closure s"
    using assms e unfolding first_closure_def
    by (metis length_greater_0_conv length_map nth_map)
  have "(\<forall>c \<in> set (map sk_closure (lv_sockets t)). P c) \<longleftrightarrow> (\<forall>c \<in> set (map sk_closure (lv_sockets s)). P c)"
    using assms by simp
  then show "(\<forall>k \<in> set (lv_sockets t). P (sk_closure k)) \<longleftrightarrow> (\<forall>k \<in> set (lv_sockets s). P (sk_closure k))"
    by simp
qed

lemma inv_frozen_closures:
  assumes "inv_frozen s" and "map sk_closure (lv_sockets t) = map sk_closure (lv_sockets s)"
    and "set (lv_timers t) \<subseteq> insert (first_closure s) (set (lv_timers s))"
    and "lv_sockets s = [] \<Longrightarrow> lv_timers t = []"
  shows "inv_frozen t"
proof (cases "lv_sockets s = []")
  case True
  with assms(4) closures_eq_frozen(1) [OF assms(2)] show ?thesis by (simp add: inv_frozen_def)
next
  case False
  note eq = closures_eq_frozen [OF assms(2)]
  from False assms(1,3) eq(2) eq(3) [of "\<lambda>c. c = first_closure s"] show ?thesis
    by (auto simp: inv_frozen_def)
qed

lemma inv_log_closures:
  assumes "inv_log s" and "map sk_closure (lv_sockets t) = map sk_closure (lv_sockets s)"
    and "lv_log t = lv_log s"
  shows "inv_log t"
  using assms(1,3) closures_eq_frozen(1,2) [OF assms(2)] by (auto simp: inv_log_def)

text \<open>What the invariants depend on.\<close>

lemma live_inv_frame:
  assumes "live_inv s" and "lv_sockets t = lv_sockets s" and "lv_timers t = lv_timers s" and "lv_ws t = lv_ws s"
    and "lv_sockets s \<noteq> [] \<and> lv_due t \<Longrightarrow> snd (lv_rendered t) \<noteq> None"
    and "lv_connected t \<Longrightarrow> lv_connected s"
    and "\<And>e. e \<in> set (lv_log t) \<Longrightarrow> e \<in> set (lv_log s)
           \<or> lv_sockets s \<noteq> [] \<and> (\<exists>ch. fst e \<in> set (captured (first_closure s) ch))"
  shows "live_inv t"
proof -
  have f: "first_closure t = first_closure s" using assms(2) by (simp add: first_closure_def)
  have "inv_single t" using assms(1-3) by (auto simp: live_inv_def inv_single_def connections_def)
  moreover have "inv_ws t" using assms(1,2,4,5) by (simp add: live_inv_def inv_ws_def)
  moreover have "inv_frozen t"
    using assms(1) unfolding live_inv_def inv_frozen_def f assms(2,3) by (elim conjE) (intro conjI)
  moreover have "inv_connected t" using assms(1,2,6) by (auto simp: live_inv_def inv_connected_def)
  moreover have "inv_log t"
    using assms(1,7) unfolding live_inv_def inv_log_def f assms(2) by blast
  ultimately show ?thesis by (simp add: live_inv_def)
qed

text \<open>
  Two kinds of step: those that leave the list of sockets, up to the state of one of them,
  and those that open a socket.
\<close>

lemma live_inv_set_socket:
  assumes "live_inv s" and "i < length (lv_sockets s)" and "keeps_closure f"
    and t: "t = (set_socket i f s)\<lparr>lv_connected := c, lv_timers := ts\<rparr>"
    and ts: "set ts \<subseteq> insert (first_closure s) (set (lv_timers s))"
    and n: "length ts + (if alive (f (lv_sockets s ! i)) then 1 else 0)
      = length (lv_timers s) + (if alive (lv_sockets s ! i) then 1 else 0)"
    and c: "c \<Longrightarrow> \<exists>k \<in> set (lv_sockets t). sk_state k = Opened \<or> sk_state k = Closing"
  shows "live_inv t"
proof -
  have ne: "lv_sockets s \<noteq> []" using assms(2) by auto
  have m: "map sk_closure (lv_sockets t) = map sk_closure (lv_sockets s)"
    unfolding t using set_socket_closures [OF assms(3)] by simp
  have "length (filter alive (lv_sockets t)) + (if alive (lv_sockets s ! i) then 1 else 0)
      = length (filter alive (lv_sockets s)) + (if alive (f (lv_sockets s ! i)) then 1 else 0)"
    using length_filter_update [OF assms(2)] by (simp add: t set_socket_def)
  with n have "connections t = connections s" by (simp add: connections_def t)
  with assms(1) ne have "inv_single t" by (simp add: live_inv_def inv_single_def t)
  moreover have "inv_ws t" using assms(1) ne by (simp add: live_inv_def inv_ws_def t)
  moreover have "inv_frozen t"
    by (rule inv_frozen_closures [OF _ m]) (use assms(1) ts ne in \<open>simp_all add: live_inv_def t\<close>)
  moreover have "inv_connected t" using c by (simp add: inv_connected_def t)
  moreover have "inv_log t"
    by (rule inv_log_closures [OF _ m]) (use assms(1) in \<open>simp_all add: live_inv_def t\<close>)
  ultimately show ?thesis by (simp add: live_inv_def)
qed

lemma live_inv_open [inv_intros]:
  assumes "live_inv s" and "i < length (lv_sockets s)" and "sk_state (lv_sockets s ! i) = Connecting"
  shows "live_inv (on_open i s)"
proof (rule live_inv_set_socket [OF assms(1,2)])
  let ?f = "\<lambda>k. k\<lparr>sk_state := Opened,
        sk_sent := sk_sent k
          @ (if truthy (cl_token (sk_closure k)) then [auth_message (cl_token (sk_closure k))] else [])
          @ [subscribe_message]\<rparr>"
  show "keeps_closure ?f" by (simp add: keeps_closure_def)
  show "on_open i s = (set_socket i ?f s)\<lparr>lv_connected := True, lv_timers := lv_timers s\<rparr>"
    by (simp add: on_open_def set_socket_def)
  show "\<exists>k \<in> set (lv_sockets (on_open i s)). sk_state k = Opened \<or> sk_state k = Closing"
    by (rule bexI [of _ "lv_sockets (on_open i s) ! i"])
      (use assms(2) in \<open>simp_all add: on_open_def set_socket_def set_update_memI\<close>)
qed (use assms in \<open>auto simp: alive_def\<close>)

lemma live_inv_close [inv_intros]:
  assumes "live_inv s" and "i < length (lv_sockets s)" and "sk_state (lv_sockets s ! i) \<noteq> Closed"
  shows "live_inv (on_close i s)"
proof (rule live_inv_set_socket [OF assms(1,2)])
  let ?f = "\<lambda>k. k\<lparr>sk_state := Closed\<rparr>"
  show "keeps_closure ?f" by (simp add: keeps_closure_def)
  show "on_close i s = (set_socket i ?f s)\<lparr>lv_connected := False,
      lv_timers := lv_timers s @ [sk_closure (lv_sockets s ! i)]\<rparr>"
    by (simp add: on_close_def set_socket_def)
  show "set (lv_timers s @ [sk_closure (lv_sockets s ! i)]) \<subseteq> insert (first_closure s) (set (lv_timers s))"
    using assms(1,2) by (auto simp: live_inv_def inv_frozen_def)
  show "length (lv_timers s @ [sk_closure (lv_sockets s ! i)]) + (if alive (?f (lv_sockets s ! i)) then 1 else 0)
      = length (lv_timers s) + (if alive (lv_sockets s ! i) then 1 else 0)"
    using assms(3) by (simp add: alive_def)
qed simp

lemma live_inv_error [inv_intros]: "live_inv s \<Longrightarrow> live_inv (on_error i s)"
  by (rule live_inv_frame, assumption) (auto simp: on_error_def live_inv_def inv_ws_def)

lemma live_inv_close_socket [inv_intros]:
  assumes "live_inv s"
  shows "live_inv (close_socket i s)"
proof (cases "i < length (lv_sockets s)")
  case True
  let ?f = "\<lambda>k. if sk_state k = Connecting \<or> sk_state k = Opened then k\<lparr>sk_state := Closing\<rparr> else k"
  show ?thesis
  proof (rule live_inv_set_socket [OF assms True])
    show "keeps_closure ?f" by (simp add: keeps_closure_def)
    show "close_socket i s = (set_socket i ?f s)\<lparr>lv_connected := lv_connected s, lv_timers := lv_timers s\<rparr>"
      by (simp add: close_socket_def set_socket_def)
    assume "lv_connected s"
    with assms obtain k where "k \<in> set (lv_sockets s)" "sk_state k = Opened \<or> sk_state k = Closing"
      by (auto simp: live_inv_def inv_connected_def)
    then obtain j where "j < length (lv_sockets s)"
      "sk_state (lv_sockets s ! j) = Opened \<or> sk_state (lv_sockets s ! j) = Closing"
      by (metis in_set_conv_nth)
    with True have "j < length (lv_sockets (close_socket i s))"
      "sk_state (lv_sockets (close_socket i s) ! j) = Opened \<or> sk_state (lv_sockets (close_socket i s) ! j) = Closing"
      by (auto simp: close_socket_def set_socket_def nth_list_update)
    then show "\<exists>k \<in> set (lv_sockets (close_socket i s)). sk_state k = Opened \<or> sk_state k = Closing"
      using nth_mem by blast
  qed (auto simp: alive_def)
next
  case False
  then have "close_socket i s = s" by (simp add: close_socket_def set_socket_def list_update_beyond)
  with assms show ?thesis by simp
qed

lemma live_inv_message [inv_intros]:
  assumes "live_inv s" and "i < length (lv_sockets s)"
  shows "live_inv (on_message env i data s)"
proof -
  have deliver: "e \<in> set (deliver throws cbs d) \<Longrightarrow> fst e \<in> set cbs" for e throws cbs d
    by (induction throws cbs d rule: deliver.induct) (auto split: if_splits)
  have route: "cb \<in> set (route cl ch) \<Longrightarrow> \<exists>c. cb \<in> set (captured cl c)" for cb cl ch
    by (auto simp: route_def simp del: captured.simps split: if_splits)
  have cl: "sk_closure (lv_sockets s ! i) = first_closure s"
    using assms by (simp add: live_inv_def inv_frozen_def)
  have ne: "lv_sockets s \<noteq> []" using assms(2) by auto
  have log: "live_inv (s\<lparr>lv_log := lv_log s @ deliver (le_throws env) (route (first_closure s) ch) d\<rparr>)" for ch d
    by (rule live_inv_frame [OF assms(1)])
      (use assms(1) ne in \<open>auto simp: live_inv_def inv_ws_def dest!: deliver route\<close>)
  show ?thesis
    unfolding on_message_def cl using assms(1) by (auto split: sum.split intro: log)
qed

text \<open>Opening a socket: the first one, by the effect, or the next one, by a timer.\<close>

lemma live_inv_connect_first:
  assumes "live_inv s" and "lv_sockets s = []" and "cl_auth cl"
  shows "live_inv ((connect env cl s)\<lparr>lv_due := False, lv_effect := e\<rparr>)"
proof -
  have "lv_log s = []" using assms by (cases "lv_log s") (auto simp: live_inv_def inv_log_def)
  with assms show ?thesis
    by (simp add: live_inv_def inv_defs connect_def connections_def first_closure_def alive_def)
qed

lemma live_inv_fire [inv_intros]:
  assumes "live_inv s" and k: "k < length (lv_timers s)"
  shows "live_inv (fire_timer env k s)"
proof -
  have ne: "lv_sockets s \<noteq> []" using assms by (auto simp: live_inv_def inv_single_def)
  have t: "lv_timers s ! k = first_closure s"
    using assms by (simp add: live_inv_def inv_frozen_def)
  have a: "cl_auth (first_closure s)" using assms(1) ne by (simp add: live_inv_def inv_frozen_def)
  have one: "connections s = 1" using assms(1) ne by (simp add: live_inv_def inv_single_def)
  with k have "length (filter alive (lv_sockets s)) = 0" and l: "length (lv_timers s) = 1"
    unfolding connections_def by linarith+
  then have nil: "filter alive (lv_sockets s) = []" by simp
  from l k have ts: "take k (lv_timers s) @ drop (Suc k) (lv_timers s) = []" by simp
  let ?t = "s\<lparr>lv_timers := [],
      lv_sockets := lv_sockets s @ [\<lparr>sk_url = ws_url env, sk_state = Connecting,
        sk_closure = first_closure s, sk_sent = []\<rparr>],
      lv_ws := Some (length (lv_sockets s))\<rparr>"
  have eq: "fire_timer env k s = ?t" using a by (simp add: fire_timer_def t ts connect_def)
  have f: "first_closure ?t = first_closure s" using ne by (simp add: first_closure_def nth_append)
  have "inv_single ?t" by (simp add: inv_single_def connections_def nil alive_def)
  moreover have "inv_ws ?t" using assms(1) ne by (simp add: live_inv_def inv_ws_def)
  moreover have "inv_frozen ?t"
    using assms(1) a unfolding live_inv_def inv_frozen_def f by auto
  moreover have "inv_connected ?t" using assms(1) by (auto simp: live_inv_def inv_connected_def)
  moreover have "inv_log ?t" using assms(1) unfolding live_inv_def inv_log_def f by simp
  ultimately show ?thesis unfolding eq live_inv_def by (intro conjI)
qed

lemma cleanup_frame:
  "live_inv s \<Longrightarrow> live_inv (cleanup e s)"
  "lv_sockets (cleanup e s) = [] \<longleftrightarrow> lv_sockets s = []"
  "lv_due (cleanup e s) = lv_due s" "lv_rendered (cleanup e s) = lv_rendered s"
  by (auto simp: cleanup_def close_socket_def split: option.split
      intro: live_inv_close_socket [unfolded close_socket_def])

lemma live_inv_effect [inv_intros]:
  assumes "live_inv s" and due: "lv_due s"
  shows "live_inv (run_effect env s)"
proof (cases "lv_effect s = Some (lv_rendered s)")
  case True
  show ?thesis
    by (rule live_inv_frame [OF assms(1)]) (simp_all add: run_effect_def True)
next
  case False
  obtain cl ws where r: "lv_rendered s = (cl, ws)" by (cases "lv_rendered s") auto
  let ?s1 = "cleanup (lv_effect s) s"
  note s1 = cleanup_frame(1) [OF assms(1), of "lv_effect s"]
  show ?thesis
  proof (cases "cl_auth cl \<and> ws = None")
    case True
    with assms r have "lv_sockets s = []" by (auto simp: live_inv_def inv_ws_def)
    with True have "live_inv ((connect env cl ?s1)\<lparr>lv_due := False, lv_effect := Some (lv_rendered s)\<rparr>)"
      using live_inv_connect_first [OF s1] cleanup_frame(2) by simp
    with False True r show ?thesis by (simp add: run_effect_def Let_def)
  next
    case no: False
    have "live_inv (?s1\<lparr>lv_due := False, lv_effect := Some (lv_rendered s)\<rparr>)"
      by (rule live_inv_frame [OF s1]) simp_all
    with False no r show ?thesis by (auto simp: run_effect_def Let_def)
  qed
qed

lemma live_inv_render [inv_intros]: "live_inv s \<Longrightarrow> live_inv (render s)"
  by (rule live_inv_frame, assumption) (auto simp: render_def live_inv_def inv_ws_def)

lemma live_inv_subscribe [inv_intros]: "live_inv s \<Longrightarrow> live_inv (subscribe ch cb s)"
  by (rule live_inv_frame, assumption; cases ch) (auto simp: live_inv_def inv_ws_def)

lemma live_inv_unsubscribe [inv_intros]: "live_inv s \<Longrightarrow> live_inv (unsubscribe ch cb s)"
  by (rule live_inv_frame, assumption; cases ch) (auto simp: live_inv_def inv_ws_def)

lemma live_inv_session [inv_intros]: "live_inv s \<Longrightarrow> live_inv (s\<lparr>lv_auth := b, lv_token := t\<rparr>)"
  by (rule live_inv_frame, assumption) (auto simp: live_inv_def inv_ws_def)

lemma live_inv_init: "live_inv live_init"
  by (simp add: live_inv_def inv_defs live_init_def)

lemma live_inv_step: "live_step env s t \<Longrightarrow> live_inv s \<Longrightarrow> live_inv t"
  by (induction rule: live_step.induct) (auto intro: inv_intros)

interpretation live: invariant_system "\<lambda>s. s = live_init" "live_step env" live_inv for env
  by unfold_locales (auto intro: live_inv_init live_inv_step)

section \<open>The life of a socket\<close>

definition later :: "socket \<Rightarrow> socket \<Rightarrow> bool" where
  \<comment> \<open>the same connection, the ready state no earlier and the frames sent so far kept\<close>
  "later k k' \<longleftrightarrow> sk_url k' = sk_url k \<and> sk_closure k' = sk_closure k \<and> sk_state k \<le> sk_state k'
     \<and> take (length (sk_sent k)) (sk_sent k') = sk_sent k"

lemma later_refl [simp]: "later k k"
  by (simp add: later_def)

lemma later_trans: "later a b \<Longrightarrow> later b c \<Longrightarrow> later a c"
proof (unfold later_def, elim conjE, intro conjI)
  assume ab: "take (length (sk_sent a)) (sk_sent b) = sk_sent a"
    and bc: "take (length (sk_sent b)) (sk_sent c) = sk_sent b"
  from ab have "length (sk_sent a) \<le> length (sk_sent b)" by (metis length_take min.cobounded1)
  with ab bc show "take (length (sk_sent a)) (sk_sent c) = sk_sent a"
    by (metis min.absorb1 take_take)
qed auto

definition grows :: "live \<Rightarrow> live \<Rightarrow> bool" where
  "grows s t \<longleftrightarrow> length (lv_sockets s) \<le> length (lv_sockets t)
     \<and> (\<forall>i < length (lv_sockets s). later (lv_sockets s ! i) (lv_sockets t ! i))"

lemma grows_refl [simp]: "grows s s"
  by (simp add: grows_def)

lemma grows_trans: "grows s t \<Longrightarrow> grows t u \<Longrightarrow> grows s u"
  unfolding grows_def by (meson later_trans order_trans order_less_le_trans)

lemma grows_fields:
  "lv_sockets t = lv_sockets s \<Longrightarrow> grows s t"
  by (simp add: grows_def)

lemma grows_set_socket: "later (lv_sockets s ! i) (f (lv_sockets s ! i)) \<Longrightarrow> grows s (set_socket i f s)"
proof -
  assume "later (lv_sockets s ! i) (f (lv_sockets s ! i))"
  then have "later (lv_sockets s ! j) ((lv_sockets s)[i := f (lv_sockets s ! i)] ! j)"
    if "j < length (lv_sockets s)" for j
    using that by (cases "j = i") auto
  then show ?thesis by (simp add: grows_def set_socket_def)
qed

lemma grows_connect: "grows s (connect env cl s)"
  by (auto simp: grows_def connect_def nth_append)

lemma grows_cleanup: "grows s (cleanup e s)"
proof -
  have "grows s (close_socket i s)" for i
    unfolding close_socket_def
    by (rule grows_set_socket) (auto simp: later_def less_eq_ready_state_def)
  then show ?thesis by (auto simp: cleanup_def split: option.split)
qed

lemma grows_effect: "grows s (run_effect env s)"
proof -
  obtain cl ws where r: "lv_rendered s = (cl, ws)" by (cases "lv_rendered s") auto
  let ?s1 = "cleanup (lv_effect s) s"
  have "grows s (connect env cl ?s1)" using grows_trans [OF grows_cleanup grows_connect] .
  then have "grows s ((connect env cl ?s1)\<lparr>lv_due := d, lv_effect := e\<rparr>)" for d e by (simp add: grows_def)
  moreover have "grows s (?s1\<lparr>lv_due := d, lv_effect := e\<rparr>)" for d e
    using grows_cleanup [of s "lv_effect s"] by (simp add: grows_def)
  ultimately show ?thesis by (simp add: run_effect_def r Let_def grows_fields)
qed

lemma grows_fire: "grows s (fire_timer env k s)"
proof -
  let ?s = "s\<lparr>lv_timers := take k (lv_timers s) @ drop (Suc k) (lv_timers s)\<rparr>"
  have "grows s ?s" by (simp add: grows_def)
  then show ?thesis
    using grows_trans [OF _ grows_connect, of s ?s env "lv_timers s ! k"] by (simp add: fire_timer_def Let_def)
qed

lemma grows_step: "live_step env s t \<Longrightarrow> grows s t"
proof (induction rule: live_step.induct)
  case (st_open i s)
  then have "grows s (set_socket i (\<lambda>k. k\<lparr>sk_state := Opened, sk_sent := sk_sent k
      @ (if truthy (cl_token (sk_closure k)) then [auth_message (cl_token (sk_closure k))] else [])
      @ [subscribe_message]\<rparr>) s)" (is "grows s ?u")
    by (intro grows_set_socket) (simp add: later_def less_eq_ready_state_def)
  then show ?case by (simp add: on_open_def grows_def)
next
  case (st_close i s)
  have "grows s (set_socket i (\<lambda>k. k\<lparr>sk_state := Closed\<rparr>) s)"
    by (intro grows_set_socket) (cases "sk_state (lv_sockets s ! i)"; simp add: later_def less_eq_ready_state_def)
  then show ?case by (simp add: on_close_def grows_def)
next
  case (st_subscribe s ch cb)
  show ?case by (cases ch) (simp_all add: grows_fields)
next
  case (st_unsubscribe s ch cb)
  show ?case by (cases ch) (simp_all add: grows_fields)
qed (auto simp: grows_fields on_message_def on_error_def render_def grows_fire grows_effect split: sum.split)

lemma grows_steps: "(live_step env)\<^sup>*\<^sup>* s t \<Longrightarrow> grows s t"
  by (induction rule: rtranclp_induct) (auto intro: grows_trans grows_step)

lemma first_closure_steps:
  assumes "(live_step env)\<^sup>*\<^sup>* s t" and "lv_sockets s \<noteq> []"
  shows "first_closure t = first_closure s" and "lv_sockets t \<noteq> []"
  using grows_steps [OF assms(1)] assms(2)
  by (auto simp: grows_def first_closure_def later_def)

section \<open>The boot order of the console\<close>

definition live_boot :: "live_env \<Rightarrow> jsval \<Rightarrow> (channel \<times> nat) list \<Rightarrow> live" where
  \<comment> \<open>a page load with a stored session: the first render has no session; the mount effect of
     \<open>AuthProvider\<close> sets it; the next render mounts the page, whose effects subscribe before
     the effect of the provider runs\<close>
  "live_boot env token ss =
     (let first = run_effect env (render live_init);
          second = render (first\<lparr>lv_auth := True, lv_token := token\<rparr>)
      in run_effect env (fold (\<lambda>(ch, cb). subscribe ch cb) ss second))"

abbreviation live_reach :: "live_env \<Rightarrow> live \<Rightarrow> bool" where
  "live_reach env \<equiv> reach (\<lambda>s. s = live_init) (live_step env)"

lemma subscribe_fields [simp]:
  "lv_due (subscribe ch cb s) = lv_due s" "lv_rendered (subscribe ch cb s) = lv_rendered s"
  "lv_effect (subscribe ch cb s) = lv_effect s" "lv_sockets (subscribe ch cb s) = lv_sockets s"
  "lv_timers (subscribe ch cb s) = lv_timers s" "lv_log (subscribe ch cb s) = lv_log s"
  by (cases ch; simp)+

lemma subscribe_all_fields [simp]:
  "lv_due (fold (\<lambda>(ch, cb). subscribe ch cb) ss s) = lv_due s"
  "lv_rendered (fold (\<lambda>(ch, cb). subscribe ch cb) ss s) = lv_rendered s"
  "lv_effect (fold (\<lambda>(ch, cb). subscribe ch cb) ss s) = lv_effect s"
  "lv_sockets (fold (\<lambda>(ch, cb). subscribe ch cb) ss s) = lv_sockets s"
  by (induction ss arbitrary: s) auto

lemma reach_subscribe_all: "live_reach env s \<Longrightarrow> live_reach env (fold (\<lambda>(ch, cb). subscribe ch cb) ss s)"
  by (induction ss arbitrary: s) (auto intro: reach_step st_subscribe)

lemma live_boot_reach: "live_reach env (live_boot env token ss)"
proof -
  let ?a = "render live_init"
  let ?b = "run_effect env ?a"
  let ?c = "?b\<lparr>lv_auth := True, lv_token := token\<rparr>"
  let ?d = "render ?c"
  let ?e = "fold (\<lambda>(ch, cb). subscribe ch cb) ss ?d"
  have "live_reach env ?a"
    by (rule reach_step, rule reach_init, rule refl, rule st_render) (simp add: live_init_def)
  then have "live_reach env ?b" by (rule reach_step) (rule st_effect, simp add: render_def)
  then have "live_reach env ?c" by (rule reach_step) (rule st_session)
  then have "live_reach env ?d" by (rule reach_step) (rule st_render, simp add: run_effect_def Let_def split: prod.split)
  then have "live_reach env ?e" by (rule reach_subscribe_all)
  then have "live_reach env (run_effect env ?e)" by (rule reach_step) (rule st_effect, simp add: render_def)
  then show ?thesis by (simp add: live_boot_def Let_def)
qed

lemma live_boot_socket:
  "lv_sockets (live_boot env token ss) =
     [\<lparr>sk_url = ws_url env, sk_state = Connecting,
       sk_closure = \<lparr>cl_auth = True, cl_token = token, cl_kv = empty_subs, cl_services = empty_subs,
                     cl_health = empty_subs\<rparr>, sk_sent = []\<rparr>]"
  by (simp add: live_boot_def Let_def run_effect_def render_def live_init_def current_closure_def
      cleanup_def connect_def)

section \<open>Properties\<close>

lemma live_inv_frozenD:
  "live_inv s \<Longrightarrow> cl \<in> set (lv_timers s) \<Longrightarrow> cl = first_closure s"
  "live_inv s \<Longrightarrow> k \<in> set (lv_sockets s) \<Longrightarrow> sk_closure k = first_closure s"
  "live_inv s \<Longrightarrow> lv_sockets s \<noteq> [] \<Longrightarrow> cl_auth (first_closure s)"
  unfolding live_inv_def inv_frozen_def by blast+

lemma alive_or_timer:
  assumes "live_inv s" and "lv_sockets s \<noteq> []"
  obtains (timer) "lv_timers s \<noteq> []"
  | (alive) i where "i < length (lv_sockets s)" "alive (lv_sockets s ! i)" "lv_timers s = []"
proof (cases "lv_timers s = []")
  case True
  with assms have "length (filter alive (lv_sockets s)) = 1"
    by (simp add: live_inv_def inv_single_def connections_def)
  then have "filter alive (lv_sockets s) \<noteq> []" by auto
  then obtain k where "k \<in> set (lv_sockets s)" "alive k" by (auto simp: filter_empty_conv)
  then show ?thesis using alive True by (metis in_set_conv_nth)
qed (rule timer)

text \<open>
  C1: At every moment the provider has at most one connection: the sockets that are not closed
  and the reconnects that are pending are one in number once a socket was opened, and none
  before. The provider keeps the index of the newest socket.
\<close>

theorem live_single_connection:
  "live_reach env s \<Longrightarrow>
     length (filter alive (lv_sockets s)) + length (lv_timers s) = (if lv_sockets s = [] then 0 else 1)
     \<and> lv_ws s = (if lv_sockets s = [] then None else Some (length (lv_sockets s) - 1))"
proof -
  assume "live_reach env s"
  then have inv: "live_inv s" by (rule live.invariant)
  then have "inv_single s" "inv_ws s" by (simp_all add: live_inv_def)
  then show ?thesis
    by (auto simp: inv_single_def inv_ws_def connections_def split: if_splits)
qed

theorem live_single_connection_witness:
  "let s = live_boot \<lparr>le_protocol = ''https:'', le_host = ''h'', le_throws = \<lambda>_ _. False\<rparr> (JStr ''t'') [(KV, 1)]
   in length (lv_sockets s) = 1 \<and> length (filter alive (lv_sockets s)) + length (lv_timers s) = 1 \<and> lv_ws s = Some 0"
  using live_single_connection [OF live_boot_reach, of
      "\<lparr>le_protocol = ''https:'', le_host = ''h'', le_throws = \<lambda>_ _. False\<rparr>" "JStr ''t''" "[(KV, 1)]"]
  by (simp add: live_boot_socket Let_def)

text \<open>
  C16: Once a socket was opened, whatever happens next (renders, new sessions, subscriptions,
  reconnects), every socket has the values the first one closed over, its token included, and
  events are delivered to the callbacks subscribed at that moment only: a callback that
  subscribes later is never called.
\<close>

theorem live_frozen_subscribers:
  assumes "live_reach env s" and "lv_sockets s \<noteq> []" and "(live_step env)\<^sup>*\<^sup>* s t"
  shows "(\<forall>k \<in> set (lv_sockets t). sk_closure k = first_closure s)
    \<and> (\<forall>e \<in> set (lv_log t). \<exists>ch. fst e \<in> set (captured (first_closure s) ch))"
proof -
  have "live_inv t" using live.invariant [OF assms(1)] live.invariant_steps [OF assms(3)] by blast
  then show ?thesis
    using first_closure_steps [OF assms(3,2)] by (auto simp: live_inv_def inv_frozen_def inv_log_def)
qed

theorem live_frozen_subscribers_witness:
  "let env = \<lparr>le_protocol = ''http:'', le_host = ''h'', le_throws = \<lambda>_ _. False\<rparr>;
       s = live_boot env (JStr ''t'') [];
       t = subscribe KV 7 (on_open 0 s)
   in \<forall>k \<in> set (lv_sockets t). sk_closure k = first_closure s"
proof -
  define env :: live_env where "env = \<lparr>le_protocol = ''http:'', le_host = ''h'', le_throws = \<lambda>_ _. False\<rparr>"
  let ?s = "live_boot env (JStr ''t'') []"
  have "live_step env ?s (on_open 0 ?s)" by (rule st_open) (simp_all add: live_boot_socket)
  then have "(live_step env)\<^sup>*\<^sup>* ?s (subscribe KV 7 (on_open 0 ?s))"
    using st_subscribe by (rule two_steps)
  then show ?thesis
    using live_frozen_subscribers [OF live_boot_reach, of env "JStr ''t''" "[]"]
    unfolding env_def Let_def by (simp add: live_boot_socket)
qed

text \<open>
  C17: After a page load with a stored session no event ever reaches a subscriber: the page's
  callbacks subscribe before the socket is opened, but after the render whose values the socket
  closes over.
\<close>

theorem live_boot_deaf:
  assumes "(live_step env)\<^sup>*\<^sup>* (live_boot env token ss) t"
  shows "lv_log t = []"
proof -
  have inv: "live_inv t" using live.invariant [OF live_boot_reach] live.invariant_steps [OF assms] by blast
  have "captured (first_closure t) ch = []" for ch
    using first_closure_steps [OF assms] by (cases ch) (simp_all add: live_boot_socket first_closure_def empty_subs_def)
  then have "e \<notin> set (lv_log t)" for e using inv by (cases e) (auto simp: live_inv_def inv_log_def)
  then show ?thesis by (cases "lv_log t") auto
qed

theorem live_boot_deaf_witness:
  "let env = \<lparr>le_protocol = ''http:'', le_host = ''h'', le_throws = \<lambda>_ _. False\<rparr>;
       s = on_open 0 (live_boot env (JStr ''t'') [(KV, 7)])
   in lv_log (on_message env 0 ''{}'' s) = []"
proof -
  define env :: live_env where "env = \<lparr>le_protocol = ''http:'', le_host = ''h'', le_throws = \<lambda>_ _. False\<rparr>"
  let ?b = "live_boot env (JStr ''t'') [(KV, 7)]"
  have "live_step env ?b (on_open 0 ?b)" by (rule st_open) (simp_all add: live_boot_socket)
  moreover have "live_step env (on_open 0 ?b) (on_message env 0 ''{}'' (on_open 0 ?b))"
    by (rule st_message) (simp_all add: live_boot_socket on_open_def set_socket_def)
  ultimately have "(live_step env)\<^sup>*\<^sup>* ?b (on_message env 0 ''{}'' (on_open 0 ?b))"
    by (rule two_steps)
  then show ?thesis using live_boot_deaf unfolding env_def Let_def by blast
qed

text \<open>
  C27: Signing out does not end the connection: whenever a socket was opened, the provider can
  reach, with the session gone and without any user action, a new socket that sends the token
  of the signed-out session to the server.
\<close>

theorem live_reconnects_after_logout:
  assumes "live_reach env s" and "lv_sockets s \<noteq> []" and "truthy (cl_token (first_closure s))"
  shows "\<exists>t. (live_step env)\<^sup>*\<^sup>* (s\<lparr>lv_auth := False, lv_token := JNull\<rparr>) t \<and> \<not> lv_auth t
    \<and> length (lv_sockets t) = Suc (length (lv_sockets s))
    \<and> sk_sent (last (lv_sockets t)) = [auth_message (cl_token (first_closure s)), subscribe_message]"
proof -
  let ?s = "s\<lparr>lv_auth := False, lv_token := JNull\<rparr>"
  have inv: "live_inv ?s" using live.invariant [OF assms(1)] by (rule live_inv_session)
  have f: "first_closure ?s = first_closure s" by (simp add: first_closure_def)
  have a: "cl_auth (first_closure s)" using live_inv_frozenD(3) [OF inv] assms(2) f by simp
  have fire: "\<exists>t. (live_step env)\<^sup>*\<^sup>* u t \<and> \<not> lv_auth t \<and> length (lv_sockets t) = Suc (length (lv_sockets u))
      \<and> sk_sent (last (lv_sockets t)) = [auth_message (cl_token (first_closure s)), subscribe_message]"
    if u: "live_inv u" "lv_timers u \<noteq> []" "first_closure u = first_closure s" "\<not> lv_auth u" for u
  proof -
    let ?k = "\<lparr>sk_url = ws_url env, sk_state = Connecting, sk_closure = first_closure s, sk_sent = []\<rparr>"
    have "lv_timers u ! 0 = first_closure s"
      using live_inv_frozenD(1) [OF u(1), of "lv_timers u ! 0"] u(2,3) by simp
    then have v: "fire_timer env 0 u = u\<lparr>lv_timers := drop 1 (lv_timers u), lv_sockets := lv_sockets u @ [?k],
        lv_ws := Some (length (lv_sockets u))\<rparr>" (is "_ = ?v")
      using a by (simp add: fire_timer_def connect_def Let_def)
    have 1: "live_step env u ?v" using st_timer [of 0 u env] u(2) v by simp
    have 2: "live_step env ?v (on_open (length (lv_sockets u)) ?v)" by (rule st_open) simp_all
    from 1 2 have "(live_step env)\<^sup>*\<^sup>* u (on_open (length (lv_sockets u)) ?v)"
      by (rule two_steps)
    then show ?thesis
      using u(4) assms(3)
      by (intro exI [of _ "on_open (length (lv_sockets u)) ?v"]) (simp add: on_open_def set_socket_def)
  qed
  have "lv_sockets ?s \<noteq> []" using assms(2) by simp
  with inv show ?thesis
  proof (cases rule: alive_or_timer)
    case timer
    from fire [OF inv timer f] show ?thesis by simp
  next
    case (alive i)
    let ?u = "on_close i ?s"
    have c: "live_step env ?s ?u" by (rule st_close) (use alive in \<open>simp_all add: alive_def\<close>)
    from c inv have "live_inv ?u" by (rule live_inv_step)
    moreover have "lv_timers ?u \<noteq> []" "\<not> lv_auth ?u" "length (lv_sockets ?u) = length (lv_sockets s)"
      by (simp_all add: on_close_def set_socket_def)
    moreover have "first_closure ?u = first_closure s"
      using first_closure_steps(1) [OF r_into_rtranclp [of "live_step env", OF c]] assms(2) f by simp
    ultimately obtain t where "(live_step env)\<^sup>*\<^sup>* ?u t \<and> \<not> lv_auth t
      \<and> length (lv_sockets t) = Suc (length (lv_sockets s))
      \<and> sk_sent (last (lv_sockets t)) = [auth_message (cl_token (first_closure s)), subscribe_message]"
      using fire [of ?u] by auto
    then show ?thesis using converse_rtranclp_into_rtranclp [of "live_step env", OF c] by blast
  qed
qed

theorem live_reconnects_after_logout_witness:
  "\<exists>t. (live_step \<lparr>le_protocol = ''http:'', le_host = ''h'', le_throws = \<lambda>_ _. False\<rparr>)\<^sup>*\<^sup>*
        ((live_boot \<lparr>le_protocol = ''http:'', le_host = ''h'', le_throws = \<lambda>_ _. False\<rparr> (JStr ''t'') [])
           \<lparr>lv_auth := False, lv_token := JNull\<rparr>) t \<and> \<not> lv_auth t
      \<and> length (lv_sockets t) = 2
      \<and> sk_sent (last (lv_sockets t)) = [auth_message (JStr ''t''), subscribe_message]"
  using live_reconnects_after_logout [OF live_boot_reach, of
      "\<lparr>le_protocol = ''http:'', le_host = ''h'', le_throws = \<lambda>_ _. False\<rparr>" "JStr ''t''" "[]"]
  by (simp add: live_boot_socket first_closure_def numeral_2_eq_2)

lemma deliver_takeWhile:
  "deliver throws cbs d = map (\<lambda>cb. (cb, d)) (takeWhile (\<lambda>cb. \<not> throws cb d) cbs
     @ take 1 (dropWhile (\<lambda>cb. \<not> throws cb d) cbs))"
  by (induction throws cbs d rule: deliver.induct) auto

lemma route_channel [simp]: "route cl (JStr (channel_name ch)) = captured cl ch"
  by (cases ch) (simp_all add: route_def)

text \<open>
  A well-formed event on a channel the console knows is delivered, with its data, to the
  callbacks the socket captured for that channel, in the order they subscribed, each once, up
  to and including the first one that throws; nothing else of the state changes.
\<close>

theorem live_event_delivery:
  assumes "json_ok d"
  shows "on_message env i (json_stringify (JObj [(''channel'', JStr (channel_name ch)), (''data'', d)])) s
    = s\<lparr>lv_log := lv_log s @ map (\<lambda>cb. (cb, d))
        (let cbs = captured (sk_closure (lv_sockets s ! i)) ch
         in takeWhile (\<lambda>cb. \<not> le_throws env cb d) cbs @ take 1 (dropWhile (\<lambda>cb. \<not> le_throws env cb d) cbs))\<rparr>"
proof -
  have "json_ok (JObj [(''channel'', JStr (channel_name ch)), (''data'', d)])" (is "json_ok ?m")
    using assms by (simp add: obj_of_def obj_put_def index_key_def is_digit_def code_def)
  from JSON_parse_stringify [OF this] show ?thesis
    by (simp add: on_message_def deliver_takeWhile Let_def)
qed

theorem live_event_delivery_witness:
  "lv_log (on_message \<lparr>le_protocol = ''http:'', le_host = ''h'', le_throws = \<lambda>cb _. cb = 2\<rparr> 0
       (json_stringify (JObj [(''channel'', JStr ''kv''), (''data'', JNum 5)]))
       (live_init\<lparr>lv_sockets := [\<lparr>sk_url = ''u'', sk_state = Opened,
          sk_closure = \<lparr>cl_auth = True, cl_token = JStr ''t'', cl_kv = \<lparr>ss_version = 3, ss_members = [1, 2, 3]\<rparr>,
            cl_services = empty_subs, cl_health = empty_subs\<rparr>, sk_sent = []\<rparr>]\<rparr>))
   = [(1, JNum 5), (2, JNum 5)]"
  using live_event_delivery [of "JNum 5" "\<lparr>le_protocol = ''http:'', le_host = ''h'', le_throws = \<lambda>cb _. cb = 2\<rparr>" 0 KV
      "live_init\<lparr>lv_sockets := [\<lparr>sk_url = ''u'', sk_state = Opened,
          sk_closure = \<lparr>cl_auth = True, cl_token = JStr ''t'', cl_kv = \<lparr>ss_version = 3, ss_members = [1, 2, 3]\<rparr>,
            cl_services = empty_subs, cl_health = empty_subs\<rparr>, sk_sent = []\<rparr>]\<rparr>"]
  by (simp add: live_init_def)

text \<open>
  A step of the provider never takes a socket back: it keeps its address and the values its
  handlers closed over, its ready state never decreases, what it sent stays sent; and the
  connected badge is lit only while the provider has a socket that is open or closing.
\<close>

theorem live_sockets_advance:
  assumes "live_reach env s" and "live_step env s t" and "i < length (lv_sockets s)"
  shows "i < length (lv_sockets t) \<and> later (lv_sockets s ! i) (lv_sockets t ! i)
    \<and> (lv_connected t \<longrightarrow> (\<exists>k \<in> set (lv_sockets t). sk_state k = Opened \<or> sk_state k = Closing))"
proof -
  have "live_inv t" using live.invariant [OF reach_step [OF assms(1,2)]] .
  then show ?thesis
    using grows_step [OF assms(2)] assms(3) by (auto simp: grows_def live_inv_def inv_connected_def)
qed

theorem live_sockets_advance_witness:
  "let s = live_boot \<lparr>le_protocol = ''http:'', le_host = ''h'', le_throws = \<lambda>_ _. False\<rparr> (JStr ''t'') []
   in lv_connected (on_open 0 s) \<and> later (lv_sockets s ! 0) (lv_sockets (on_open 0 s) ! 0)"
proof -
  let ?env = "\<lparr>le_protocol = ''http:'', le_host = ''h'', le_throws = \<lambda>_ _. False\<rparr>"
  let ?s = "live_boot ?env (JStr ''t'') []"
  have "live_step ?env ?s (on_open 0 ?s)" by (rule st_open) (simp_all add: live_boot_socket)
  from live_sockets_advance [OF live_boot_reach this, of 0] show ?thesis
    by (simp add: live_boot_socket Let_def on_open_def)
qed

end
