(* ===== verification/Shell.thy ===== *)
theory Shell
  imports View Auth Live
begin

text \<open>
  The frame around the pages: which screen the application shows for a path (App.tsx,
  components/ProtectedRoute.tsx), the bar with the user menu (components/Navbar.tsx,
  components/ConnectionStatus.tsx) and the side menu (components/Sidebar.tsx). The route
  matching of react-router is the parameter \<open>match\<close>: the pattern, out of a list, that a path
  is given to. Its documented behaviour, as far as the properties need it, is \<open>router_ok\<close>: it
  picks a pattern of the list, a path that is itself a pattern without a wildcard is given to
  that pattern, and with the pattern that matches everything there is always one. Paths are
  those below the base name \<open>/admin\<close>.
\<close>

section \<open>Routing\<close>

datatype page = Page_Dashboard | Page_Services | Page_KV | Page_Health | Page_Keys

datatype screen =
    Loading
  | Login_Screen
  | Redirect string
  | Pages "page option"
  | Nothing

type_synonym route_match = "string list \<Rightarrow> string \<Rightarrow> string option"

definition protected_route :: "auth_state \<Rightarrow> screen \<Rightarrow> screen" where
  "protected_route a content =
     (if au_loading a then Loading
      else if \<not> is_authenticated a then Redirect ''/login''
      else content)"

definition page_routes :: "(string \<times> page) list" where
  "page_routes = [(''/'', Page_Dashboard), (''/services'', Page_Services), (''/kv'', Page_KV),
     (''/health'', Page_Health), (''/apikeys'', Page_Keys)]"

definition page_at :: "route_match \<Rightarrow> string \<Rightarrow> page option" where
  "page_at match path =
     (case match (map fst page_routes) path of None \<Rightarrow> None | Some p \<Rightarrow> map_of page_routes p)"

definition app_screen :: "route_match \<Rightarrow> auth_state \<Rightarrow> string \<Rightarrow> screen" where
  "app_screen match a path =
     (if au_loading a then Loading
      else case match [''/login'', ''/*''] path of
             None \<Rightarrow> Nothing
           | Some p \<Rightarrow>
               if p = ''/login'' then (if is_authenticated a then Redirect ''/'' else Login_Screen)
               else protected_route a (Pages (page_at match path)))"

definition router_ok :: "route_match \<Rightarrow> bool" where
  "router_ok match \<longleftrightarrow>
     (\<forall>ps path p. match ps path = Some p \<longrightarrow> p \<in> set ps)
     \<and> (\<forall>ps path. path \<in> set ps \<and> CHR ''*'' \<notin> set path \<longrightarrow> match ps path = Some path)
     \<and> (\<forall>ps path. ''/*'' \<in> set ps \<longrightarrow> match ps path \<noteq> None)"

fun exact_match :: route_match where
  \<comment> \<open>a router that does what is documented, for the examples: literal patterns first\<close>
  "exact_match ps path =
     (if path \<in> set ps \<and> CHR ''*'' \<notin> set path then Some path
      else if ''/*'' \<in> set ps then Some ''/*'' else None)"

lemma exact_match_ok: "router_ok exact_match"
  by (auto simp: router_ok_def)

section \<open>The bar\<close>

datatype 'p shell_action =
    Open_Menu
  | Close_Menu
  | Toggle_User
  | Close_User
  | Sign_Out
  | In_Page 'p

record shell =
  sh_sidebar :: bool
  sh_user_menu :: bool

definition shell_init :: shell where
  "shell_init = \<lparr>sh_sidebar = False, sh_user_menu = False\<rparr>"

fun shell_handle :: "'p shell_action \<Rightarrow> shell \<Rightarrow> shell" where
  "shell_handle Open_Menu s = s\<lparr>sh_sidebar := True\<rparr>"
| "shell_handle Close_Menu s = s\<lparr>sh_sidebar := False\<rparr>"
| "shell_handle Toggle_User s = s\<lparr>sh_user_menu := \<not> sh_user_menu s\<rparr>"
| "shell_handle Close_User s = s\<lparr>sh_user_menu := False\<rparr>"
| "shell_handle _ s = s"

definition handleLogout :: "auth_state \<times> 's world \<Rightarrow> (auth_state \<times> 's world) \<times> string" where
  \<comment> \<open>the second part is where it navigates to\<close>
  "handleLogout aw = (logout aw, ''/login'')"

definition connection_status :: "bool \<Rightarrow> 'a view" where
  "connection_status isConnected =
     (if isConnected then el ''div'' [icon ''Wifi'', el ''span'' [label ''Live'']]
      else el ''div'' [icon ''WifiOff'', el ''span'' [label ''Disconnected'']])"

definition user_menu :: "jsval \<Rightarrow> 'p shell_action view" where
  "user_menu user =
     (let roles = opt_prop user ''roles'' in
      children [
        elem ''div'' [] [On_Click Close_User] [],
        el ''div'' [
          el ''div'' [el ''p'' [child (opt_prop user ''username'')],
            el ''p'' [label ''ID: '', child (opt_prop user ''user_id'')],
            guard_child roles (show_if (positive_num (opt_prop roles ''length''))
              (and_then (as_array roles) (\<lambda>rs. el ''div'' [each rs (\<lambda>role. el ''span'' [child role])])))],
          elem ''button'' [] [On_Click Sign_Out] [icon ''LogOut'', label ''Sign Out'']]])"

definition navbar :: "auth_state \<Rightarrow> bool \<Rightarrow> shell \<Rightarrow> 'p shell_action view" where
  "navbar a isConnected s =
     (let user = au_user a in
      el ''nav'' [el ''div'' [
        el ''div'' [elem ''button'' [] [On_Click Open_Menu] [icon ''Menu''], el ''h1'' [label ''Konsul Admin'']],
        el ''div'' [
          show_if (is_authenticated a) (connection_status isConnected),
          el ''div'' [label ''Service Discovery & Configuration''],
          show_if (is_authenticated a) (guard_child user (el ''div'' [
            elem ''button'' [] [On_Click Toggle_User]
              [icon ''User'', el ''span'' [child (opt_prop user ''username'')], icon ''ChevronDown''],
            show_if (sh_user_menu s) (user_menu user)]))]]])"

section \<open>The side menu\<close>

definition navigation :: "(string \<times> string \<times> string) list" where
  \<comment> \<open>name, address and icon\<close>
  "navigation = [(''Dashboard'', ''/'', ''LayoutDashboard''), (''Services'', ''/services'', ''Server''),
     (''KV Store'', ''/kv'', ''Database''), (''Health'', ''/health'', ''Activity''), (''API Keys'', ''/apikeys'', ''Key'')]"

definition active :: "string \<Rightarrow> string \<times> string \<times> string \<Rightarrow> bool" where
  "active pathname item \<longleftrightarrow> pathname = fst (snd item)"

definition nav_link :: "string \<Rightarrow> string \<times> string \<times> string \<Rightarrow> 'p shell_action view" where
  "nav_link pathname item =
     (case item of (name, href, icon_name) \<Rightarrow>
        el ''li'' [elem ''a'' [(''href'', JStr href), (''active'', JBool (active pathname item))] [On_Click Close_Menu]
          [icon icon_name, el ''span'' [label name]]])"

definition sidebar :: "string \<Rightarrow> shell \<Rightarrow> 'p shell_action view" where
  "sidebar pathname s =
     children [
       show_if (sh_sidebar s) (elem ''div'' [] [On_Click Close_Menu] []),
       elem ''div'' [(''open'', JBool (sh_sidebar s))] [] [
         el ''div'' [el ''h2'' [label ''Menu''], elem ''button'' [] [On_Click Close_Menu] [icon ''X'']],
         el ''nav'' [el ''ul'' (map (nav_link pathname) navigation)]]]"

section \<open>The application\<close>

definition lift_view :: "('p \<Rightarrow> 'q) \<Rightarrow> 'p view \<Rightarrow> 'q view" where
  "lift_view f v = and_then v (\<lambda>ns. return (map (map_node f) ns))"

definition loading_view :: "'a view" where
  "loading_view = el ''div'' [el ''div'' [el ''div'' [], el ''p'' [label ''Loading...'']]]"

definition app_view ::
  "(page \<Rightarrow> 'p view) \<Rightarrow> 'p view \<Rightarrow> auth_state \<Rightarrow> bool \<Rightarrow> string \<Rightarrow> shell \<Rightarrow> screen \<Rightarrow> 'p shell_action view" where
  \<comment> \<open>what a screen shows; the pages and the login page are parameters here\<close>
  "app_view content login_content a isConnected path s scr =
     (case scr of
        Loading \<Rightarrow> loading_view
      | Login_Screen \<Rightarrow> lift_view In_Page login_content
      | Redirect p \<Rightarrow> return []
      | Nothing \<Rightarrow> return []
      | Pages pg \<Rightarrow>
          el ''div'' [navbar a isConnected s,
            el ''div'' [sidebar path s,
              el ''main'' [case pg of None \<Rightarrow> return [] | Some p \<Rightarrow> lift_view In_Page (content p)]]])"

section \<open>Lemmas\<close>

lemma crashes_lift [simp]: "crashes (lift_view f v) \<longleftrightarrow> crashes v"
  by (simp add: lift_view_def)

lemma router_okD:
  assumes "router_ok match"
  shows "match ps path = Some p \<Longrightarrow> p \<in> set ps"
    and "path \<in> set ps \<Longrightarrow> CHR ''*'' \<notin> set path \<Longrightarrow> match ps path = Some path"
    and "''/*'' \<in> set ps \<Longrightarrow> match ps path \<noteq> None"
  using assms unfolding router_ok_def by blast+

lemma page_at_route:
  assumes "router_ok match" and "(path, pg) \<in> set page_routes"
  shows "page_at match path = Some pg"
proof -
  have "match (map fst page_routes) path = Some path"
    using assms(2) by (intro router_okD(2) [OF assms(1)]) (auto simp: page_routes_def)
  with assms(2) show ?thesis by (auto simp: page_at_def page_routes_def)
qed

lemma app_screen_login:
  "router_ok match \<Longrightarrow> \<not> au_loading a \<Longrightarrow>
     app_screen match a ''/login'' = (if is_authenticated a then Redirect ''/'' else Login_Screen)"
  using router_okD(2) [of match "''/login''" "[''/login'', ''/*'']"] by (simp add: app_screen_def)

lemma app_screen_page:
  assumes "router_ok match" and "\<not> au_loading a" and "is_authenticated a" and "(path, pg) \<in> set page_routes"
  shows "app_screen match a path = Pages (Some pg) \<or> app_screen match a path = Redirect ''/''"
proof -
  obtain p where p: "match [''/login'', ''/*''] path = Some p"
    using router_okD(3) [OF assms(1), of "[''/login'', ''/*'']" path] by auto
  with router_okD(1) [OF assms(1) p] assms page_at_route [OF assms(1,4)] show ?thesis
    by (auto simp: app_screen_def protected_route_def)
qed

section \<open>Properties\<close>

text \<open>
  C25: However the router matches, a page of the console is on screen only with a session that
  has a token and a user, and never while the stored session is still being loaded.
\<close>

theorem pages_need_session:
  assumes "app_screen match a path = Pages pg"
  shows "is_authenticated a \<and> \<not> au_loading a"
  using assms by (auto simp: app_screen_def protected_route_def split: if_splits option.splits)

theorem pages_need_session_witness:
  "let a = auth_init\<lparr>au_loading := False, au_token := JStr ''t'', au_user := JObj []\<rparr>
   in app_screen exact_match a ''/kv'' = Pages (Some Page_KV) \<and> is_authenticated a"
proof -
  let ?a = "auth_init\<lparr>au_loading := False, au_token := JStr ''t'', au_user := JObj []\<rparr>"
  have "app_screen exact_match ?a ''/kv'' = Pages (Some Page_KV)"
    by (simp add: app_screen_def protected_route_def is_authenticated_def page_at_def page_routes_def)
  with pages_need_session [OF this] show ?thesis by (simp add: Let_def)
qed

definition gives_root :: "route_match \<Rightarrow> bool" where
  \<comment> \<open>the path of the dashboard is not given to the login route\<close>
  "gives_root match \<longleftrightarrow> match [''/login'', ''/*''] ''/'' = Some ''/*''"

text \<open>
  C26: Redirects end: what a redirect leads to is the login page or a page of the console, never
  another redirect back, provided the router gives the paths of the redirects to no other
  route.
\<close>

theorem redirects_end:
  assumes "router_ok match" and "gives_root match" and "app_screen match a path = Redirect p"
  shows "app_screen match a p = (if is_authenticated a then Pages (Some Page_Dashboard) else Login_Screen)"
proof -
  from assms(3) have l: "\<not> au_loading a" and p: "p = (if is_authenticated a then ''/'' else ''/login'')"
    by (auto simp: app_screen_def protected_route_def split: if_splits option.splits)
  have "page_at match ''/'' = Some Page_Dashboard" by (rule page_at_route [OF assms(1)]) (simp add: page_routes_def)
  with assms(2) l have "is_authenticated a \<Longrightarrow> app_screen match a ''/'' = Pages (Some Page_Dashboard)"
    by (simp add: app_screen_def protected_route_def gives_root_def)
  with p app_screen_login [OF assms(1) l] show ?thesis by simp
qed

theorem redirects_end_witness:
  "app_screen exact_match (auth_init\<lparr>au_loading := False\<rparr>) ''/kv'' = Redirect ''/login''
   \<and> app_screen exact_match (auth_init\<lparr>au_loading := False\<rparr>) ''/login'' = Login_Screen"
proof -
  let ?a = "auth_init\<lparr>au_loading := False\<rparr>"
  have a: "\<not> is_authenticated ?a" by (simp add: is_authenticated_def auth_init_def)
  have "app_screen exact_match ?a ''/kv'' = Redirect ''/login''"
    using a by (simp add: app_screen_def protected_route_def)
  with redirects_end [OF exact_match_ok _ this] a show ?thesis by (simp add: gives_root_def)
qed

text \<open>
  With a session, every entry of the side menu leads to a page of its own, the entry of the
  page on screen is the one marked, and the five pages are all reached; signing out leads from
  any of them to the login page.
\<close>

theorem navigation_complete:
  assumes "router_ok match" and "\<forall>item \<in> set navigation. match [''/login'', ''/*''] (fst (snd item)) = Some ''/*''"
    and "is_authenticated a" and "\<not> au_loading a"
  shows "map (\<lambda>item. app_screen match a (fst (snd item))) navigation =
      map (\<lambda>pg. Pages (Some pg)) [Page_Dashboard, Page_Services, Page_KV, Page_Health, Page_Keys]
    \<and> (\<forall>item \<in> set navigation. filter (active (fst (snd item))) navigation = [item])
    \<and> (case handleLogout (a, w) of ((a', w'), path) \<Rightarrow> app_screen match a' path = Login_Screen
        \<and> (\<forall>item \<in> set navigation. app_screen match a' (fst (snd item)) = Redirect ''/login''))"
proof (intro conjI)
  have pg: "app_screen match a p = Pages (Some g)" if "(p, g) \<in> set page_routes"
    "match [''/login'', ''/*''] p = Some ''/*''" for p g
    using that assms(3,4) page_at_route [OF assms(1)] by (simp add: app_screen_def protected_route_def)
  show "map (\<lambda>item. app_screen match a (fst (snd item))) navigation =
      map (\<lambda>pg. Pages (Some pg)) [Page_Dashboard, Page_Services, Page_KV, Page_Health, Page_Keys]"
    using assms(2) by (simp add: navigation_def pg page_routes_def)
  show "\<forall>item \<in> set navigation. filter (active (fst (snd item))) navigation = [item]"
    by (simp add: navigation_def active_def)
  obtain a' w' where l: "logout (a, w) = (a', w')" by force
  have a': "\<not> is_authenticated a'" by (rule logout_facts(1) [OF l])
  have lo: "\<not> au_loading a'" using l assms(4) by (auto simp: logout_def)
  have "app_screen match a' ''/login'' = Login_Screen" using app_screen_login [OF assms(1) lo] a' by simp
  moreover have "\<forall>item \<in> set navigation. app_screen match a' (fst (snd item)) = Redirect ''/login''"
    using assms(2) a' lo by (simp add: app_screen_def protected_route_def)
  ultimately show "case handleLogout (a, w) of ((a', w'), path) \<Rightarrow> app_screen match a' path = Login_Screen
        \<and> (\<forall>item \<in> set navigation. app_screen match a' (fst (snd item)) = Redirect ''/login'')"
    by (simp add: handleLogout_def l)
qed

theorem navigation_complete_witness:
  "app_screen exact_match (auth_init\<lparr>au_loading := False, au_token := JStr ''t'', au_user := JObj []\<rparr>) ''/services''
    = Pages (Some Page_Services)"
proof -
  let ?a = "auth_init\<lparr>au_loading := False, au_token := JStr ''t'', au_user := JObj []\<rparr>"
  have "\<forall>item \<in> set navigation. exact_match [''/login'', ''/*''] (fst (snd item)) = Some ''/*''"
    by (simp add: navigation_def)
  moreover have "is_authenticated ?a" by (simp add: is_authenticated_def)
  ultimately show ?thesis
    using navigation_complete [OF exact_match_ok, of ?a "example_world ''t'' ()"] by (simp add: navigation_def)
qed

text \<open>
  With the user a login stores, the frame around the pages never crashes by itself, so the
  application crashes exactly when the page it shows does, and then menu and all are gone.
\<close>

theorem frame_crashes_with_page:
  assumes "au_user a = user_data u i rs ps"
  shows "crashes (app_view content login_content a isConnected path s (Pages pg)) \<longleftrightarrow>
    (\<exists>p. pg = Some p \<and> crashes (content p))"
proof -
  have props: "opt_prop (au_user a) ''username'' = JStr u" "opt_prop (au_user a) ''user_id'' = JStr i"
    "opt_prop (au_user a) ''roles'' = JArr (map JStr rs)"
    by (simp_all add: assms user_data_def opt_prop_def)
  have t: "truthy (au_user a)" by (simp add: assms)
  have um: "\<not> crashes (user_menu (au_user a) :: 'x shell_action view)"
    unfolding user_menu_def Let_def props
    by (simp add: guard_child_def as_array_def)
  have nb: "\<not> crashes (navbar a isConnected s :: 'x shell_action view)"
    unfolding navbar_def Let_def
    by (simp add: um props connection_status_def guard_child_def t)
  have sb: "\<not> crashes (sidebar path s :: 'x shell_action view)"
    by (simp add: sidebar_def nav_link_def navigation_def)
  show ?thesis by (cases pg) (simp_all add: app_view_def nb sb)
qed

theorem frame_crashes_with_page_witness:
  "crashes (app_view (\<lambda>p. throw InvalidChild) (return []) (auth_init\<lparr>au_user := user_data ''u'' ''i'' [] []\<rparr>)
     True ''/kv'' shell_init (Pages (Some Page_KV)))"
  using frame_crashes_with_page [of "auth_init\<lparr>au_user := user_data ''u'' ''i'' [] []\<rparr>" "''u''" "''i''" "[]" "[]"
      "\<lambda>p. throw InvalidChild" "return []" True "''/kv''" shell_init "Some Page_KV"]
  by simp

end
