(* ===== verification/Entry.thy ===== *)
theory Entry
  imports Shell
begin

text \<open>
  The entry point (main.tsx) and the contexts (\<open>useAuth\<close> of contexts/AuthContext.tsx,
  \<open>useWebSocket\<close> of contexts/WebSocketContext.tsx): which component asks for which context, where
  each is provided, and that in the tree \<open>main.tsx\<close> mounts no hook throws for want of its
  provider. The contexts of react-query and react-router are taken as the two of the source;
  what their hooks throw is a parameter.
\<close>

section \<open>The value of the session's context\<close>

record auth_context =
  ac_user :: jsval
  ac_token :: jsval
  ac_refreshToken :: jsval
  ac_isAuthenticated :: bool
  ac_isLoading :: bool

definition auth_context_value :: "auth_state \<Rightarrow> auth_context" where
  "auth_context_value a = \<lparr>ac_user = au_user a, ac_token = au_token a, ac_refreshToken = au_refresh a,
     ac_isAuthenticated = is_authenticated a, ac_isLoading = au_loading a\<rparr>"

definition useAuth :: "auth_context option \<Rightarrow> auth_context js" where
  "useAuth context =
     (case context of None \<Rightarrow> throw (ThrownError ''useAuth must be used within an AuthProvider'') | Some c \<Rightarrow> return c)"

definition useWebSocket :: "'c option \<Rightarrow> 'c js" where
  "useWebSocket context =
     (case context of
        None \<Rightarrow> throw (ThrownError ''useWebSocket must be used within a WebSocketProvider'') | Some c \<Rightarrow> return c)"

section \<open>Components and the contexts they use\<close>

datatype react_context = Query_Context | Auth_Context | Socket_Context | Router_Context

datatype component = Component (used: "react_context list") (provided: "react_context list") (inner: "component list")

definition missing :: "(react_context \<Rightarrow> js_error) \<Rightarrow> react_context \<Rightarrow> js_error" where
  \<comment> \<open>what a hook throws outside its provider\<close>
  "missing lib c =
     (if c = Auth_Context then ThrownError ''useAuth must be used within an AuthProvider''
      else if c = Socket_Context then ThrownError ''useWebSocket must be used within a WebSocketProvider''
      else lib c)"

definition use_contexts :: "(react_context \<Rightarrow> js_error) \<Rightarrow> react_context list \<Rightarrow> react_context list \<Rightarrow> unit js" where
  "use_contexts lib scope cs =
     (case filter (\<lambda>c. c \<notin> set scope) cs of [] \<Rightarrow> return () | c # _ \<Rightarrow> throw (missing lib c))"

fun render :: "(react_context \<Rightarrow> js_error) \<Rightarrow> react_context list \<Rightarrow> component \<Rightarrow> unit js"
  and render_all :: "(react_context \<Rightarrow> js_error) \<Rightarrow> react_context list \<Rightarrow> component list \<Rightarrow> unit js" where
  "render lib scope (Component us ps cs) =
     and_then (use_contexts lib scope us) (\<lambda>_. render_all lib (ps @ scope) cs)"
| "render_all lib scope [] = return ()"
| "render_all lib scope (c # cs) = and_then (render lib scope c) (\<lambda>_. render_all lib scope cs)"

definition leaf :: "react_context list \<Rightarrow> component" where
  "leaf us = Component us [] []"

definition the_pages :: "component list" where
  \<comment> \<open>Dashboard, Services, KVStore, Health, APIKeys\<close>
  "the_pages = [leaf [Query_Context, Socket_Context], leaf [Query_Context, Socket_Context],
     leaf [Query_Context, Socket_Context], leaf [Query_Context, Socket_Context], leaf [Auth_Context, Query_Context]]"

definition the_frame :: component where
  \<comment> \<open>ProtectedRoute with the Navbar, its ConnectionStatus, the Sidebar and the pages\<close>
  "the_frame = Component [Auth_Context] []
     ([Component [Auth_Context, Router_Context] [] [leaf [Socket_Context]], leaf [Router_Context]] @ the_pages)"

definition App :: component where
  \<comment> \<open>the Router around the login page and the frame\<close>
  "App = Component [Auth_Context] [] [Component [] [Router_Context] [leaf [Auth_Context, Router_Context], the_frame]]"

definition provider :: "react_context \<Rightarrow> component \<Rightarrow> component" where
  \<comment> \<open>the provider of a context around a component; the provider of the connection uses the session\<close>
  "provider c inside = Component (if c = Socket_Context then [Auth_Context] else []) [c] [inside]"

definition main_tree :: component where
  "main_tree = Component [] [] [provider Query_Context (provider Auth_Context (provider Socket_Context App))]"

section \<open>Lemmas\<close>

lemma main_tree_renders: "render lib [] main_tree = return ()"
  by (simp add: main_tree_def provider_def App_def the_frame_def the_pages_def leaf_def use_contexts_def)

definition nest :: "react_context list \<Rightarrow> component" where
  \<comment> \<open>the application inside some providers, the outermost first\<close>
  "nest ps = foldr provider ps App"

lemma order_of_providers:
  assumes "set ps = {Query_Context, Auth_Context, Socket_Context}" and "length ps = 3"
  shows "render lib [] (nest ps) = return () \<longleftrightarrow>
    ps \<in> set [[Query_Context, Auth_Context, Socket_Context], [Auth_Context, Query_Context, Socket_Context],
              [Auth_Context, Socket_Context, Query_Context]]"
proof -
  obtain a b c where ps: "ps = [a, b, c]"
    using assms(2) by (auto simp: numeral_3_eq_3 length_Suc_conv)
  have "distinct ps" using assms by (intro card_distinct) simp
  then show ?thesis
    using assms(1) unfolding ps
    by (cases a; cases b; cases c) (auto simp: nest_def provider_def App_def the_frame_def the_pages_def leaf_def
        use_contexts_def missing_def)
qed

lemma useAuth_session:
  "useAuth (Some (auth_context_value a)) = return c \<Longrightarrow> ac_isAuthenticated c \<longleftrightarrow> is_authenticated a"
  by (auto simp: useAuth_def auth_context_value_def)

end
