(* ===== verification/Server_Base.thy ===== *)
theory Server_Base
  imports Api "HOL-Library.AList" "HOL-Library.Word" "HOL-Library.Char_ord" "HOL-Library.List_Lexorder"
begin

text \<open>
  What the models of the server's parts share: the errors of the stores
  (internal/store/errors.go), how \<open>encoding/json\<close> fills a struct from a parsed body, the
  answers of the handlers, and the 64-bit indices. Go iterates over a map in an order of its
  own, the parameter \<open>order\<close> of the models: a list of the keys of a finite set, each once.
  Strings are values: that the router of the source hands out parameters in buffers it reuses
  is not modelled.
\<close>

section \<open>Errors and orders\<close>

datatype store_error = CAS_Conflict string "64 word" "64 word" | Not_Found string

fun error_text :: "string \<Rightarrow> store_error \<Rightarrow> string" where
  \<comment> \<open>of a kind of entity, \<open>key\<close> or \<open>service\<close>\<close>
  "error_text kind (CAS_Conflict key expected current) =
     ''CAS conflict for '' @ kind @ '' '' @ [CHR 0x27] @ key @ [CHR 0x27] @ '': expected ModifyIndex '' @ nat_str (unat expected)
       @ '', but current is '' @ nat_str (unat current)"
| "error_text kind (Not_Found key) = kind @ '' '' @ [CHR 0x27] @ key @ [CHR 0x27] @ '' not found''"

definition order_ok :: "(string set \<Rightarrow> string list) \<Rightarrow> bool" where
  "order_ok order \<longleftrightarrow> (\<forall>S. finite S \<longrightarrow> set (order S) = S \<and> distinct (order S))"

section \<open>Bodies and answers\<close>

definition json_word :: "64 word \<Rightarrow> jsval" where
  "json_word n = JNum (uint n)"

definition error_body :: "string \<Rightarrow> string \<Rightarrow> jsval" where
  "error_body error message = JObj [(''error'', JStr error), (''message'', JStr message)]"

definition body_members :: "jsval \<Rightarrow> (string \<times> jsval) list option" where
  \<comment> \<open>what \<open>c.BodyParser\<close> reads into a struct: an object, or null, which leaves every field as it is\<close>
  "body_members body = (case body of JObj kvs \<Rightarrow> Some kvs | JNull \<Rightarrow> Some [] | JNaN \<Rightarrow> Some [] | _ \<Rightarrow> None)"

fun go_uint :: "(string \<times> jsval) list \<Rightarrow> string \<Rightarrow> 64 word option \<Rightarrow> bool \<Rightarrow> 64 word option option" where
  \<comment> \<open>how \<open>encoding/json\<close> fills a \<open>uint64\<close> field, or a pointer to one: members match whatever
     their case, the last one wins, null, which NaN is sent as, leaves a number and clears a pointer; \<open>None\<close> is an error\<close>
  "go_uint [] name n pointer = Some n"
| "go_uint ((k, v) # kvs) name n pointer =
     (if to_lower k \<noteq> name then go_uint kvs name n pointer
      else case v of
          JUndef \<Rightarrow> go_uint kvs name n pointer
        | JNull \<Rightarrow> go_uint kvs name (if pointer then None else n) pointer
        | JNaN \<Rightarrow> go_uint kvs name (if pointer then None else n) pointer
        | JNum i \<Rightarrow> if 0 \<le> i \<and> i < 2 ^ 64 then go_uint kvs name (Some (word_of_int i)) pointer else None
        | _ \<Rightarrow> None)"

fun go_string :: "(string \<times> jsval) list \<Rightarrow> string \<Rightarrow> string \<Rightarrow> string option" where
  "go_string [] name s = Some s"
| "go_string ((k, v) # kvs) name s =
     (if to_lower k \<noteq> name then go_string kvs name s
      else case v of
          JUndef \<Rightarrow> go_string kvs name s
        | JNull \<Rightarrow> go_string kvs name s
        | JNaN \<Rightarrow> go_string kvs name s
        | JStr t \<Rightarrow> go_string kvs name t
        | _ \<Rightarrow> None)"

fun go_int :: "(string \<times> jsval) list \<Rightarrow> string \<Rightarrow> int \<Rightarrow> int option" where
  "go_int [] name n = Some n"
| "go_int ((k, v) # kvs) name n =
     (if to_lower k \<noteq> name then go_int kvs name n
      else case v of
          JUndef \<Rightarrow> go_int kvs name n
        | JNull \<Rightarrow> go_int kvs name n
        | JNaN \<Rightarrow> go_int kvs name n
        | JNum i \<Rightarrow> if - (2 ^ 63) \<le> i \<and> i < 2 ^ 63 then go_int kvs name i else None
        | _ \<Rightarrow> None)"

fun go_element :: "jsval \<Rightarrow> string option" where
  \<comment> \<open>an element of a \<open>[]string\<close>, or a value of a \<open>map[string]string\<close>\<close>
  "go_element (JStr s) = Some s"
| "go_element JNull = Some []"
| "go_element JUndef = Some []"
| "go_element JNaN = Some []"
| "go_element _ = None"

fun map_option_list :: "('a \<Rightarrow> 'b option) \<Rightarrow> 'a list \<Rightarrow> 'b list option" where
  "map_option_list f [] = Some []"
| "map_option_list f (x # xs) =
     (case (f x, map_option_list f xs) of (Some y, Some ys) \<Rightarrow> Some (y # ys) | _ \<Rightarrow> None)"

fun go_strings :: "(string \<times> jsval) list \<Rightarrow> string \<Rightarrow> string list \<Rightarrow> string list option" where
  "go_strings [] name ts = Some ts"
| "go_strings ((k, v) # kvs) name ts =
     (if to_lower k \<noteq> name then go_strings kvs name ts
      else case v of
          JUndef \<Rightarrow> go_strings kvs name ts
        | JNull \<Rightarrow> go_strings kvs name []
        | JNaN \<Rightarrow> go_strings kvs name []
        | JArr vs \<Rightarrow> (case map_option_list go_element vs of None \<Rightarrow> None | Some ts' \<Rightarrow> go_strings kvs name ts')
        | _ \<Rightarrow> None)"

fun go_pairs :: "(string \<times> jsval) list \<Rightarrow> (string \<times> string) list \<Rightarrow> (string \<times> string) list option" where
  "go_pairs [] m = Some m"
| "go_pairs ((k, v) # kvs) m =
     (if v = JUndef then go_pairs kvs m
      else case go_element v of None \<Rightarrow> None | Some s \<Rightarrow> go_pairs kvs (AList.update k s m))"

fun go_string_map :: "(string \<times> jsval) list \<Rightarrow> string \<Rightarrow> (string \<times> string) list \<Rightarrow> (string \<times> string) list option" where
  \<comment> \<open>a repeated object member is read into the same map\<close>
  "go_string_map [] name m = Some m"
| "go_string_map ((k, v) # kvs) name m =
     (if to_lower k \<noteq> name then go_string_map kvs name m
      else case v of
          JUndef \<Rightarrow> go_string_map kvs name m
        | JNull \<Rightarrow> go_string_map kvs name []
        | JNaN \<Rightarrow> go_string_map kvs name []
        | JObj ms \<Rightarrow> (case go_pairs ms m of None \<Rightarrow> None | Some m' \<Rightarrow> go_string_map kvs name m')
        | _ \<Rightarrow> None)"

lemma go_pairs_distinct: "go_pairs kvs m = Some m' \<Longrightarrow> distinct (map fst m) \<Longrightarrow> distinct (map fst m')"
  by (induction kvs m rule: go_pairs.induct) (auto simp: distinct_update split: if_splits option.splits)

lemma go_string_map_distinct:
  "go_string_map kvs name m = Some m' \<Longrightarrow> distinct (map fst m) \<Longrightarrow> distinct (map fst m')"
  by (induction kvs name m rule: go_string_map.induct)
    (auto dest: go_pairs_distinct split: if_splits option.splits jsval.splits)

lemma lower_key: "to_lower ''value'' = ''value''"
  by code_simp

lemma order_set: "order_ok order \<Longrightarrow> finite S \<Longrightarrow> set (order S) = S"
  by (simp add: order_ok_def)

section \<open>Indices\<close>

lemma next_unat: "i \<noteq> - 1 \<Longrightarrow> unat (i + (1 :: 64 word)) = Suc (unat i)"
proof -
  assume "i \<noteq> - 1"
  then have "1 + i \<noteq> 0" by (metis add.inverse_unique)
  then show ?thesis by (simp add: unatSuc add.commute)
qed

lemma no_wrap: "Suc (unat i) < 2 ^ 64 \<Longrightarrow> i \<noteq> (- 1 :: 64 word)"
proof
  assume "Suc (unat i) < 2 ^ 64" and "i = - 1"
  moreover have "unat (- 1 :: 64 word) = 2 ^ 64 - 1" by (simp add: unsigned_minus_1_eq_mask mask_eq_exp_minus_1)
  ultimately show False by simp
qed

lemma next_index: "i \<noteq> - 1 \<Longrightarrow> j \<le> i \<Longrightarrow> j < i + (1 :: 64 word)"
  using next_unat [of i] by (simp add: word_less_nat_alt word_le_nat_alt)

section \<open>Keys in a path\<close>

definition plain_key :: "string \<Rightarrow> bool" where
  \<comment> \<open>keys that reach the server as they are written in the path\<close>
  "plain_key key \<longleftrightarrow> key \<noteq> [] \<and> key \<noteq> ''.'' \<and> key \<noteq> ''..''
     \<and> (\<forall>c \<in> set key. is_alnum c \<or> c \<in> {CHR ''-'', CHR ''_'', CHR ''.'', CHR ''~''})"

section \<open>One call on a server that answers\<close>

lemma server_call:
  assumes "srv (request_interceptor (w_store w) cfg) (w_server w) = (Some resp, s')" and "rs_status resp \<noteq> 401"
  shows "api_request srv cfg w =
    (if 200 \<le> rs_status resp \<and> rs_status resp < 300 then Inr resp else Inl (RequestFailed (Some (rs_status resp))),
     w\<lparr>w_server := s'\<rparr>)"
  by (rule api_request_plain) (simp_all add: send_def assms refreshable_def)

end
