(* ===== verification/Server_KV.thy ===== *)
theory Server_KV
  imports KV_Page Server_Base
begin

text \<open>
  The server's side of the key-value page: the in-memory store (internal/store/kv.go) and the
  handlers of \<open>/kv\<close> (internal/handlers/kv.go) of a standalone node, without persistence and
  watchers, each operation atomic as under its mutex. Indices are the 64-bit words of the
  source. Query parameters, authentication and logging are left out; the answer's request id
  and time too, which no caller reads. The store is an interpretation of the keyed store of theory
  Storage; the lemmas show that the calls of the client refine an abstract map, and that a
  compare-and-swap wins at most once.
\<close>

section \<open>The store\<close>

record kv_entry =
  ke_value :: string
  ke_modify :: "64 word"
  ke_create :: "64 word"
  ke_flags :: "64 word"

record kv_store =
  ks_data :: "string \<rightharpoonup> kv_entry"
  ks_index :: "64 word"

definition kv_new :: kv_store where
  "kv_new = \<lparr>ks_data = Map.empty, ks_index = 0\<rparr>"

definition kv_get :: "kv_store \<Rightarrow> string \<Rightarrow> string option" where
  "kv_get kv key = map_option ke_value (ks_data kv key)"

definition kv_get_entry :: "kv_store \<Rightarrow> string \<Rightarrow> kv_entry option" where
  "kv_get_entry kv key = ks_data kv key"

definition write_entry :: "string \<Rightarrow> (kv_entry option \<Rightarrow> 64 word) \<Rightarrow> string \<Rightarrow> kv_store \<Rightarrow> kv_store" where
  \<comment> \<open>the new entry of a key, with a new index; the creation index of an old one stays\<close>
  "write_entry key flags value kv =
     (let newIndex = ks_index kv + 1; old = ks_data kv key;
          entry = \<lparr>ke_value = value, ke_modify = newIndex,
                   ke_create = (case old of Some e \<Rightarrow> ke_create e | None \<Rightarrow> newIndex), ke_flags = flags old\<rparr>
      in \<lparr>ks_data = (ks_data kv)(key \<mapsto> entry), ks_index = newIndex\<rparr>)"

definition old_flags :: "kv_entry option \<Rightarrow> 64 word" where
  "old_flags old = (case old of Some e \<Rightarrow> ke_flags e | None \<Rightarrow> 0)"

definition kv_set :: "string \<Rightarrow> string \<Rightarrow> kv_store \<Rightarrow> kv_store" where
  "kv_set key value kv = write_entry key old_flags value kv"

definition kv_set_with_flags :: "string \<Rightarrow> string \<Rightarrow> 64 word \<Rightarrow> kv_store \<Rightarrow> kv_store" where
  "kv_set_with_flags key value flags kv = write_entry key (\<lambda>_. flags) value kv"

definition kv_set_cas :: "string \<Rightarrow> string \<Rightarrow> 64 word \<Rightarrow> kv_store \<Rightarrow> (store_error + 64 word) \<times> kv_store" where
  "kv_set_cas key value expectedIndex kv =
     (case ks_data kv key of
        None \<Rightarrow>
          if expectedIndex = 0 then (Inr (ks_index kv + 1), kv_set key value kv)
          else (Inl (Not_Found key), kv)
      | Some old \<Rightarrow>
          if expectedIndex = 0 then (Inl (CAS_Conflict key 0 (ke_modify old)), kv)
          else if ke_modify old \<noteq> expectedIndex then (Inl (CAS_Conflict key expectedIndex (ke_modify old)), kv)
          else (Inr (ks_index kv + 1), kv_set key value kv))"

definition kv_delete :: "string \<Rightarrow> kv_store \<Rightarrow> kv_store" where
  "kv_delete key kv = kv\<lparr>ks_data := (ks_data kv)(key := None)\<rparr>"

definition kv_delete_cas :: "string \<Rightarrow> 64 word \<Rightarrow> kv_store \<Rightarrow> (store_error + unit) \<times> kv_store" where
  "kv_delete_cas key expectedIndex kv =
     (case ks_data kv key of
        None \<Rightarrow> (Inl (Not_Found key), kv)
      | Some old \<Rightarrow>
          if ke_modify old \<noteq> expectedIndex then (Inl (CAS_Conflict key expectedIndex (ke_modify old)), kv)
          else (Inr (), kv_delete key kv))"

definition kv_keys :: "(string set \<Rightarrow> string list) \<Rightarrow> kv_store \<Rightarrow> string list" where
  "kv_keys order kv = order (dom (ks_data kv))"

interpretation server_store: keyed_store kv_get kv_set kv_delete
  by unfold_locales (auto simp: kv_get_def kv_set_def write_entry_def kv_delete_def Let_def)

section \<open>The handlers\<close>

definition handle_get :: "string \<Rightarrow> kv_store \<Rightarrow> response \<times> kv_store" where
  "handle_get key kv =
     (case kv_get kv key of
        None \<Rightarrow> (\<lparr>rs_status = 404, rs_data = error_body ''Not Found'' ''Key not found''\<rparr>, kv)
      | Some value \<Rightarrow> (\<lparr>rs_status = 200, rs_data = JObj [(''key'', JStr key), (''value'', JStr value)]\<rparr>, kv))"

definition parse_body :: "jsval \<Rightarrow> (string \<times> 64 word option \<times> 64 word) option" where
  \<comment> \<open>\<open>c.BodyParser\<close> into value, cas and flags\<close>
  "parse_body body =
     (case body_members body of
        Some kvs \<Rightarrow>
          (case (go_string kvs ''value'' [], go_uint kvs ''cas'' None True, go_uint kvs ''flags'' (Some 0) False) of
             (Some value, Some cas, Some (Some flags)) \<Rightarrow> Some (value, cas, flags)
           | _ \<Rightarrow> None)
      | None \<Rightarrow> None)"

definition set_done :: "string \<Rightarrow> 64 word \<Rightarrow> response" where
  "set_done key index = \<lparr>rs_status = 200,
     rs_data = JObj [(''message'', JStr ''key set''), (''key'', JStr key), (''modify_index'', json_word index)]\<rparr>"

definition handle_set :: "string \<Rightarrow> jsval \<Rightarrow> kv_store \<Rightarrow> response \<times> kv_store" where
  "handle_set key body kv =
     (case parse_body body of
        None \<Rightarrow> (\<lparr>rs_status = 400, rs_data = error_body ''Bad Request'' ''Invalid JSON body''\<rparr>, kv)
      | Some (value, Some cas, flags) \<Rightarrow>
          (case kv_set_cas key value cas kv of
             (Inr newIndex, kv') \<Rightarrow> (set_done key newIndex, kv')
           | (Inl (Not_Found k), kv') \<Rightarrow> (\<lparr>rs_status = 404, rs_data = error_body ''Not Found'' ''Key not found''\<rparr>, kv')
           | (Inl (CAS_Conflict k e c), kv') \<Rightarrow> (\<lparr>rs_status = 409, rs_data = error_body ''CAS conflict'' (error_text ''key'' (CAS_Conflict k e c))\<rparr>, kv'))
      | Some (value, None, flags) \<Rightarrow>
          (let kv' = (if 0 < flags then kv_set_with_flags key value flags kv else kv_set key value kv)
           in (set_done key (case kv_get_entry kv' key of Some e \<Rightarrow> ke_modify e | None \<Rightarrow> 0), kv')))"

definition handle_delete :: "string \<Rightarrow> kv_store \<Rightarrow> response \<times> kv_store" where
  "handle_delete key kv =
     (\<lparr>rs_status = 200, rs_data = JObj [(''message'', JStr ''key deleted''), (''key'', JStr key)]\<rparr>, kv_delete key kv)"

definition handle_list :: "(string set \<Rightarrow> string list) \<Rightarrow> kv_store \<Rightarrow> response \<times> kv_store" where
  "handle_list order kv = (\<lparr>rs_status = 200, rs_data = JArr (map JStr (kv_keys order kv))\<rparr>, kv)"

definition url_key :: "string \<Rightarrow> string" where
  \<comment> \<open>the path below \<open>/kv/\<close>, up to a query or a fragment\<close>
  "url_key url = takeWhile (\<lambda>c. c \<noteq> CHR ''?'' \<and> c \<noteq> CHR ''#'') (drop 4 url)"

definition kv_server :: "(string set \<Rightarrow> string list) \<Rightarrow> kv_store server" where
  \<comment> \<open>the routes of \<open>/kv\<close>\<close>
  "kv_server order rq kv =
     (let key = url_key (rq_url rq);
          (resp, kv') =
            (if \<not> starts_with (rq_url rq) ''/kv/'' then (\<lparr>rs_status = 404, rs_data = JNull\<rparr>, kv)
             else if rq_method rq = ''GET'' then (if key = [] then handle_list order kv else handle_get key kv)
             else if rq_method rq = ''PUT'' then handle_set key (rq_body rq) kv
             else if rq_method rq = ''DELETE'' then handle_delete key kv
             else (\<lparr>rs_status = 405, rs_data = JNull\<rparr>, kv))
      in (Some resp, kv'))"

section \<open>Indices\<close>

definition indices_ok :: "kv_store \<Rightarrow> bool" where
  "indices_ok kv \<longleftrightarrow> (\<forall>key e. ks_data kv key = Some e \<longrightarrow>
     0 < ke_create e \<and> ke_create e \<le> ke_modify e \<and> ke_modify e \<le> ks_index kv)
     \<and> (\<forall>k k' e e'. ks_data kv k = Some e \<and> ks_data kv k' = Some e' \<and> ke_modify e = ke_modify e' \<longrightarrow> k = k')
     \<and> finite (dom (ks_data kv))"

lemma write_entry_indices:
  assumes "indices_ok kv" and "ks_index kv \<noteq> - 1"
  shows "indices_ok (write_entry key f value kv)"
proof -
  have m: "ke_modify e < ks_index kv + 1" "ks_index kv < ks_index kv + 1" if "ks_data kv k = Some e" for k e
    using that assms next_index [OF assms(2)] by (auto simp: indices_ok_def)
  have z: "0 < ks_index kv + 1" by (rule le_less_trans [OF _ next_index [OF assms(2) order_refl]]) simp
  show ?thesis
    using assms(1) m z
    by (force simp: indices_ok_def write_entry_def Let_def split: option.splits if_splits)
qed

section \<open>Compare and swap\<close>

datatype kv_op =
    Op_Set string string
  | Op_Set_Flags string string "64 word"
  | Op_Set_CAS string string "64 word"
  | Op_Delete string
  | Op_Delete_CAS string "64 word"

fun kv_apply :: "kv_op \<Rightarrow> kv_store \<Rightarrow> kv_store" where
  "kv_apply (Op_Set k v) kv = kv_set k v kv"
| "kv_apply (Op_Set_Flags k v f) kv = kv_set_with_flags k v f kv"
| "kv_apply (Op_Set_CAS k v i) kv = snd (kv_set_cas k v i kv)"
| "kv_apply (Op_Delete k) kv = kv_delete k kv"
| "kv_apply (Op_Delete_CAS k i) kv = snd (kv_delete_cas k i kv)"

lemma kv_apply_cases:
  "kv_apply a kv = kv \<or> (\<exists>key f v. kv_apply a kv = write_entry key f v kv) \<or> (\<exists>key. kv_apply a kv = kv_delete key kv)"
  by (cases a) (auto simp: kv_set_def kv_set_with_flags_def kv_set_cas_def kv_delete_cas_def split: option.splits)

lemma kv_delete_indices: "indices_ok kv \<Longrightarrow> indices_ok (kv_delete key kv)"
  by (auto simp: indices_ok_def kv_delete_def split: if_splits)

lemma kv_apply_indices:
  assumes "indices_ok kv" and "ks_index kv \<noteq> - 1"
  shows "indices_ok (kv_apply a kv)"
  using assms kv_apply_cases [of a kv] by (auto simp: write_entry_indices kv_delete_indices)

definition newer :: "string \<Rightarrow> 64 word \<Rightarrow> kv_store \<Rightarrow> bool" where
  \<comment> \<open>no entry of the key is as old as the index\<close>
  "newer key i kv \<longleftrightarrow> i \<le> ks_index kv \<and> (\<forall>e. ks_data kv key = Some e \<longrightarrow> i < ke_modify e)"

lemma write_entry_newer:
  assumes "i \<le> ks_index kv" and "ks_index kv \<noteq> - 1" and "k = key \<or> newer key i kv"
  shows "newer key i (write_entry k f v kv)"
proof -
  have "i < ks_index kv + 1" using next_index [OF assms(2,1)] .
  then show ?thesis using assms(3) by (auto simp: newer_def write_entry_def Let_def)
qed

lemma kv_apply_newer:
  assumes "newer key i kv" and "ks_index kv \<noteq> - 1"
  shows "newer key i (kv_apply a kv)"
proof -
  have "newer key i (write_entry k f v kv)" for k f v
    using assms by (intro write_entry_newer) (auto simp: newer_def)
  moreover have "newer key i (kv_delete k kv)" for k using assms(1) by (simp add: newer_def kv_delete_def)
  ultimately show ?thesis using kv_apply_cases [of a kv] assms(1) by auto
qed

lemma kv_apply_index:
  assumes "ks_index kv \<noteq> - 1"
  shows "unat (ks_index (kv_apply a kv)) \<le> Suc (unat (ks_index kv))"
proof -
  have "unat (ks_index kv + 1) = Suc (unat (ks_index kv))" using next_unat [OF assms] .
  then show ?thesis
    using kv_apply_cases [of a kv] by (auto simp: write_entry_def Let_def kv_delete_def)
qed

lemma ops_newer:
  assumes "newer key i kv" and "unat (ks_index kv) + length ops < 2 ^ 64"
  shows "newer key i (fold kv_apply ops kv)"
  using assms
proof (induction ops arbitrary: kv)
  case (Cons a ops)
  have n: "ks_index kv \<noteq> - 1" using Cons.prems(2) by (intro no_wrap) simp
  with kv_apply_index [OF n, of a] Cons.prems show ?case
    by (auto intro!: Cons.IH kv_apply_newer)
qed simp

lemma newer_no_cas:
  assumes "newer key i kv" and "i \<noteq> 0"
  shows "\<exists>e. fst (kv_set_cas key v i kv) = Inl e" and "\<exists>e. fst (kv_delete_cas key i kv) = Inl e"
    and "kv_apply (Op_Set_CAS key v i) kv = kv"
  using assms by (auto simp: newer_def kv_set_cas_def kv_delete_cas_def split: option.splits)



section \<open>The client's calls on this server\<close>

definition kv_abs :: "kv_store world \<Rightarrow> string \<Rightarrow> string option" where
  "kv_abs w = kv_get (w_server w)"

definition client_put :: "(string set \<Rightarrow> string list) \<Rightarrow> string \<Rightarrow> string \<Rightarrow> kv_store world \<Rightarrow> kv_store world" where
  "client_put order k v w = snd (setKV (kv_server order) (JStr k) (JStr v) w)"

definition client_del :: "(string set \<Rightarrow> string list) \<Rightarrow> string \<Rightarrow> kv_store world \<Rightarrow> kv_store world" where
  "client_del order k w = snd (deleteKV (kv_server order) (JStr k) w)"

lemma url_key_plain: "plain_key key \<Longrightarrow> url_key (''/kv/'' @ key) = key"
proof -
  assume "plain_key key"
  then have "\<forall>c \<in> set key. c \<noteq> CHR ''?'' \<and> c \<noteq> CHR ''#''" by (auto simp: plain_key_def is_alnum_def is_digit_def code_def)
  then show ?thesis by (simp add: url_key_def takeWhile_eq_all_conv)
qed

lemmas kv_call = server_call [of "kv_server order" for order]

lemma parse_body_value: "parse_body (JObj [(''value'', JStr v)]) = Some (v, None, 0)"
  by (simp add: parse_body_def body_members_def lower_key)

lemma setKV_server:
  assumes "plain_key k"
  shows "setKV (kv_server order) (JStr k) (JStr v) w = (Inr (), w\<lparr>w_server := kv_set k v (w_server w)\<rparr>)"
proof -
  have "kv_server order (request_interceptor (w_store w) (mk_request ''PUT'' (''/kv/'' @ k) (JObj [(''value'', JStr v)]))) (w_server w)
     = (Some (set_done k (ks_index (w_server w) + 1)), kv_set k v (w_server w))"
    using url_key_plain [OF assms]
    by (simp add: kv_server_def mk_request_def starts_with_def handle_set_def parse_body_value
        kv_get_entry_def kv_set_def write_entry_def Let_def)
  from kv_call [OF this] show ?thesis
    by (simp add: setKV_def api_put_def void_def set_done_def)
qed

lemma deleteKV_server:
  assumes "plain_key k"
  shows "deleteKV (kv_server order) (JStr k) w = (Inr (), w\<lparr>w_server := kv_delete k (w_server w)\<rparr>)"
proof -
  have "kv_server order (request_interceptor (w_store w) (mk_request ''DELETE'' (''/kv/'' @ k) JUndef)) (w_server w)
     = (Some (fst (handle_delete k (w_server w))), kv_delete k (w_server w))"
    using url_key_plain [OF assms]
    by (simp add: kv_server_def mk_request_def starts_with_def handle_delete_def Let_def)
  from kv_call [OF this] show ?thesis
    by (simp add: deleteKV_def api_delete_def void_def handle_delete_def)
qed

definition wrapped :: "string \<Rightarrow> string \<Rightarrow> jsval" where
  \<comment> \<open>what the server answers for a key, and the client takes for its value\<close>
  "wrapped key value = JObj [(''key'', JStr key), (''value'', JStr value)]"

lemma get_server:
  assumes "plain_key k"
  shows "api_get (kv_server order) (''/kv/'' @ k) w =
    (case kv_abs w k of None \<Rightarrow> Inl (RequestFailed (Some 404)) | Some v \<Rightarrow> Inr \<lparr>rs_status = 200, rs_data = wrapped k v\<rparr>, w)"
proof -
  have "kv_server order (request_interceptor (w_store w) (mk_request ''GET'' (''/kv/'' @ k) JUndef)) (w_server w)
     = (Some (fst (handle_get k (w_server w))), w_server w)"
    using url_key_plain [OF assms] assms
    by (simp add: kv_server_def mk_request_def starts_with_def handle_get_def plain_key_def Let_def split: option.splits)
  from kv_call [OF this] show ?thesis
    by (simp add: api_get_def handle_get_def kv_abs_def wrapped_def split: option.splits)
qed

section \<open>The client refines an abstract map\<close>

definition kv_spec :: "(string, string) store_op list \<Rightarrow> (string \<rightharpoonup> string) \<Rightarrow> string \<rightharpoonup> string" where
  "kv_spec = run_ops (\<lambda>k v m. m(k \<mapsto> v)) (\<lambda>k m. m(k := None))"

interpretation abstract_map: keyed_store "\<lambda>m. m" "\<lambda>k v m. m(k \<mapsto> v)" "\<lambda>k m. m(k := None)"
  by unfold_locales auto

lemma run_ops_server:
  "\<forall>a \<in> set ops. plain_key (op_key a) \<Longrightarrow>
   run_ops (client_put order) (client_del order) ops w = w\<lparr>w_server := run_ops kv_set kv_delete ops (w_server w)\<rparr>"
proof (induction ops arbitrary: w)
  case (Cons a ops)
  have "run_op (client_put order) (client_del order) a w = w\<lparr>w_server := run_op kv_set kv_delete a (w_server w)\<rparr>"
    using Cons.prems by (cases a) (simp_all add: client_put_def client_del_def setKV_server deleteKV_server)
  then show ?case using Cons.IH [of "w\<lparr>w_server := run_op kv_set kv_delete a (w_server w)\<rparr>"] Cons.prems
    by (simp add: run_ops_def)
qed (simp add: run_ops_def)

lemma run_ops_spec: "kv_get (run_ops kv_set kv_delete ops kv) = kv_spec ops (kv_get kv)"
  by (rule ext) (simp add: server_store.get_ops kv_spec_def abstract_map.get_ops)



lemma list_server:
  "api_get (kv_server order) ''/kv/'' w = (Inr \<lparr>rs_status = 200, rs_data = JArr (map JStr (kv_keys order (w_server w)))\<rparr>, w)"
proof -
  have "kv_server order (request_interceptor (w_store w) (mk_request ''GET'' ''/kv/'' JUndef)) (w_server w)
     = (Some (fst (handle_list order (w_server w))), w_server w)"
    by (simp add: kv_server_def mk_request_def starts_with_def url_key_def handle_list_def)
  from kv_call [OF this] show ?thesis by (simp add: api_get_def handle_list_def)
qed

lemma fetch_pairs_server:
  "\<forall>k \<in> set ks. plain_key k \<and> (\<exists>v. kv_abs w k = Some v) \<Longrightarrow>
   fetch_pairs (kv_server order) (map JStr ks) w = (map (\<lambda>k. kv_pair (JStr k) (wrapped k (the (kv_abs w k)))) ks, w)"
  by (induction ks) (auto simp: get_server [simplified append_Cons append_Nil] Let_def)



end
