(* ===== verification/Service_Index.thy ===== *)
theory Service_Index
  imports Prelude
begin

text \<open>
  The two secondary indexes of the service store (internal/store/service_index.go): from tags to
  the services that have them, and from metadata pairs to the services that carry them. Both are
  interpretations of one contract, the locale \<open>secondary_index\<close>: adding and removing a service
  under its keys, and no bucket kept empty. The locale's lemmas say that an index that agrees
  with a table of services still does after each update of one service.
\<close>

section \<open>The contract\<close>

definition carriers :: "(string \<Rightarrow> 'k list option) \<Rightarrow> 'k \<Rightarrow> string set" where
  \<comment> \<open>the services that have a key, by the table of what each has\<close>
  "carriers data k = {n. \<exists>ks. data n = Some ks \<and> k \<in> set ks}"

definition index_agrees :: "('i \<Rightarrow> bool) \<Rightarrow> ('i \<Rightarrow> 'k \<Rightarrow> string set) \<Rightarrow> 'i \<Rightarrow> (string \<Rightarrow> 'k list option) \<Rightarrow> bool" where
  "index_agrees tidy members ix data \<longleftrightarrow> tidy ix \<and> (\<forall>k. members ix k = carriers data k)"

locale secondary_index =
  fixes tidy :: "'i \<Rightarrow> bool"
    and members :: "'i \<Rightarrow> 'k \<Rightarrow> string set"
    and add :: "string \<Rightarrow> 'k list \<Rightarrow> 'i \<Rightarrow> 'i"
    and remove :: "string \<Rightarrow> 'k list \<Rightarrow> 'i \<Rightarrow> 'i"
  assumes members_add: "members (add n ks ix) k = (if k \<in> set ks then insert n (members ix k) else members ix k)"
    and members_remove: "tidy ix \<Longrightarrow>
      members (remove n ks ix) k = (if k \<in> set ks then members ix k - {n} else members ix k)"
    and tidy_add: "tidy ix \<Longrightarrow> distinct ks \<Longrightarrow> \<forall>k \<in> set ks. n \<notin> members ix k \<Longrightarrow> tidy (add n ks ix)"
    and tidy_remove: "tidy ix \<Longrightarrow> tidy (remove n ks ix)"
begin

lemma agrees_add:
  assumes "index_agrees tidy members ix data" and "data n = None" and "distinct ks"
  shows "index_agrees tidy members (add n ks ix) (data(n \<mapsto> ks))"
proof -
  have "\<forall>k. n \<notin> members ix k" using assms(1,2) by (simp add: index_agrees_def carriers_def)
  then have "tidy (add n ks ix)" using assms(1,3) by (intro tidy_add) (auto simp: index_agrees_def)
  moreover have "members (add n ks ix) k = carriers (data(n \<mapsto> ks)) k" for k
    using assms(1,2) by (auto simp: members_add index_agrees_def carriers_def)
  ultimately show ?thesis by (simp add: index_agrees_def)
qed

lemma agrees_remove:
  assumes "index_agrees tidy members ix data" and "data n = Some ks"
  shows "index_agrees tidy members (remove n ks ix) (data(n := None))"
proof -
  have "tidy ix" using assms(1) by (simp add: index_agrees_def)
  then have "members (remove n ks ix) k = carriers (data(n := None)) k" for k
    using assms by (auto simp: members_remove index_agrees_def carriers_def)
  with tidy_remove [OF \<open>tidy ix\<close>] show ?thesis by (simp add: index_agrees_def)
qed

lemma agrees_absent:
  "index_agrees tidy members ix data \<Longrightarrow> data n = None \<Longrightarrow> n \<notin> members ix k"
  by (simp add: index_agrees_def carriers_def)

end

section \<open>The index of the tags\<close>

type_synonym tag_index = "string \<rightharpoonup> string set"

definition addToTagIndex :: "string \<Rightarrow> string list \<Rightarrow> tag_index \<Rightarrow> tag_index" where
  "addToTagIndex serviceName tags ix =
     fold (\<lambda>tag ix. ix(tag \<mapsto> insert serviceName (case ix tag of None \<Rightarrow> {} | Some services \<Rightarrow> services))) tags ix"

definition remove_tag :: "string \<Rightarrow> string \<Rightarrow> tag_index \<Rightarrow> tag_index" where
  "remove_tag serviceName tag ix =
     (case ix tag of
        None \<Rightarrow> ix
      | Some services \<Rightarrow>
          (let rest = services - {serviceName} in if rest = {} then ix(tag := None) else ix(tag \<mapsto> rest)))"

definition removeFromTagIndex :: "string \<Rightarrow> string list \<Rightarrow> tag_index \<Rightarrow> tag_index" where
  "removeFromTagIndex serviceName tags ix = fold (remove_tag serviceName) tags ix"

definition tag_members :: "tag_index \<Rightarrow> string \<Rightarrow> string set" where
  "tag_members ix tag = (case ix tag of None \<Rightarrow> {} | Some services \<Rightarrow> services)"

definition tag_tidy :: "tag_index \<Rightarrow> bool" where
  "tag_tidy ix \<longleftrightarrow> (\<forall>tag. ix tag \<noteq> Some {})"

lemma tag_members_add: "tag_members (addToTagIndex n ts ix) t =
    (if t \<in> set ts then insert n (tag_members ix t) else tag_members ix t)"
  by (induction ts arbitrary: ix) (auto simp: addToTagIndex_def tag_members_def)

lemma tag_members_remove_tag:
  "tag_members (remove_tag n t ix) t' = (if t' = t then tag_members ix t - {n} else tag_members ix t')"
  by (auto simp: remove_tag_def tag_members_def Let_def split: option.split)

lemma tag_members_remove: "tag_members (removeFromTagIndex n ts ix) t =
    (if t \<in> set ts then tag_members ix t - {n} else tag_members ix t)"
  unfolding removeFromTagIndex_def
  by (induction ts arbitrary: ix) (auto simp: tag_members_remove_tag)

lemma tag_tidy_add: "tag_tidy ix \<Longrightarrow> tag_tidy (addToTagIndex n ts ix)"
  unfolding addToTagIndex_def by (induction ts arbitrary: ix) (auto simp: tag_tidy_def)

lemma tag_tidy_remove: "tag_tidy ix \<Longrightarrow> tag_tidy (removeFromTagIndex n ts ix)"
  unfolding removeFromTagIndex_def
proof (induction ts arbitrary: ix)
  case (Cons t ts)
  have "tag_tidy (remove_tag n t ix)"
    using Cons.prems by (auto simp: remove_tag_def tag_tidy_def Let_def split: option.split)
  then show ?case by (simp add: Cons.IH)
qed simp

interpretation tags: secondary_index tag_tidy tag_members addToTagIndex removeFromTagIndex
  by unfold_locales (simp_all add: tag_members_add tag_members_remove tag_tidy_add tag_tidy_remove)

section \<open>The index of the metadata\<close>

type_synonym meta_index = "string \<rightharpoonup> (string \<rightharpoonup> string list)"

definition add_meta :: "string \<Rightarrow> string \<times> string \<Rightarrow> meta_index \<Rightarrow> meta_index" where
  "add_meta serviceName kv ix =
     (case kv of (key, value) \<Rightarrow>
        let values = (case ix key of None \<Rightarrow> Map.empty | Some values \<Rightarrow> values);
            services = (case values value of None \<Rightarrow> [] | Some services \<Rightarrow> services)
        in ix(key \<mapsto> values(value \<mapsto> services @ [serviceName])))"

definition addToMetaIndex :: "string \<Rightarrow> (string \<times> string) list \<Rightarrow> meta_index \<Rightarrow> meta_index" where
  "addToMetaIndex serviceName meta ix = fold (add_meta serviceName) meta ix"

definition remove_meta :: "string \<Rightarrow> string \<times> string \<Rightarrow> meta_index \<Rightarrow> meta_index" where
  "remove_meta serviceName kv ix =
     (case kv of (key, value) \<Rightarrow>
        (case ix key of
           None \<Rightarrow> ix
         | Some values \<Rightarrow>
             (let values' =
                    (case values value of
                       None \<Rightarrow> values
                     | Some services \<Rightarrow>
                         (let rest = remove1 serviceName services
                          in if rest = [] then values(value := None) else values(value \<mapsto> rest)))
              in if values' = Map.empty then ix(key := None) else ix(key \<mapsto> values'))))"

definition removeFromMetaIndex :: "string \<Rightarrow> (string \<times> string) list \<Rightarrow> meta_index \<Rightarrow> meta_index" where
  "removeFromMetaIndex serviceName meta ix = fold (remove_meta serviceName) meta ix"

definition meta_list :: "meta_index \<Rightarrow> string \<times> string \<Rightarrow> string list" where
  "meta_list ix kv =
     (case ix (fst kv) of None \<Rightarrow> []
      | Some values \<Rightarrow> (case values (snd kv) of None \<Rightarrow> [] | Some services \<Rightarrow> services))"

definition meta_members :: "meta_index \<Rightarrow> string \<times> string \<Rightarrow> string set" where
  "meta_members ix kv = set (meta_list ix kv)"

definition meta_tidy :: "meta_index \<Rightarrow> bool" where
  \<comment> \<open>no empty map, no empty bucket, and no service twice in one\<close>
  "meta_tidy ix \<longleftrightarrow> (\<forall>key. ix key \<noteq> Some Map.empty)
     \<and> (\<forall>key values value. ix key = Some values \<longrightarrow> values value \<noteq> Some [])
     \<and> (\<forall>kv. distinct (meta_list ix kv))"

lemma meta_tidy_distinct: "meta_tidy ix \<Longrightarrow> distinct (meta_list ix kv)"
  unfolding meta_tidy_def by blast

lemma meta_list_add_meta:
  "meta_list (add_meta n kv ix) kv' = (if kv' = kv then meta_list ix kv @ [n] else meta_list ix kv')"
  by (cases kv; cases kv') (auto simp: add_meta_def meta_list_def Let_def split: option.splits)

lemma meta_list_remove_meta:
  "meta_list (remove_meta n kv ix) kv' = (if kv' = kv then remove1 n (meta_list ix kv) else meta_list ix kv')"
  by (cases kv; cases kv') (auto simp: remove_meta_def meta_list_def Let_def fun_eq_iff split: option.splits if_splits)

lemma meta_members_add: "meta_members (addToMetaIndex n kvs ix) kv =
    (if kv \<in> set kvs then insert n (meta_members ix kv) else meta_members ix kv)"
  unfolding addToMetaIndex_def meta_members_def
  by (induction kvs arbitrary: ix) (auto simp: meta_list_add_meta)

lemma meta_tidy_add_meta: "meta_tidy ix \<Longrightarrow> n \<notin> meta_members ix kv \<Longrightarrow> meta_tidy (add_meta n kv ix)"
proof -
  assume t: "meta_tidy ix" and n: "n \<notin> meta_members ix kv"
  have "distinct (meta_list (add_meta n kv ix) kv')" for kv'
    using meta_tidy_distinct [OF t] n by (simp add: meta_list_add_meta meta_members_def)
  moreover have "add_meta n kv ix key \<noteq> Some Map.empty" for key
    using t by (cases kv) (auto simp: add_meta_def meta_tidy_def Let_def)
  moreover have "add_meta n kv ix key = Some vs \<Longrightarrow> vs v \<noteq> Some []" for key vs v
    using t by (cases kv) (auto simp: add_meta_def meta_tidy_def Let_def split: if_splits option.splits)
  ultimately show ?thesis by (auto simp: meta_tidy_def)
qed

lemma meta_tidy_remove_meta: "meta_tidy ix \<Longrightarrow> meta_tidy (remove_meta n kv ix)"
proof -
  assume t: "meta_tidy ix"
  have "distinct (meta_list (remove_meta n kv ix) kv')" for kv'
    using meta_tidy_distinct [OF t] by (simp add: meta_list_remove_meta)
  moreover have "remove_meta n kv ix key \<noteq> Some Map.empty" for key
    using t by (cases kv) (auto simp: remove_meta_def meta_tidy_def Let_def split: if_splits option.splits)
  moreover have "remove_meta n kv ix key = Some vs \<Longrightarrow> vs v \<noteq> Some []" for key vs v
    using t by (cases kv) (auto simp: remove_meta_def meta_tidy_def Let_def split: if_splits option.splits)
  ultimately show ?thesis by (auto simp: meta_tidy_def)
qed

lemma meta_tidy_add: "meta_tidy ix \<Longrightarrow> distinct kvs \<Longrightarrow> \<forall>kv \<in> set kvs. n \<notin> meta_members ix kv \<Longrightarrow>
    meta_tidy (addToMetaIndex n kvs ix)"
  unfolding addToMetaIndex_def
proof (induction kvs arbitrary: ix)
  case (Cons kv kvs)
  then have "\<forall>kv' \<in> set kvs. n \<notin> meta_members (add_meta n kv ix) kv'"
    by (auto simp: meta_members_def meta_list_add_meta)
  with Cons show ?case by (simp add: meta_tidy_add_meta)
qed simp

lemma meta_remove:
  "meta_tidy ix \<Longrightarrow> meta_tidy (removeFromMetaIndex n kvs ix)
     \<and> meta_members (removeFromMetaIndex n kvs ix) kv = (if kv \<in> set kvs then meta_members ix kv - {n} else meta_members ix kv)"
  unfolding removeFromMetaIndex_def
proof (induction kvs arbitrary: ix)
  case (Cons kv' kvs)
  have "meta_members (remove_meta n kv' ix) kv = (if kv = kv' then meta_members ix kv - {n} else meta_members ix kv)"
    using meta_tidy_distinct [OF Cons.prems] by (simp add: meta_members_def meta_list_remove_meta)
  with Cons.IH [OF meta_tidy_remove_meta [OF Cons.prems, of n kv']] show ?case by auto
qed simp

interpretation metas: secondary_index meta_tidy meta_members addToMetaIndex removeFromMetaIndex
  by unfold_locales (simp_all add: meta_members_add meta_tidy_add meta_remove)

end
