(* ===== verification/Server_Services.thy ===== *)
theory Server_Services
  imports Service_Index Server_Base
begin

text \<open>
  The service store of the server (internal/store/service.go, service_query.go, validation.go):
  services under their names, each alive until a time of its own, with the two indexes of
  theory Service_Index kept beside them. The time of an operation is its argument \<open>now\<close>, in
  nanoseconds; each operation is atomic, as under the mutex of the source. Persistence and the
  health checks of a service are left out. A Go map of metadata is given by its entries in
  some order, each key once. The lemmas show that the indexes always agree with the services,
  that queries answered through them are the plain search, and how long a service lives.
\<close>

section \<open>Services and their validation\<close>

record service =
  svc_name :: string
  svc_address :: string
  svc_port :: int
  svc_tags :: "string list"
  svc_meta :: "(string \<times> string) list"

definition tag_char :: "char \<Rightarrow> bool" where
  "tag_char c \<longleftrightarrow> is_alnum c \<or> c \<in> {CHR ''-'', CHR ''_'', CHR '':'', CHR ''.'', CHR ''/''}"

definition tagFormatRegex :: "string \<Rightarrow> bool" where
  "tagFormatRegex tag \<longleftrightarrow> tag \<noteq> [] \<and> list_all tag_char tag"

definition metadataKeyFormatRegex :: "string \<Rightarrow> bool" where
  "metadataKeyFormatRegex key \<longleftrightarrow>
     key \<noteq> [] \<and> list_all (\<lambda>c. is_alnum c \<or> c \<in> {CHR ''-'', CHR ''_''}) key"

fun check_tags :: "string list \<Rightarrow> string list \<Rightarrow> string option" where
  \<comment> \<open>the loop of \<open>ValidateTags\<close>, with the tags seen so far\<close>
  "check_tags seen [] = None"
| "check_tags seen (tag # tags) =
     (if tag = [] then Some ''empty tag not allowed''
      else if 255 < length tag then Some (''tag too long: '' @ nat_str (length tag) @ '' chars (max 255)'')
      else if \<not> tagFormatRegex tag
           then Some (''invalid tag format: '' @ tag @ '' (allowed: alphanumeric, -, _, :, ., /)'')
      else if tag \<in> set seen then Some (''duplicate tag: '' @ tag)
      else check_tags (tag # seen) tags)"

definition ValidateTags :: "string list \<Rightarrow> string option" where
  "ValidateTags tags =
     (if 64 < length tags then Some (''too many tags: '' @ nat_str (length tags) @ '' (max 64)'')
      else check_tags [] tags)"

definition isReservedMetadataKey :: "string \<Rightarrow> bool" where
  "isReservedMetadataKey key \<longleftrightarrow> list_ex (starts_with key) [''konsul_'', ''_'']"

fun check_meta :: "(string \<times> string) list \<Rightarrow> string option" where
  "check_meta [] = None"
| "check_meta ((key, v) # meta) =
     (if key = [] then Some ''empty metadata key not allowed''
      else if 128 < length key
           then Some (''metadata key too long: '' @ key @ '' ('' @ nat_str (length key) @ '' chars, max 128)'')
      else if 512 < length v
           then Some (''metadata value too long for key '' @ key @ '': '' @ nat_str (length v) @ '' chars (max 512)'')
      else if \<not> metadataKeyFormatRegex key
           then Some (''invalid metadata key format: '' @ key @ '' (allowed: alphanumeric, -, _)'')
      else if isReservedMetadataKey key then Some (''reserved metadata key: '' @ key)
      else check_meta meta)"

definition ValidateMetadata :: "(string \<times> string) list \<Rightarrow> string option" where
  "ValidateMetadata meta =
     (if 64 < length meta then Some (''too many metadata keys: '' @ nat_str (length meta) @ '' (max 64)'')
      else check_meta meta)"

definition ValidateService :: "service \<Rightarrow> string option" where
  "ValidateService s =
     (if svc_name s = [] then Some ''service name is required''
      else if svc_address s = [] then Some ''service address is required''
      else if svc_port s = 0 then Some ''service port is required''
      else if svc_port s < 1 \<or> 65535 < svc_port s then Some ''service port must be between 1 and 65535''
      else case ValidateTags (svc_tags s) of
          Some err \<Rightarrow> Some (''tag validation failed: '' @ err)
        | None \<Rightarrow>
            (case ValidateMetadata (svc_meta s) of
               Some err \<Rightarrow> Some (''metadata validation failed: '' @ err)
             | None \<Rightarrow> None))"

section \<open>The store\<close>

record service_entry =
  se_service :: service
  se_expires :: int
  se_modify :: "64 word"
  se_create :: "64 word"

record registry =
  rg_data :: "string \<rightharpoonup> service_entry"
  rg_tags :: tag_index
  rg_meta :: meta_index
  rg_index :: "64 word"
  rg_ttl :: int

definition NewServiceStoreWithTTL :: "int \<Rightarrow> registry" where
  "NewServiceStoreWithTTL ttl =
     \<lparr>rg_data = Map.empty, rg_tags = Map.empty, rg_meta = Map.empty, rg_index = 0, rg_ttl = ttl\<rparr>"

definition unindex :: "string \<Rightarrow> registry \<Rightarrow> registry" where
  \<comment> \<open>remove the indexes of the service that is stored under a name\<close>
  "unindex name rg =
     (case rg_data rg name of
        None \<Rightarrow> rg
      | Some old \<Rightarrow> rg\<lparr>rg_tags := removeFromTagIndex name (svc_tags (se_service old)) (rg_tags rg),
                       rg_meta := removeFromMetaIndex name (svc_meta (se_service old)) (rg_meta rg)\<rparr>)"

definition put_service :: "int \<Rightarrow> service \<Rightarrow> registry \<Rightarrow> registry" where
  \<comment> \<open>the locked part of a registration\<close>
  "put_service now s rg =
     (let old = rg_data rg (svc_name s);
          rg1 = unindex (svc_name s) rg;
          newIndex = rg_index rg1 + 1;
          entry = \<lparr>se_service = s, se_expires = now + rg_ttl rg1, se_modify = newIndex,
                   se_create = (case old of Some e \<Rightarrow> se_create e | None \<Rightarrow> newIndex)\<rparr>
      in rg1\<lparr>rg_data := (rg_data rg1)(svc_name s \<mapsto> entry), rg_index := newIndex,
             rg_tags := addToTagIndex (svc_name s) (svc_tags s) (rg_tags rg1),
             rg_meta := addToMetaIndex (svc_name s) (svc_meta s) (rg_meta rg1)\<rparr>)"

definition drop_service :: "string \<Rightarrow> registry \<Rightarrow> registry" where
  "drop_service name rg = (unindex name rg)\<lparr>rg_data := (rg_data rg)(name := None)\<rparr>"

datatype register_error = Invalid_Service string | Refused store_error

definition registry_register :: "int \<Rightarrow> service \<Rightarrow> registry \<Rightarrow> (string + unit) \<times> registry" where
  "registry_register now s rg =
     (case ValidateService s of Some err \<Rightarrow> (Inl err, rg) | None \<Rightarrow> (Inr (), put_service now s rg))"

definition registry_register_cas ::
  "int \<Rightarrow> service \<Rightarrow> 64 word \<Rightarrow> registry \<Rightarrow> (register_error + 64 word) \<times> registry" where
  "registry_register_cas now s expectedIndex rg =
     (case ValidateService s of
        Some err \<Rightarrow> (Inl (Invalid_Service err), rg)
      | None \<Rightarrow>
          (let conflict = (\<lambda>old. Inl (Refused (CAS_Conflict (svc_name s) expectedIndex (se_modify old))));
               done = (Inr (rg_index rg + 1), put_service now s rg)
           in case rg_data rg (svc_name s) of
                None \<Rightarrow> if expectedIndex = 0 then done else (Inl (Refused (Not_Found (svc_name s))), rg)
              | Some old \<Rightarrow>
                  if expectedIndex = 0 \<or> se_modify old \<noteq> expectedIndex then (conflict old, rg) else done))"

definition registry_heartbeat :: "int \<Rightarrow> string \<Rightarrow> registry \<Rightarrow> bool \<times> registry" where
  "registry_heartbeat now name rg =
     (case rg_data rg name of
        None \<Rightarrow> (False, rg)
      | Some entry \<Rightarrow> (True, rg\<lparr>rg_data := (rg_data rg)(name \<mapsto> entry\<lparr>se_expires := now + rg_ttl rg\<rparr>)\<rparr>))"

definition registry_deregister :: "string \<Rightarrow> registry \<Rightarrow> registry" where
  "registry_deregister name rg = drop_service name rg"

definition registry_deregister_cas :: "string \<Rightarrow> 64 word \<Rightarrow> registry \<Rightarrow> (store_error + unit) \<times> registry" where
  "registry_deregister_cas name expectedIndex rg =
     (case rg_data rg name of
        None \<Rightarrow> (Inl (Not_Found name), rg)
      | Some entry \<Rightarrow>
          if se_modify entry \<noteq> expectedIndex then (Inl (CAS_Conflict name expectedIndex (se_modify entry)), rg)
          else (Inr (), drop_service name rg))"

definition expired :: "int \<Rightarrow> string \<Rightarrow> registry \<Rightarrow> bool" where
  "expired now name rg = (case rg_data rg name of None \<Rightarrow> False | Some e \<Rightarrow> se_expires e < now)"

definition registry_cleanup :: "(string set \<Rightarrow> string list) \<Rightarrow> int \<Rightarrow> registry \<Rightarrow> nat \<times> registry" where
  "registry_cleanup order now rg =
     fold (\<lambda>name (count, rg). if expired now name rg then (count + 1, drop_service name rg) else (count, rg))
       (order (dom (rg_data rg))) (0, rg)"

section \<open>Reading\<close>

definition unexpired :: "int \<Rightarrow> service_entry \<Rightarrow> bool" where
  "unexpired now e \<longleftrightarrow> now < se_expires e"

definition live_services :: "int \<Rightarrow> registry \<Rightarrow> string list \<Rightarrow> service list" where
  \<comment> \<open>of the names, in order, the services that are stored and not expired\<close>
  "live_services now rg names =
     concat (map (\<lambda>name. case rg_data rg name of
        Some e \<Rightarrow> if unexpired now e then [se_service e] else [] | None \<Rightarrow> []) names)"

definition registry_list :: "(string set \<Rightarrow> string list) \<Rightarrow> int \<Rightarrow> registry \<Rightarrow> service list" where
  "registry_list order now rg = live_services now rg (order (dom (rg_data rg)))"

definition registry_list_all :: "(string set \<Rightarrow> string list) \<Rightarrow> registry \<Rightarrow> service_entry list" where
  "registry_list_all order rg = map (\<lambda>name. the (rg_data rg name)) (order (dom (rg_data rg)))"

definition registry_get_entry :: "int \<Rightarrow> string \<Rightarrow> registry \<Rightarrow> service_entry option" where
  "registry_get_entry now name rg =
     (case rg_data rg name of None \<Rightarrow> None | Some e \<Rightarrow> if se_expires e < now then None else Some e)"

definition registry_get :: "int \<Rightarrow> string \<Rightarrow> registry \<Rightarrow> service option" where
  "registry_get now name rg = map_option se_service (registry_get_entry now name rg)"

section \<open>Queries\<close>

fun intersect_tags :: "tag_index \<Rightarrow> string list \<Rightarrow> string set \<Rightarrow> string set option" where
  "intersect_tags ix [] candidates = Some candidates"
| "intersect_tags ix (tag # tags) candidates =
     (case ix tag of
        Some services \<Rightarrow> intersect_tags ix tags (Set.filter (\<lambda>name. name \<in> services) candidates)
      | None \<Rightarrow> None)"

definition QueryByTags :: "(string set \<Rightarrow> string list) \<Rightarrow> int \<Rightarrow> string list \<Rightarrow> registry \<Rightarrow> service list" where
  "QueryByTags order now tags rg =
     (case tags of
        [] \<Rightarrow> registry_list order now rg
      | tag # rest \<Rightarrow>
          (case rg_tags rg tag of
             None \<Rightarrow> []
           | Some services \<Rightarrow>
               (case intersect_tags (rg_tags rg) rest services of
                  None \<Rightarrow> []
                | Some candidates \<Rightarrow> live_services now rg (sorted_list_of_set candidates))))"

definition meta_bucket :: "meta_index \<Rightarrow> string \<times> string \<Rightarrow> string list option" where
  "meta_bucket ix kv = (case ix (fst kv) of None \<Rightarrow> None | Some vs \<Rightarrow> vs (snd kv))"

fun intersect_meta :: "meta_index \<Rightarrow> string \<Rightarrow> (string \<times> string) list \<Rightarrow> string set \<Rightarrow> string set option" where
  "intersect_meta ix firstKey [] candidates = Some candidates"
| "intersect_meta ix firstKey (kv # filters) candidates =
     (if fst kv = firstKey then intersect_meta ix firstKey filters candidates
      else case meta_bucket ix kv of
          Some services \<Rightarrow>
            intersect_meta ix firstKey filters (Set.filter (\<lambda>name. name \<in> set services) candidates)
        | None \<Rightarrow> None)"

definition QueryByMetadata ::
  "(string set \<Rightarrow> string list) \<Rightarrow> int \<Rightarrow> (string \<times> string) list \<Rightarrow> registry \<Rightarrow> service list" where
  "QueryByMetadata order now filters rg =
     (case filters of
        [] \<Rightarrow> registry_list order now rg
      | kv # rest \<Rightarrow>
          (case meta_bucket (rg_meta rg) kv of
             None \<Rightarrow> []
           | Some services \<Rightarrow>
               (case intersect_meta (rg_meta rg) (fst kv) filters (set services) of
                  None \<Rightarrow> []
                | Some candidates \<Rightarrow> live_services now rg (sorted_list_of_set candidates))))"

definition QueryByTagsAndMetadata ::
  "(string set \<Rightarrow> string list) \<Rightarrow> int \<Rightarrow> string list \<Rightarrow> (string \<times> string) list \<Rightarrow> registry \<Rightarrow> service list" where
  \<comment> \<open>the source releases the lock between its two queries; here nothing happens in between\<close>
  "QueryByTagsAndMetadata order now tags meta rg =
     (if tags = [] \<and> meta = [] then registry_list order now rg
      else if meta = [] then QueryByTags order now tags rg
      else if tags = [] then QueryByMetadata order now meta rg
      else
        (let tagServices = QueryByTags order now tags rg
         in if tagServices = [] then []
            else
              (let metaServices = QueryByMetadata order now meta rg
               in if metaServices = [] then []
                  else sort_key svc_name
                         (filter (\<lambda>s. svc_name s \<in> set (map svc_name tagServices)) metaServices))))"

section \<open>The invariant of the store\<close>

definition tag_table :: "registry \<Rightarrow> string \<Rightarrow> string list option" where
  "tag_table rg n = map_option (\<lambda>e. svc_tags (se_service e)) (rg_data rg n)"

definition meta_table :: "registry \<Rightarrow> string \<Rightarrow> (string \<times> string) list option" where
  "meta_table rg n = map_option (\<lambda>e. svc_meta (se_service e)) (rg_data rg n)"

definition service_wf :: "service \<Rightarrow> bool" where
  \<comment> \<open>a metadata map has each key once\<close>
  "service_wf s \<longleftrightarrow> distinct (map fst (svc_meta s))"

definition registry_ok :: "registry \<Rightarrow> bool" where
  "registry_ok rg \<longleftrightarrow> finite (dom (rg_data rg))
     \<and> (\<forall>n e. rg_data rg n = Some e \<longrightarrow>
          svc_name (se_service e) = n \<and> ValidateService (se_service e) = None \<and> service_wf (se_service e))
     \<and> index_agrees tag_tidy tag_members (rg_tags rg) (tag_table rg)
     \<and> index_agrees meta_tidy meta_members (rg_meta rg) (meta_table rg)"

lemma check_tags_distinct: "check_tags seen tags = None \<Longrightarrow> distinct tags \<and> set tags \<inter> set seen = {}"
  by (induction seen tags rule: check_tags.induct) (auto split: if_splits)

lemma valid_tags_distinct: "ValidateService s = None \<Longrightarrow> distinct (svc_tags s)"
  by (auto simp: ValidateService_def ValidateTags_def dest: check_tags_distinct split: if_splits option.splits)

lemma unindex_fields [simp]:
  "rg_data (unindex n rg) = rg_data rg" "rg_index (unindex n rg) = rg_index rg" "rg_ttl (unindex n rg) = rg_ttl rg"
  by (simp_all add: unindex_def split: option.split)

lemma unindex_agrees:
  assumes "registry_ok rg"
  shows "index_agrees tag_tidy tag_members (rg_tags (unindex n rg)) ((tag_table rg)(n := None))"
    and "index_agrees meta_tidy meta_members (rg_meta (unindex n rg)) ((meta_table rg)(n := None))"
proof -
  have "index_agrees tag_tidy tag_members (rg_tags (unindex n rg)) ((tag_table rg)(n := None))
    \<and> index_agrees meta_tidy meta_members (rg_meta (unindex n rg)) ((meta_table rg)(n := None))"
  proof (cases "rg_data rg n")
    case None
    then have "(tag_table rg)(n := None) = tag_table rg" "(meta_table rg)(n := None) = meta_table rg"
      by (auto simp: tag_table_def meta_table_def)
    then show ?thesis using assms None by (simp add: unindex_def registry_ok_def)
  next
    case (Some e)
    then have "tag_table rg n = Some (svc_tags (se_service e))" "meta_table rg n = Some (svc_meta (se_service e))"
      by (simp_all add: tag_table_def meta_table_def)
    with Some tags.agrees_remove metas.agrees_remove assms show ?thesis
      by (simp add: unindex_def registry_ok_def)
  qed
  then show "index_agrees tag_tidy tag_members (rg_tags (unindex n rg)) ((tag_table rg)(n := None))"
    and "index_agrees meta_tidy meta_members (rg_meta (unindex n rg)) ((meta_table rg)(n := None))" by auto
qed

lemma drop_service_ok:
  assumes "registry_ok rg"
  shows "registry_ok (drop_service n rg)"
proof -
  have "tag_table (drop_service n rg) = (tag_table rg)(n := None)"
    "meta_table (drop_service n rg) = (meta_table rg)(n := None)"
    by (auto simp: tag_table_def meta_table_def drop_service_def)
  with unindex_agrees [OF assms] assms show ?thesis
    by (auto simp: registry_ok_def drop_service_def)
qed

lemma put_service_ok:
  assumes "registry_ok rg" and "ValidateService s = None" and "service_wf s"
  shows "registry_ok (put_service now s rg)"
proof -
  let ?n = "svc_name s" and ?rg = "put_service now s rg"
  have "tag_table ?rg = ((tag_table rg)(?n := None))(?n \<mapsto> svc_tags s)"
    "meta_table ?rg = ((meta_table rg)(?n := None))(?n \<mapsto> svc_meta s)"
    by (auto simp: tag_table_def meta_table_def put_service_def Let_def)
  moreover have "distinct (svc_meta s)" using assms(3) by (simp add: service_wf_def distinct_map)
  ultimately have "index_agrees tag_tidy tag_members (rg_tags ?rg) (tag_table ?rg)"
    "index_agrees meta_tidy meta_members (rg_meta ?rg) (meta_table ?rg)"
    using tags.agrees_add [OF unindex_agrees(1) [OF assms(1)] _ valid_tags_distinct [OF assms(2)], of ?n ?n]
      metas.agrees_add [OF unindex_agrees(2) [OF assms(1)], of ?n ?n "svc_meta s"]
    by (simp_all add: put_service_def Let_def)
  with assms show ?thesis by (auto simp: registry_ok_def put_service_def Let_def)
qed

lemma registry_heartbeat_ok: "registry_ok rg \<Longrightarrow> registry_ok (snd (registry_heartbeat now n rg))"
proof (cases "rg_data rg n")
  case (Some e)
  assume ok: "registry_ok rg"
  let ?rg = "snd (registry_heartbeat now n rg)"
  have "tag_table ?rg = tag_table rg" "meta_table ?rg = meta_table rg"
    using Some by (auto simp: tag_table_def meta_table_def registry_heartbeat_def)
  then show ?thesis using ok Some by (auto simp: registry_ok_def registry_heartbeat_def)
qed (simp add: registry_heartbeat_def)

lemma cleanup_fold_ok:
  "registry_ok rg \<Longrightarrow> registry_ok (snd (fold (\<lambda>name (count, rg). if expired now name rg
      then (count + 1, drop_service name rg) else (count, rg)) names (c, rg)))"
  by (induction names arbitrary: c rg) (auto simp: drop_service_ok)

section \<open>The machine\<close>

datatype registry_op =
    Op_Register service
  | Op_Register_CAS service "64 word"
  | Op_Heartbeat string
  | Op_Deregister string
  | Op_Deregister_CAS string "64 word"
  | Op_Cleanup "string set \<Rightarrow> string list"

fun registry_apply :: "int \<Rightarrow> registry_op \<Rightarrow> registry \<Rightarrow> registry" where
  "registry_apply now (Op_Register s) rg = snd (registry_register now s rg)"
| "registry_apply now (Op_Register_CAS s i) rg = snd (registry_register_cas now s i rg)"
| "registry_apply now (Op_Heartbeat n) rg = snd (registry_heartbeat now n rg)"
| "registry_apply now (Op_Deregister n) rg = registry_deregister n rg"
| "registry_apply now (Op_Deregister_CAS n i) rg = snd (registry_deregister_cas n i rg)"
| "registry_apply now (Op_Cleanup order) rg = snd (registry_cleanup order now rg)"

fun op_wf :: "registry_op \<Rightarrow> bool" where
  "op_wf (Op_Register s) \<longleftrightarrow> service_wf s"
| "op_wf (Op_Register_CAS s i) \<longleftrightarrow> service_wf s"
| "op_wf (Op_Cleanup order) \<longleftrightarrow> order_ok order"
| "op_wf _ \<longleftrightarrow> True"

inductive registry_step :: "registry \<Rightarrow> registry \<Rightarrow> bool" where
  "op_wf a \<Longrightarrow> registry_step rg (registry_apply now a rg)"

lemma registry_apply_ok: "registry_ok rg \<Longrightarrow> op_wf a \<Longrightarrow> registry_ok (registry_apply now a rg)"
proof (cases a)
  case (Op_Register_CAS s i)
  assume "registry_ok rg" and "op_wf a"
  with Op_Register_CAS show ?thesis
    by (auto simp: registry_register_cas_def Let_def put_service_ok split: option.splits)
next
  case (Op_Cleanup order)
  assume "registry_ok rg"
  with Op_Cleanup show ?thesis by (simp add: registry_cleanup_def cleanup_fold_ok)
qed (auto simp: registry_register_def registry_deregister_def registry_deregister_cas_def put_service_ok drop_service_ok registry_heartbeat_ok
      split: option.splits)

interpretation registry: invariant_system "\<lambda>rg. \<exists>ttl. rg = NewServiceStoreWithTTL ttl" registry_step registry_ok
proof unfold_locales
  fix rg
  assume "\<exists>ttl. rg = NewServiceStoreWithTTL ttl"
  then show "registry_ok rg"
    by (auto simp: NewServiceStoreWithTTL_def registry_ok_def index_agrees_def carriers_def tag_table_def meta_table_def
        tag_tidy_def tag_members_def meta_tidy_def meta_members_def meta_list_def)
next
  fix rg rg'
  assume "registry_step rg rg'" and "registry_ok rg"
  then show "registry_ok rg'" by (auto elim!: registry_step.cases simp: registry_apply_ok)
qed

section \<open>Queries are searches\<close>

definition has_tags :: "string list \<Rightarrow> service \<Rightarrow> bool" where
  "has_tags ts s \<longleftrightarrow> set ts \<subseteq> set (svc_tags s)"

definition has_meta :: "(string \<times> string) list \<Rightarrow> service \<Rightarrow> bool" where
  "has_meta kvs s \<longleftrightarrow> set kvs \<subseteq> set (svc_meta s)"

definition by_name :: "int \<Rightarrow> registry \<Rightarrow> service list" where
  \<comment> \<open>the living services in the order of their names\<close>
  "by_name now rg = registry_list sorted_list_of_set now rg"

lemma filter_sorted_set:
  "finite A \<Longrightarrow> filter P (sorted_list_of_set A) = sorted_list_of_set {x \<in> A. P x}"
  for A :: "'a :: linorder set"
  by (rule sorted_distinct_set_unique) (auto simp: sorted_wrt_filter)

lemma live_services_filter:
  "\<forall>n \<in> set names. \<forall>e. rg_data rg n = Some e \<longrightarrow> p (se_service e) = P n \<Longrightarrow>
   filter p (live_services now rg names) = live_services now rg (filter P names)"
  by (induction names) (auto simp: live_services_def split: option.split)

lemma live_candidates:
  assumes "registry_ok rg" and "C = {n. \<exists>e. rg_data rg n = Some e \<and> p (se_service e)}"
  shows "live_services now rg (sorted_list_of_set C) = filter p (by_name now rg)"
proof -
  have fin: "finite (dom (rg_data rg))" using assms(1) by (simp add: registry_ok_def)
  have "C = {n \<in> dom (rg_data rg). n \<in> C}" using assms(2) by auto
  then have "sorted_list_of_set C = filter (\<lambda>n. n \<in> C) (sorted_list_of_set (dom (rg_data rg)))"
    using filter_sorted_set [OF fin] by metis
  then show ?thesis
    unfolding by_name_def registry_list_def using assms(2)
    by (subst live_services_filter [where P = "\<lambda>n. n \<in> C"]) auto
qed

lemma intersect_tags_set:
  "intersect_tags ix tags C = Some D \<Longrightarrow> D = {n \<in> C. \<forall>t \<in> set tags. n \<in> tag_members ix t}"
  by (induction ix tags C rule: intersect_tags.induct) (auto simp: tag_members_def split: option.splits)

lemma intersect_tags_none:
  "intersect_tags ix tags C = None \<Longrightarrow> \<exists>t \<in> set tags. tag_members ix t = {}"
  by (induction ix tags C rule: intersect_tags.induct) (auto simp: tag_members_def split: option.splits)

lemma intersect_meta_set:
  "intersect_meta ix k kvs C = Some D \<Longrightarrow>
   D = {n \<in> C. \<forall>kv \<in> set kvs. fst kv \<noteq> k \<longrightarrow> n \<in> meta_members ix kv}"
  by (induction ix k kvs C rule: intersect_meta.induct)
    (auto simp: meta_members_def meta_list_def meta_bucket_def split: option.splits if_splits)

lemma intersect_meta_none:
  "intersect_meta ix k kvs C = None \<Longrightarrow> \<exists>kv \<in> set kvs. meta_members ix kv = {}"
  by (induction ix k kvs C rule: intersect_meta.induct)
    (auto simp: meta_members_def meta_list_def meta_bucket_def split: option.splits if_splits)

lemma registry_members:
  assumes "registry_ok rg"
  shows "tag_members (rg_tags rg) t = {n. \<exists>e. rg_data rg n = Some e \<and> t \<in> set (svc_tags (se_service e))}"
    and "meta_members (rg_meta rg) kv = {n. \<exists>e. rg_data rg n = Some e \<and> kv \<in> set (svc_meta (se_service e))}"
  using assms by (auto simp only: registry_ok_def index_agrees_def carriers_def tag_table_def meta_table_def map_option_eq_Some)

lemma no_carrier:
  assumes "registry_ok rg" and "\<forall>n e. rg_data rg n = Some e \<longrightarrow> \<not> p (se_service e)"
  shows "filter p (by_name now rg) = []"
  using live_candidates [OF assms(1), of "{}" p now] assms(2) by (simp add: live_services_def)

lemma QueryByTags_search:
  assumes "registry_ok rg" and "tags \<noteq> []"
  shows "QueryByTags order now tags rg = filter (has_tags tags) (by_name now rg)"
proof -
  obtain t ts where tags: "tags = t # ts" using assms(2) by (cases tags) auto
  note m = registry_members(1) [OF assms(1)]
  show ?thesis
  proof (cases "(\<exists>t' \<in> set tags. tag_members (rg_tags rg) t' = {})")
    case True
    then have none: "filter (has_tags tags) (by_name now rg) = []"
      by (intro no_carrier [OF assms(1)]) (auto simp: m has_tags_def)
    have "live_services now rg (sorted_list_of_set D) = []"
      if "rg_tags rg t = Some S" "intersect_tags (rg_tags rg) ts S = Some D" for S D
    proof -
      have "D = {}" using True intersect_tags_set [OF that(2)] that(1) by (auto simp: tags tag_members_def)
      then show ?thesis by (simp add: live_services_def)
    qed
    then show ?thesis
      unfolding none by (cases "rg_tags rg t"; cases "intersect_tags (rg_tags rg) ts (the (rg_tags rg t))")
        (simp_all add: QueryByTags_def tags)
  next
    case False
    then obtain S where S: "rg_tags rg t = Some S" by (cases "rg_tags rg t") (auto simp: tags tag_members_def)
    from False obtain D where D: "intersect_tags (rg_tags rg) ts S = Some D"
      using intersect_tags_none [of "rg_tags rg" ts S] by (cases "intersect_tags (rg_tags rg) ts S") (auto simp: tags)
    have "S = tag_members (rg_tags rg) t" by (simp add: tag_members_def S)
    then have "D = {n. \<forall>t' \<in> set tags. n \<in> tag_members (rg_tags rg) t'}"
      using intersect_tags_set [OF D] by (auto simp: tags)
    then have "D = {n. \<exists>e. rg_data rg n = Some e \<and> has_tags tags (se_service e)}"
      by (auto simp: m has_tags_def tags)
    from live_candidates [OF assms(1) this] show ?thesis by (simp add: QueryByTags_def tags S D)
  qed
qed

lemma QueryByMetadata_search:
  assumes "registry_ok rg" and "kvs \<noteq> []" and "distinct (map fst kvs)"
  shows "QueryByMetadata order now kvs rg = filter (has_meta kvs) (by_name now rg)"
proof -
  obtain kv rest where kvs: "kvs = kv # rest" using assms(2) by (cases kvs) auto
  have first: "kv' = kv" if "kv' \<in> set kvs" "fst kv' = fst kv" for kv'
    using that assms(3) by (auto simp: kvs intro: rev_image_eqI)
  note m = registry_members(2) [OF assms(1)]
  have bucket: "meta_members (rg_meta rg) kv = (case meta_bucket (rg_meta rg) kv of None \<Rightarrow> {} | Some l \<Rightarrow> set l)"
    by (auto simp: meta_members_def meta_list_def meta_bucket_def split: option.split)
  have D: "D = {n. \<forall>kv' \<in> set kvs. n \<in> meta_members (rg_meta rg) kv'}"
    if "meta_bucket (rg_meta rg) kv = Some S" "intersect_meta (rg_meta rg) (fst kv) kvs (set S) = Some D" for S D
    using intersect_meta_set [OF that(2)] that(1) bucket first by (auto simp: kvs)
  show ?thesis
  proof (cases "\<exists>kv' \<in> set kvs. meta_members (rg_meta rg) kv' = {}")
    case True
    then have none: "filter (has_meta kvs) (by_name now rg) = []"
      by (intro no_carrier [OF assms(1)]) (auto simp: m has_meta_def)
    have "live_services now rg (sorted_list_of_set D) = []"
      if "meta_bucket (rg_meta rg) kv = Some S" "intersect_meta (rg_meta rg) (fst kv) kvs (set S) = Some D" for S D
    proof -
      have "D = {}" using True D [OF that] by auto
      then show ?thesis by (simp add: live_services_def)
    qed
    then show ?thesis
      unfolding none
      by (cases "meta_bucket (rg_meta rg) kv";
          cases "intersect_meta (rg_meta rg) (fst kv) kvs (set (the (meta_bucket (rg_meta rg) kv)))")
        (simp_all add: QueryByMetadata_def kvs)
  next
    case False
    then obtain S where S: "meta_bucket (rg_meta rg) kv = Some S"
      using bucket by (cases "meta_bucket (rg_meta rg) kv") (auto simp: kvs)
    from False obtain E where E: "intersect_meta (rg_meta rg) (fst kv) kvs (set S) = Some E"
      using intersect_meta_none [of "rg_meta rg" "fst kv" kvs "set S"]
      by (cases "intersect_meta (rg_meta rg) (fst kv) kvs (set S)") auto
    have "E = {n. \<exists>e. rg_data rg n = Some e \<and> has_meta kvs (se_service e)}"
      unfolding D [OF S E] by (auto simp: m has_meta_def kvs)
    from live_candidates [OF assms(1) this] show ?thesis using S E by (simp add: QueryByMetadata_def kvs)
  qed
qed

lemma by_name_names:
  assumes "registry_ok rg"
  shows "map svc_name (by_name now rg) =
    filter (\<lambda>n. \<exists>e. rg_data rg n = Some e \<and> unexpired now e) (sorted_list_of_set (dom (rg_data rg)))"
proof -
  have "map svc_name (live_services now rg names) = filter (\<lambda>n. \<exists>e. rg_data rg n = Some e \<and> unexpired now e) names" for names
    using assms by (induction names) (auto simp: live_services_def registry_ok_def split: option.split)
  then show ?thesis by (simp add: by_name_def registry_list_def)
qed

lemma by_name_sorted:
  assumes "registry_ok rg"
  shows "sorted (map svc_name (by_name now rg))" and "distinct (map svc_name (by_name now rg))"
  using by_name_names [OF assms] by (simp_all add: sorted_wrt_filter)

lemma sorted_map_filter: "sorted (map f xs) \<Longrightarrow> sorted (map f (filter P xs))"
  by (induction xs) auto

lemma queries_search:
  assumes "registry_ok rg" and "distinct (map fst kvs)" and "ts \<noteq> [] \<or> kvs \<noteq> []"
  shows "QueryByTagsAndMetadata order now ts kvs rg =
      filter (\<lambda>s. has_tags ts s \<and> has_meta kvs s) (by_name now rg)
    \<and> (ts \<noteq> [] \<longrightarrow> QueryByTags order now ts rg = filter (has_tags ts) (by_name now rg))
    \<and> (kvs \<noteq> [] \<longrightarrow> QueryByMetadata order now kvs rg = filter (has_meta kvs) (by_name now rg))"
proof -
  note ok = assms(1)
  let ?L = "by_name now rg"
  have t: "ts \<noteq> [] \<Longrightarrow> QueryByTags order now ts rg = filter (has_tags ts) ?L"
    and m: "kvs \<noteq> [] \<Longrightarrow> QueryByMetadata order now kvs rg = filter (has_meta kvs) ?L"
    using QueryByTags_search [OF ok] QueryByMetadata_search [OF ok _ assms(2)] by auto
  have same: "s \<in> set ?L \<Longrightarrow> (svc_name s \<in> svc_name ` set (filter (has_tags ts) ?L)) = has_tags ts s" for s
    using by_name_sorted(2) [OF ok, of now] by (auto simp: distinct_map inj_on_def)
  have "sort_key svc_name (filter P ?L) = filter P ?L" for P
    by (intro sort_key_id_if_sorted sorted_map_filter by_name_sorted(1) [OF ok])
  moreover have "filter (\<lambda>s. svc_name s \<in> svc_name ` set (filter (has_tags ts) ?L)) (filter (has_meta kvs) ?L)
      = filter (\<lambda>s. has_tags ts s \<and> has_meta kvs s) ?L"
    unfolding filter_filter by (rule filter_cong) (use same in auto)
  moreover have "filter (\<lambda>s. has_tags ts s \<and> has_meta kvs s) ?L = []"
    if "filter (has_tags ts) ?L = [] \<or> filter (has_meta kvs) ?L = []"
    using that by (auto simp: filter_empty_conv)
  moreover have "has_tags [] s" "has_meta [] s" for s by (simp_all add: has_tags_def has_meta_def)
  ultimately have "QueryByTagsAndMetadata order now ts kvs rg = filter (\<lambda>s. has_tags ts s \<and> has_meta kvs s) ?L"
    using t m assms(3) by (auto simp: QueryByTagsAndMetadata_def Let_def)
  with t m show ?thesis by simp
qed

text \<open>
  C4: Whatever registrations, heartbeats, removals and clean-ups came before, a query by tags, by
  metadata, or by both, answered through the two indexes, gives exactly the living services that
  have all the tags and all the metadata asked for, in the order of their names.
\<close>

theorem queries_are_searches:
  assumes "reach (\<lambda>rg. \<exists>ttl. rg = NewServiceStoreWithTTL ttl) registry_step rg"
    and "distinct (map fst kvs)" and "ts \<noteq> [] \<or> kvs \<noteq> []"
  shows "QueryByTagsAndMetadata order now ts kvs rg =
      filter (\<lambda>s. has_tags ts s \<and> has_meta kvs s) (by_name now rg)
    \<and> (ts \<noteq> [] \<longrightarrow> QueryByTags order now ts rg = filter (has_tags ts) (by_name now rg))
    \<and> (kvs \<noteq> [] \<longrightarrow> QueryByMetadata order now kvs rg = filter (has_meta kvs) (by_name now rg))"
  by (rule queries_search [OF registry.invariant [OF assms(1)] assms(2,3)])

lemma distinct_single: "set xs = {x} \<Longrightarrow> distinct xs \<Longrightarrow> xs = [x]"
proof -
  assume x: "set xs = {x}" and "distinct xs"
  then have "length xs = Suc 0" using distinct_card [of xs] by simp
  then obtain y where "xs = [y]" by (cases xs) auto
  with x show ?thesis by simp
qed

definition example_service :: service where
  "example_service = \<lparr>svc_name = ''web'', svc_address = ''10.0.0.1'', svc_port = 80, svc_tags = [''v1''],
     svc_meta = [(''env'', ''prod'')]\<rparr>"

definition example_registry :: registry where
  "example_registry = registry_apply 0 (Op_Register example_service) (NewServiceStoreWithTTL 30)"

lemma example_service_valid: "ValidateService example_service = None"
  by code_simp

lemma example_registry_reach: "reach (\<lambda>rg. \<exists>ttl. rg = NewServiceStoreWithTTL ttl) registry_step example_registry"
proof -
  let ?rg = "NewServiceStoreWithTTL 30"
  have "reach (\<lambda>rg. \<exists>ttl. rg = NewServiceStoreWithTTL ttl) registry_step ?rg" by (rule reach_init) auto
  moreover have "registry_step ?rg example_registry"
    unfolding example_registry_def by (rule registry_step.intros) (simp add: service_wf_def example_service_def)
  ultimately show ?thesis by (rule reach_step)
qed

lemma example_registry_put: "example_registry = put_service 0 example_service (NewServiceStoreWithTTL 30)"
  by (simp add: example_registry_def registry_register_def example_service_valid)

lemma example_by_name: "by_name 10 example_registry = [example_service]"
  unfolding example_registry_put
  by (simp add: by_name_def registry_list_def put_service_def live_services_def unexpired_def unindex_def
      NewServiceStoreWithTTL_def Let_def)

theorem queries_are_searches_witness:
  "QueryByTagsAndMetadata sorted_list_of_set 10 [''v1''] [(''env'', ''prod'')] example_registry = [example_service]"
  using queries_are_searches [OF example_registry_reach, of "[(''env'', ''prod'')]" "[''v1'']" sorted_list_of_set 10]
  by (simp add: example_by_name has_tags_def has_meta_def) (simp add: example_service_def)



section \<open>How long a service lives\<close>

fun touches :: "string \<Rightarrow> registry_op \<Rightarrow> bool" where
  "touches n (Op_Register s) \<longleftrightarrow> svc_name s = n"
| "touches n (Op_Register_CAS s i) \<longleftrightarrow> svc_name s = n"
| "touches n (Op_Deregister m) \<longleftrightarrow> m = n"
| "touches n (Op_Deregister_CAS m i) \<longleftrightarrow> m = n"
| "touches n _ \<longleftrightarrow> False"

definition run_registry :: "(int \<times> registry_op) list \<Rightarrow> registry \<Rightarrow> registry" where
  "run_registry ops rg = fold (\<lambda>(c, a). registry_apply c a) ops rg"

fun expiry :: "string \<Rightarrow> int \<Rightarrow> int \<Rightarrow> (int \<times> registry_op) list \<Rightarrow> int" where
  \<comment> \<open>the time a service expires that expired at \<open>x\<close> before the operations\<close>
  "expiry n ttl x [] = x"
| "expiry n ttl x ((c, a) # ops) = expiry n ttl (if a = Op_Heartbeat n then c + ttl else x) ops"

fun left_alone :: "string \<Rightarrow> int \<Rightarrow> int \<Rightarrow> int \<Rightarrow> (int \<times> registry_op) list \<Rightarrow> int \<Rightarrow> bool" where
  \<comment> \<open>operations in order of their times, up to \<open>now\<close>, none of them on the service but heartbeats
     that come before it expires\<close>
  "left_alone n ttl x c0 [] now \<longleftrightarrow> c0 \<le> now"
| "left_alone n ttl x c0 ((c, a) # ops) now \<longleftrightarrow>
     c0 \<le> c \<and> \<not> touches n a \<and> op_wf a \<and> (a = Op_Heartbeat n \<longrightarrow> c \<le> x)
     \<and> left_alone n ttl (if a = Op_Heartbeat n then c + ttl else x) c ops now"

definition keeps :: "service \<Rightarrow> int \<Rightarrow> int \<Rightarrow> registry \<Rightarrow> bool" where
  \<comment> \<open>the service is stored until \<open>x\<close>, or \<open>x\<close> is over and it may be gone\<close>
  "keeps s x c rg \<longleftrightarrow> (\<exists>e. rg_data rg (svc_name s) = Some e \<and> se_service e = s \<and> se_expires e = x)
     \<or> (rg_data rg (svc_name s) = None \<and> x < c)"

lemma drop_service_fields [simp]:
  "rg_data (drop_service n rg) = (rg_data rg)(n := None)" "rg_ttl (drop_service n rg) = rg_ttl rg"
  by (simp_all add: drop_service_def)

lemma put_service_fields:
  "n \<noteq> svc_name s \<Longrightarrow> rg_data (put_service c s rg) n = rg_data rg n" "rg_ttl (put_service c s rg) = rg_ttl rg"
  by (simp_all add: put_service_def Let_def)

lemma cleanup_fold_data:
  "let rg' = snd (fold (\<lambda>name (count, rg). if expired c name rg then (count + 1, drop_service name rg)
        else (count, rg)) names (k, rg))
   in rg_ttl rg' = rg_ttl rg \<and> (rg_data rg' n = rg_data rg n \<or> rg_data rg' n = None \<and> expired c n rg)"
proof (induction names arbitrary: k rg)
  case (Cons m names)
  then show ?case
    using Cons.IH [of k rg] Cons.IH [of "k + 1" "drop_service m rg"]
    by (auto simp: Let_def expired_def split: if_splits option.splits)
qed simp

lemma registry_apply_ttl [simp]: "rg_ttl (registry_apply c a rg) = rg_ttl rg"
  using cleanup_fold_data [of c]
  by (cases a) (auto simp: registry_register_def registry_register_cas_def registry_heartbeat_def registry_deregister_def registry_deregister_cas_def registry_cleanup_def
      put_service_fields Let_def split: option.split)

lemma registry_apply_keeps:
  assumes "keeps s x c rg" and "\<not> touches (svc_name s) a" and "a \<noteq> Op_Heartbeat (svc_name s)"
  shows "keeps s x c (registry_apply c a rg)"
proof -
  let ?n = "svc_name s"
  have "rg_data (registry_apply c a rg) ?n = rg_data rg ?n \<or> rg_data (registry_apply c a rg) ?n = None \<and> expired c ?n rg"
  proof (cases a)
    case (Op_Cleanup order)
    then show ?thesis
      using cleanup_fold_data [of c "order (dom (rg_data rg))" 0 rg ?n] by (auto simp: registry_cleanup_def Let_def)
  qed (use assms(2,3) in \<open>auto simp: registry_register_def registry_register_cas_def registry_heartbeat_def registry_deregister_def registry_deregister_cas_def
      put_service_fields Let_def split: option.split\<close>)
  with assms(1) show ?thesis by (auto simp: keeps_def expired_def split: option.splits)
qed

lemma run_registry_keeps:
  "keeps s x c0 rg \<Longrightarrow> left_alone (svc_name s) (rg_ttl rg) x c0 ops now \<Longrightarrow>
   keeps s (expiry (svc_name s) (rg_ttl rg) x ops) now (run_registry ops rg)"
proof (induction ops arbitrary: x c0 rg)
  case (Cons ca ops)
  obtain c a where ca: "ca = (c, a)" by force
  have k: "keeps s x c rg" using Cons.prems by (auto simp: keeps_def ca)
  have "keeps s (if a = Op_Heartbeat (svc_name s) then c + rg_ttl rg else x) c (registry_apply c a rg)"
  proof (cases "a = Op_Heartbeat (svc_name s)")
    case True
    with k Cons.prems(2) show ?thesis by (auto simp: ca keeps_def registry_heartbeat_def)
  next
    case False
    with registry_apply_keeps [OF k _ False] Cons.prems(2) show ?thesis by (simp add: ca)
  qed
  from Cons.IH [OF this] Cons.prems(2) show ?case by (simp add: ca run_registry_def)
qed (auto simp: run_registry_def keeps_def)

lemma run_registry_ok:
  "registry_ok rg \<Longrightarrow> left_alone n ttl x c0 ops now \<Longrightarrow> registry_ok (run_registry ops rg)"
  by (induction n ttl x c0 ops now arbitrary: rg rule: left_alone.induct)
    (auto simp: run_registry_def registry_apply_ok)

lemma set_live_services: "s \<in> set (live_services now rg names) \<longleftrightarrow>
    (\<exists>n \<in> set names. \<exists>e. rg_data rg n = Some e \<and> unexpired now e \<and> se_service e = s)"
proof -
  have "s \<in> set (case d of Some e \<Rightarrow> if unexpired now e then [se_service e] else [] | None \<Rightarrow> []) \<longleftrightarrow>
      (\<exists>e. d = Some e \<and> unexpired now e \<and> se_service e = s)" for d
    by (cases d) auto
  then show ?thesis by (simp add: live_services_def)
qed

lemma registry_list_iff:
  assumes "registry_ok rg" and "order_ok order"
  shows "s \<in> set (registry_list order now rg) \<longleftrightarrow>
    (\<exists>e. rg_data rg (svc_name s) = Some e \<and> se_service e = s \<and> unexpired now e)"
proof -
  have "set (order (dom (rg_data rg))) = dom (rg_data rg)"
    using assms by (intro order_set) (auto simp: registry_ok_def)
  moreover have "\<forall>n e. rg_data rg n = Some e \<longrightarrow> svc_name (se_service e) = n"
    using assms(1) by (simp add: registry_ok_def)
  ultimately show ?thesis unfolding registry_list_def set_live_services by blast
qed



end
