(* ===== verification/Server_Node.thy ===== *)
theory Server_Node
  imports Server_Services Server_KV
begin

text \<open>
  A standalone node as the console's client reaches it: the handlers of the services
  (internal/handlers/service.go) and of the health check (internal/handlers/health.go) on the
  stores of theories Server_Services and Server_KV, and the routes of cmd/konsul/main.go to
  them. The state is the two stores with the clock, which stands still during a request; what the
  runtime reports and the text of a point in time are parameters. Authentication, auditing,
  logging, metrics and query parameters are left out, and so are the checks a registration may
  carry; the console sends none of them.
\<close>

section \<open>The handlers of the services\<close>

definition optional_member :: "bool \<Rightarrow> string \<Rightarrow> jsval \<Rightarrow> (string \<times> jsval) list" where
  \<comment> \<open>\<open>omitempty\<close>\<close>
  "optional_member present name v = (if present then [(name, v)] else [])"

definition service_json :: "service \<Rightarrow> jsval" where
  \<comment> \<open>a service as the server writes it; the keys of a map are sorted\<close>
  "service_json s =
     JObj ([(''name'', JStr (svc_name s)), (''address'', JStr (svc_address s)), (''port'', JNum (svc_port s))]
       @ optional_member (svc_tags s \<noteq> []) ''tags'' (JArr (map JStr (svc_tags s)))
       @ optional_member (svc_meta s \<noteq> []) ''meta''
           (JObj (map (\<lambda>(k, v). (k, JStr v)) (sort_key fst (svc_meta s)))))"

definition parse_service :: "jsval \<Rightarrow> (service \<times> 64 word option) option" where
  \<comment> \<open>\<open>c.BodyParser\<close> into a service and its optional index\<close>
  "parse_service body =
     (case body_members body of
        Some kvs \<Rightarrow>
          (case (go_string kvs ''name'' [], go_string kvs ''address'' [], go_int kvs ''port'' 0,
                 go_strings kvs ''tags'' [], go_string_map kvs ''meta'' [], go_uint kvs ''cas'' None True) of
             (Some n, Some a, Some p, Some ts, Some m, Some cas) \<Rightarrow>
               Some (\<lparr>svc_name = n, svc_address = a, svc_port = p, svc_tags = ts, svc_meta = m\<rparr>, cas)
           | _ \<Rightarrow> None)
      | None \<Rightarrow> None)"

definition registered :: "service \<Rightarrow> 64 word \<Rightarrow> response" where
  "registered s index = \<lparr>rs_status = 200,
     rs_data = JObj [(''message'', JStr ''service registered''), (''service'', service_json s),
                     (''modify_index'', json_word index)]\<rparr>"

definition bad_request :: "string \<Rightarrow> response" where
  "bad_request message = \<lparr>rs_status = 400, rs_data = error_body ''Bad Request'' message\<rparr>"

definition not_found :: "string \<Rightarrow> response" where
  "not_found message = \<lparr>rs_status = 404, rs_data = error_body ''Not Found'' message\<rparr>"

definition handle_register :: "int \<Rightarrow> jsval \<Rightarrow> registry \<Rightarrow> response \<times> registry" where
  "handle_register now body rg =
     (case parse_service body of
        None \<Rightarrow> (bad_request ''Invalid JSON body'', rg)
      | Some (s, Some cas) \<Rightarrow>
          (case registry_register_cas now s cas rg of
             (Inr newIndex, rg') \<Rightarrow> (registered s newIndex, rg')
           | (Inl (Refused (CAS_Conflict n e c)), rg') \<Rightarrow>
               (\<lparr>rs_status = 409, rs_data = error_body ''CAS conflict'' (error_text ''service'' (CAS_Conflict n e c))\<rparr>, rg')
           | (Inl (Refused (Not_Found n)), rg') \<Rightarrow> (not_found ''Service not found'', rg')
           | (Inl (Invalid_Service err), rg') \<Rightarrow> (bad_request err, rg'))
      | Some (s, None) \<Rightarrow>
          (case registry_register now s rg of
             (Inl err, rg') \<Rightarrow> (bad_request err, rg')
           | (Inr _, rg') \<Rightarrow>
               (registered s (case registry_get_entry now (svc_name s) rg' of Some e \<Rightarrow> se_modify e | None \<Rightarrow> 0), rg')))"

definition handle_services :: "(string set \<Rightarrow> string list) \<Rightarrow> int \<Rightarrow> registry \<Rightarrow> response" where
  "handle_services order now rg = \<lparr>rs_status = 200, rs_data = JArr (map service_json (registry_list order now rg))\<rparr>"

definition handle_service :: "int \<Rightarrow> string \<Rightarrow> registry \<Rightarrow> response" where
  "handle_service now name rg =
     (case registry_get now name rg of
        None \<Rightarrow> not_found ''Service not found''
      | Some s \<Rightarrow> \<lparr>rs_status = 200, rs_data = service_json s\<rparr>)"

definition handle_deregister :: "string \<Rightarrow> registry \<Rightarrow> response \<times> registry" where
  "handle_deregister name rg =
     (\<lparr>rs_status = 200, rs_data = JObj [(''message'', JStr ''service deregistered''), (''name'', JStr name)]\<rparr>,
      registry_deregister name rg)"

definition handle_heartbeat :: "int \<Rightarrow> string \<Rightarrow> registry \<Rightarrow> response \<times> registry" where
  "handle_heartbeat now name rg =
     (case registry_heartbeat now name rg of
        (True, rg') \<Rightarrow>
          (\<lparr>rs_status = 200, rs_data = JObj [(''message'', JStr ''heartbeat updated''), (''service'', JStr name)]\<rparr>, rg')
      | (False, rg') \<Rightarrow> (not_found ''Service not found'', rg'))"

section \<open>The text of a duration\<close>

fun pad_zeros :: "nat \<Rightarrow> nat \<Rightarrow> string" where
  \<comment> \<open>the last digits of a number, as many as asked for\<close>
  "pad_zeros 0 n = []"
| "pad_zeros (Suc k) n = pad_zeros k (n div 10) @ [digit (n mod 10)]"

definition frac_text :: "nat \<Rightarrow> nat \<Rightarrow> string" where
  \<comment> \<open>\<open>fmtFrac\<close>: the fraction of \<open>n / 10 ^ prec\<close> without its trailing zeros\<close>
  "frac_text prec n =
     (let ds = rev (dropWhile (\<lambda>c. c = CHR ''0'') (rev (pad_zeros prec n)))
      in if ds = [] then [] else CHR ''.'' # ds)"

definition duration_text :: "int \<Rightarrow> string" where
  \<comment> \<open>\<open>Duration.String\<close> of a number of nanoseconds; the micro sign is two bytes\<close>
  "duration_text d =
     (let u = nat (abs d);
          secs = u div 10 ^ 9; mins = secs div 60; hours = mins div 60;
          t = (if u = 0 then ''0s''
               else if u < 10 ^ 3 then nat_str u @ ''ns''
               else if u < 10 ^ 6 then nat_str (u div 10 ^ 3) @ frac_text 3 u @ [CHR 0xC2, CHR 0xB5] @ ''s''
               else if u < 10 ^ 9 then nat_str (u div 10 ^ 6) @ frac_text 6 u @ ''ms''
               else (if 0 < hours then nat_str hours @ ''h'' else [])
                    @ (if 0 < mins then nat_str (mins mod 60) @ ''m'' else [])
                    @ nat_str (secs mod 60) @ frac_text 9 u @ ''s'')
      in if d < 0 then CHR ''-'' # t else t)"

section \<open>The node\<close>

record runtime_stats =
  rt_goroutines :: nat
  rt_alloc :: nat
  rt_sys :: nat
  rt_num_gc :: nat

record node =
  nd_clock :: int
  nd_kv :: kv_store
  nd_services :: registry
  nd_start :: int
  nd_version :: string

record node_env =
  ne_order :: "string set \<Rightarrow> string list"
  ne_stats :: "int \<Rightarrow> runtime_stats"
  ne_time_text :: "int \<Rightarrow> string"

definition handle_health :: "node_env \<Rightarrow> node \<Rightarrow> response" where
  "handle_health env nd =
     (let entries = registry_list_all (ne_order env) (nd_services nd);
          now = nd_clock nd;
          active = length (filter (unexpired now) entries);
          m = ne_stats env now
      in \<lparr>rs_status = 200, rs_data = JObj [
           (''status'', JStr ''healthy''), (''version'', JStr (nd_version nd)),
           (''uptime'', JStr (duration_text (now - nd_start nd))), (''timestamp'', JStr (ne_time_text env now)),
           (''services'', JObj [(''total'', JNum (int (length entries))), (''active'', JNum (int active)),
                                (''expired'', JNum (int (length entries - active)))]),
           (''kv_store'', JObj [(''total_keys'', JNum (int (length (kv_keys (ne_order env) (nd_kv nd)))))]),
           (''system'', JObj [(''goroutines'', JNum (int (rt_goroutines m))), (''memory_alloc_bytes'', JNum (int (rt_alloc m))),
                              (''memory_sys_bytes'', JNum (int (rt_sys m))), (''num_gc'', JNum (int (rt_num_gc m)))])]\<rparr>)"

definition url_param :: "string \<Rightarrow> string \<Rightarrow> string" where
  \<comment> \<open>what follows a prefix in the path of a URL, up to a query or a fragment\<close>
  "url_param prefix url = takeWhile (\<lambda>c. c \<noteq> CHR ''?'' \<and> c \<noteq> CHR ''#'') (drop (length prefix) url)"

definition named :: "string \<Rightarrow> string \<Rightarrow> bool" where
  \<comment> \<open>a URL that a route with a parameter \<open>:name\<close> after the prefix matches\<close>
  "named prefix url \<longleftrightarrow> starts_with url prefix \<and> url_param prefix url \<noteq> [] \<and> CHR ''/'' \<notin> set (url_param prefix url)"

definition node_server :: "node_env \<Rightarrow> node server" where
  "node_server env rq nd =
     (let url = rq_url rq; m = rq_method rq; now = nd_clock nd; rg = nd_services nd
      in if starts_with url ''/kv/''
         then (case kv_server (ne_order env) rq (nd_kv nd) of (r, kv') \<Rightarrow> (r, nd\<lparr>nd_kv := kv'\<rparr>))
         else if m = ''PUT'' \<and> url = ''/register''
         then (case handle_register now (rq_body rq) rg of (r, rg') \<Rightarrow> (Some r, nd\<lparr>nd_services := rg'\<rparr>))
         else if m = ''DELETE'' \<and> named ''/deregister/'' url
         then (case handle_deregister (url_param ''/deregister/'' url) rg of (r, rg') \<Rightarrow> (Some r, nd\<lparr>nd_services := rg'\<rparr>))
         else if m = ''PUT'' \<and> named ''/heartbeat/'' url
         then (case handle_heartbeat now (url_param ''/heartbeat/'' url) rg of (r, rg') \<Rightarrow> (Some r, nd\<lparr>nd_services := rg'\<rparr>))
         else if m = ''GET'' \<and> url = ''/services/'' then (Some (handle_services (ne_order env) now rg), nd)
         else if m = ''GET'' \<and> named ''/services/'' url
         then (Some (handle_service now (url_param ''/services/'' url) rg), nd)
         else if m = ''GET'' \<and> url = ''/health'' then (Some (handle_health env nd), nd)
         else (Some \<lparr>rs_status = 404, rs_data = JNull\<rparr>, nd))"

section \<open>What an uptime looks like\<close>

lemma duration_text_ends: "\<exists>t. duration_text d = t @ ''s''"
  by (simp add: duration_text_def Let_def)

end
