(* ===== verification/Console_Server.thy ===== *)
theory Console_Server
  imports Services_Page Status_Pages Server_Node
begin

text \<open>
  The services page, the dashboard and the health page with the model of the node as their
  server: what the client loads from it, what the pages then show, and what their buttons
  and the form do to the services of the node.
\<close>

section \<open>What the client gets\<close>

lemma starts_with_append_iff: "starts_with (p @ s) p"
  by (simp add: starts_with_iff)

lemmas node_call = server_call [of "node_server env" for env]

lemma get_services_node:
  "getServices (node_server env) w =
     (Inr (JArr (map service_json (registry_list (ne_order env) (nd_clock (w_server w)) (nd_services (w_server w))))), w)"
proof -
  have "node_server env (request_interceptor (w_store w) (mk_request ''GET'' ''/services/'' JUndef)) (w_server w)
      = (Some (handle_services (ne_order env) (nd_clock (w_server w)) (nd_services (w_server w))), w_server w)"
    by (simp add: node_server_def mk_request_def starts_with_def)
  from node_call [OF this] show ?thesis
    by (simp add: getServices_def api_get_def handle_services_def or_else_def)
qed

lemma get_health_node: "getHealth (node_server env) w = (Inr (rs_data (handle_health env (w_server w))), w)"
proof -
  have "node_server env (request_interceptor (w_store w) (mk_request ''GET'' ''/health'' JUndef)) (w_server w)
      = (Some (handle_health env (w_server w)), w_server w)"
    by (simp add: node_server_def mk_request_def starts_with_def named_def)
  moreover have "rs_status (handle_health env nd) = 200" for nd by (simp add: handle_health_def Let_def)
  ultimately show ?thesis
    using node_call [of env w "mk_request ''GET'' ''/health'' JUndef"] by (simp add: getHealth_def api_get_def)
qed

lemma service_json_props [simp]:
  "opt_prop (service_json s) ''id'' = JUndef" "get_prop (service_json s) ''id'' = Inr JUndef"
  "get_prop (service_json s) ''status'' = Inr JUndef"
  "opt_prop (service_json s) ''status'' = JUndef" "opt_prop (service_json s) ''last_heartbeat'' = JUndef"
  "opt_prop (service_json s) ''name'' = JStr (svc_name s)"
  "opt_prop (service_json s) ''address'' = JStr (svc_address s)"
  "opt_prop (service_json s) ''port'' = JNum (svc_port s)"
  "opt_prop (service_json s) ''tags'' = (if svc_tags s = [] then JUndef else JArr (map JStr (svc_tags s)))"
  by (simp_all add: service_json_def optional_member_def opt_prop_def)

section \<open>An uptime that is a text\<close>

lemma js_trim_snoc: "\<not> is_ws c \<Longrightarrow> \<exists>ys. js_trim (xs @ [c]) = ys @ [c]"
proof -
  assume c: "\<not> is_ws c"
  then have "\<exists>ys. dropWhile is_ws (xs @ [c]) = ys @ [c]" by (induction xs) auto
  then obtain ys where "dropWhile is_ws (xs @ [c]) = ys @ [c]" by blast
  with c show ?thesis by (simp add: js_trim_def)
qed

lemma ends_no_number: "whole_number (JStr (t @ ''s'')) = None"
proof -
  obtain ys where ys: "js_trim (t @ ''s'') = ys @ ''s''"
    using js_trim_snoc [of "CHR ''s''" t] by (auto simp: is_ws_def code_def)
  have s: "\<not> is_digit CHR ''s''" by (simp add: is_digit_def code_def)
  have "signed_digits (ys @ ''s'') = None"
    using s by (cases ys) (auto simp: signed_digits_def Let_def starts_with_def)
  with ys show ?thesis by simp
qed

section \<open>The status pages\<close>

lemma health_props:
  fixes env nd
  defines "h \<equiv> rs_data (handle_health env nd)"
  shows "opt_prop h ''status'' = JStr ''healthy''" and "opt_prop h ''version'' = JStr (nd_version nd)"
    and "opt_prop h ''uptime'' = JStr (duration_text (nd_clock nd - nd_start nd))"
    and "truthy h" and "truthy (opt_prop h ''system'')" and "truthy (opt_prop h ''services'')"
    and "opt_prop (opt_prop h ''system'') ''memory'' = JUndef"
    and "\<exists>n. opt_prop (opt_prop h ''system'') ''goroutines'' = JNum n"
    and "\<exists>n. opt_prop (opt_prop h ''services'') ''total'' = JNum n"
    and "opt_prop (opt_prop h ''services'') ''healthy'' = JUndef"
  by (simp_all add: h_def handle_health_def Let_def opt_prop_def)

lemma opt_prop_length: "opt_prop (JArr vs) ''length'' = JNum (int (length vs))"
  by (simp add: opt_prop_def)

lemma unknown_status: "filter service_healthy (map service_json ss) = []"
  by (simp add: filter_empty_conv service_healthy_def)

lemma plain_service_json: "plain_service (service_json s)"
  by (simp add: plain_service_def) (simp add: service_json_def)

lemma dashboard_node:
  fixes env nd ss ks st
  defines "q \<equiv> \<lparr>qs_services = JArr (map service_json ss), qs_kv_list = JArr ks,
                 qs_health = rs_data (handle_health env nd), qs_stale = st\<rparr>"
  shows "\<not> crashes (dashboard_view q l1 l2 l3)"
    and "\<not> l1 \<Longrightarrow> ''0 healthy'' \<in> set (view_texts (dashboard_view q l1 l2 l3))"
    and "\<not> l3 \<Longrightarrow> ''NaNm'' \<in> set (view_texts (dashboard_view q l1 l2 l3))"
proof -
  note h = health_props [of env nd]
  obtain t where t: "duration_text (nd_clock nd - nd_start nd) = t @ ''s''" using duration_text_ends by blast
  have n: "healthy_count (qs_services q) = Inr (JNum 0)"
    using healthy_count_list [of "map service_json ss"] by (simp add: q_def plain_service_json unknown_status)
  have nan: "formatUptime_dashboard None = ''NaNm''" by code_simp
  have up: "truthy (opt_prop (qs_health q) ''uptime'')" "whole_number (opt_prop (qs_health q) ''uptime'') = None"
    using ends_no_number [of t] by (simp_all add: q_def h t del: whole_number.simps)
  let ?s = "stat_card ''Total Services'' (or_else (opt_prop (qs_services q) ''length'') (JNum 0)) ''Server''
      (Some (to_str (JNum 0) @ '' healthy'', True)) l1 :: unit view"
  let ?k = "stat_card ''KV Keys'' (or_else (opt_prop (qs_kv_list q) ''length'') (JNum 0)) ''Database'' None l2 :: unit view"
  let ?o = "stat_card ''System Status'' (or_else (opt_prop (qs_health q) ''status'') (JStr ''unknown'')) ''Activity'' None l3 :: unit view"
  let ?u = "stat_card ''Uptime'' (JStr ''NaNm'') ''Clock'' None l3 :: unit view"
  have g: "stats_grid q l1 l2 l3 = el ''div'' [?s, ?k, ?o, ?u]"
    by (simp only: stats_grid_def n and_then.simps up nan if_True)
  have parts: "\<not> crashes ?s" "\<not> crashes ?k" "\<not> crashes ?o" "\<not> crashes ?u"
    by (simp_all add: q_def h or_else_def opt_prop_length)
  then have grid: "\<not> crashes (stats_grid q l1 l2 l3)" unfolding g by simp
  obtain a b where "opt_prop (opt_prop (qs_health q) ''system'') ''goroutines'' = JNum a"
    "opt_prop (opt_prop (qs_health q) ''services'') ''total'' = JNum b"
    using h(8,9) by (auto simp: q_def)
  then have "\<not> crashes (system_info (qs_health q) l3)"
    using h by (simp add: system_info_def Let_def or_else_def q_def)
  moreover have "\<not> crashes (recent_services q l1)"
    by (auto simp: recent_services_def as_array_def q_def intro!: recent_service_ok plain_service_json dest!: in_set_takeD)
  ultimately show nc: "\<not> crashes (dashboard_view q l1 l2 l3)" using grid by (simp add: dashboard_view_def)
  have view: "t \<in> set (view_texts (dashboard_view q l1 l2 l3))" if "t \<in> set (view_texts (stats_grid q l1 l2 l3))" for t
    unfolding dashboard_view_def
    by (rule view_texts_part [where v = "stats_grid q l1 l2 l3"]) (use that nc in \<open>simp_all add: dashboard_view_def\<close>)
  have grid_part: "t \<in> set (view_texts (stats_grid q l1 l2 l3))"
    if "t \<in> set (view_texts v)" "v \<in> set [?s, ?k, ?o, ?u]" for t v
    unfolding g by (rule view_texts_part [OF that]) (use grid in \<open>simp add: g\<close>)
  show "''0 healthy'' \<in> set (view_texts (dashboard_view q l1 l2 l3))" if "\<not> l1"
  proof (rule view, rule grid_part [where v = ?s])
    have "to_str (JNum 0) = ''0''" by code_simp
    then show "''0 healthy'' \<in> set (view_texts ?s)"
      using that parts(1) by (simp add: stat_card_def view_texts_children)
  qed simp
  show "''NaNm'' \<in> set (view_texts (dashboard_view q l1 l2 l3))" if "\<not> l3"
  proof (rule view, rule grid_part [where v = ?u])
    show "''NaNm'' \<in> set (view_texts ?u)"
      using that by (simp add: stat_card_def view_texts_children) (simp add: view_texts_def)
  qed simp
qed

text \<open>
  C32: Whatever its state, the node's health answer crashes the health page once it is loaded. The
  dashboard, with the services the node lists, does not crash, but counts none of them as healthy
  and shows an uptime that is not a number.
\<close>

theorem status_pages_of_node:
  "\<exists>h ss. getHealth (node_server env) w = (Inr h, w) \<and> getServices (node_server env) w = (Inr ss, w)
    \<and> crashes (health_view date_text percent h False)
    \<and> (let d = dashboard_view \<lparr>qs_services = ss, qs_kv_list = JArr ks, qs_health = h, qs_stale = st\<rparr> False l2 False
       in \<not> crashes d \<and> ''0 healthy'' \<in> set (view_texts d) \<and> ''NaNm'' \<in> set (view_texts d))"
proof -
  let ?h = "rs_data (handle_health env (w_server w))"
  have "crashes (system_metrics ?h False)"
    using health_props [of env "w_server w"] by (auto simp: system_metrics_def Let_def)
  then have "crashes (health_view date_text percent ?h False)" by (simp add: health_view_def)
  then show ?thesis by (simp add: get_health_node get_services_node Let_def dashboard_node)
qed

section \<open>The buttons of the services page\<close>

lemma service_card_node: "\<not> crashes (service_card date_text (service_json s))"
  by (simp add: service_card_def Let_def or_else_def as_array_def falsy_child)

lemma services_view_node:
  assumes "sp_data s = JArr (map service_json ss)"
  shows "\<not> crashes (service_grid date_text s)"
  using assms by (auto simp: service_grid_def as_array_def service_card_node)

lemma undefined_text: "to_str JUndef = ''undefined''"
  by code_simp

lemma deregister_undefined:
  assumes "rg_data (nd_services (w_server w)) ''undefined'' = None"
  shows "deregisterService (node_server env) JUndef w = (Inr (), w)"
proof -
  have "registry_deregister ''undefined'' (nd_services (w_server w)) = nd_services (w_server w)"
    using assms by (simp add: registry_deregister_def drop_service_def unindex_def fun_upd_idem)
  then have "node_server env (request_interceptor (w_store w) (mk_request ''DELETE'' ''/deregister/undefined'' JUndef)) (w_server w)
      = (Some (fst (handle_deregister ''undefined'' (nd_services (w_server w)))), w_server w)"
    by (simp add: node_server_def mk_request_def starts_with_def named_def url_param_def handle_deregister_def)
  from node_call [OF this] show ?thesis
    by (simp add: deregisterService_def api_delete_def void_def handle_deregister_def undefined_text)
qed

lemma heartbeat_undefined:
  assumes "rg_data (nd_services (w_server w)) ''undefined'' = None"
  shows "sendHeartbeat (node_server env) JUndef w = (Inl (RequestFailed (Some 404)), w)"
proof -
  have "node_server env (request_interceptor (w_store w) (mk_request ''PUT'' ''/heartbeat/undefined'' JUndef)) (w_server w)
      = (Some (not_found ''Service not found''), w_server w)"
    using assms
    by (simp add: node_server_def mk_request_def starts_with_def named_def url_param_def handle_heartbeat_def
        registry_heartbeat_def)
  from node_call [OF this] show ?thesis
    by (simp add: sendHeartbeat_def api_put_def void_def not_found_def undefined_text)
qed

text \<open>
  C31: No button of the services page works on the services of a node: with the services the node
  lists the page renders, each has its heartbeat and its remove button, and whichever is
  pressed, its request, once answered, leaves the node as it was (as long as no service is called
  \<open>undefined\<close>); the heartbeat is even refused.
\<close>

theorem service_buttons_dead:
  assumes "getServices (node_server env) w = (Inr v, w1)" and "sp_data s = v" and "\<not> sp_loading s"
    and "rg_data (nd_services (w_server w)) ''undefined'' = None"
    and "a \<in> set (view_clicks (service_grid date_text s))"
  shows "\<not> crashes (service_grid date_text s) \<and> a \<in> {Send_Heartbeat JUndef, Send_Deregister JUndef}
    \<and> snd (service_settle (node_server env) (length (sp_pending s)) (service_handle a s, w)) = w"
proof -
  obtain ss where v: "v = JArr (map service_json ss)" using assms(1) by (auto simp: get_services_node)
  then have nc: "\<not> crashes (service_grid date_text s)" using assms(2) services_view_node by blast
  have "view_clicks (service_grid date_text s) =
      concat (map (\<lambda>sv. [Send_Heartbeat (opt_prop sv ''id''), Send_Deregister (opt_prop sv ''id'')]) (map service_json ss))"
    using services_buttons [OF _ assms(3) nc] assms(2) v by simp
  then have "a \<in> {Send_Heartbeat JUndef, Send_Deregister JUndef}"
    using assms(5) by (auto split: if_splits)
  moreover have "snd (service_settle (node_server env) (length (sp_pending s)) (service_handle a s, w)) = w"
    using calculation deregister_undefined [OF assms(4), of env] heartbeat_undefined [OF assms(4), of env]
    by (auto simp: service_settle_def run_service_mutation_def Let_def)
  ultimately show ?thesis using nc by simp
qed

definition example_node :: node where
  "example_node = \<lparr>nd_clock = 5, nd_kv = kv_new, nd_services = example_registry, nd_start = 0, nd_version = ''0.1''\<rparr>"

definition example_env :: node_env where
  "example_env = \<lparr>ne_order = sorted_list_of_set, ne_stats = (\<lambda>_. \<lparr>rt_goroutines = 8, rt_alloc = 1, rt_sys = 2, rt_num_gc = 3\<rparr>),
     ne_time_text = int_str\<rparr>"

lemma example_list: "registry_list sorted_list_of_set 5 example_registry = [example_service]"
  unfolding example_registry_put
  by (simp add: registry_list_def put_service_def live_services_def unexpired_def unindex_def
      NewServiceStoreWithTTL_def Let_def)

lemma example_registry_undefined: "rg_data example_registry ''undefined'' = None"
  unfolding example_registry_put by (simp add: put_service_def example_service_def unindex_def NewServiceStoreWithTTL_def Let_def)

theorem service_buttons_dead_witness:
  "let w = example_world ''new'' example_node;
       s = services_init\<lparr>sp_data := JArr [service_json example_service], sp_loading := False\<rparr>
   in snd (service_settle (node_server example_env) 0 (service_handle (Send_Deregister JUndef) s, w)) = w"
proof -
  let ?w = "example_world ''new'' example_node"
  let ?s = "services_init\<lparr>sp_data := JArr [service_json example_service], sp_loading := False\<rparr>"
  have f: "w_server ?w = example_node" by (simp add: example_world_def)
  have "getServices (node_server example_env) ?w = (Inr (JArr [service_json example_service]), ?w)"
    by (simp add: get_services_node f) (simp add: example_node_def example_env_def example_list)
  moreover have "rg_data (nd_services (w_server ?w)) ''undefined'' = None"
    unfolding f by (simp add: example_node_def example_registry_undefined)
  moreover have "Send_Deregister JUndef \<in> set (view_clicks (service_grid to_str ?s))"
    by (subst services_buttons [of ?s "[service_json example_service]"])
      (simp_all add: services_view_node [of _ "[example_service]"])
  ultimately show ?thesis
    using service_buttons_dead [of example_env ?w "JArr [service_json example_service]" ?w ?s "Send_Deregister JUndef" to_str]
    by (simp add: services_init_def)
qed

section \<open>The form of the services page\<close>

definition form_service :: "service_form \<Rightarrow> service" where
  \<comment> \<open>what the server reads from the form: neither the id nor the metadata arrive\<close>
  "form_service f = \<lparr>svc_name = sf_name f, svc_address = sf_address f,
     svc_port = (case sf_port f of JNum p \<Rightarrow> p | _ \<Rightarrow> 0), svc_tags = sf_tags f, svc_meta = []\<rparr>"

lemma lower_members:
  "to_lower ''name'' = ''name''" "to_lower ''address'' = ''address''" "to_lower ''port'' = ''port''"
  "to_lower ''tags'' = ''tags''" "to_lower ''metadata'' = ''metadata''" "to_lower ''id'' = ''id''"
  by code_simp+

lemma map_option_list_strings: "map_option_list go_element (map JStr ts) = Some ts"
  by (induction ts) auto

lemma parse_form:
  assumes "sf_port f = JNaN \<or> (\<exists>p. sf_port f = JNum p \<and> - (2 ^ 63) \<le> p \<and> p < 2 ^ 63)"
  shows "parse_service (form_json f) = Some (form_service f, None)"
  using assms
  by (auto simp: parse_service_def body_members_def form_json_def form_service_def lower_members map_option_list_strings split: option.split)

lemma register_node:
  assumes "parse_service b = Some (v, None)"
  shows "registerService (node_server env) b w =
    (case ValidateService v of
       None \<Rightarrow> (Inr (), w\<lparr>w_server := (w_server w)\<lparr>nd_services := put_service (nd_clock (w_server w)) v (nd_services (w_server w))\<rparr>\<rparr>)
     | Some err \<Rightarrow> (Inl (RequestFailed (Some 400)), w))"
proof -
  let ?now = "nd_clock (w_server w)" and ?rg = "nd_services (w_server w)"
  obtain r rg' where h: "handle_register ?now b ?rg = (r, rg')" by force
  have "node_server env (request_interceptor (w_store w) (mk_request ''PUT'' ''/register'' b)) (w_server w)
      = (Some r, (w_server w)\<lparr>nd_services := rg'\<rparr>)"
    by (simp add: node_server_def mk_request_def starts_with_def h)
  note call = node_call [OF this]
  show ?thesis
  proof (cases "ValidateService v")
    case None
    with h assms have "rs_status r = 200" "rg' = put_service ?now v ?rg"
      by (auto simp: handle_register_def registry_register_def registered_def)
    with call None show ?thesis by (simp add: registerService_def api_put_def void_def)
  next
    case (Some err)
    with h assms have "rs_status r = 400" "rg' = ?rg"
      by (auto simp: handle_register_def registry_register_def bad_request_def)
    with call Some show ?thesis by (simp add: registerService_def api_put_def void_def)
  qed
qed

lemma check_tags_format: "t \<in> set ts \<Longrightarrow> \<not> tagFormatRegex t \<Longrightarrow> check_tags seen ts \<noteq> None"
  by (induction seen ts rule: check_tags.induct) auto

lemma bad_tag_invalid:
  assumes "t \<in> set (svc_tags v)" and "\<not> tagFormatRegex t"
  shows "ValidateService v \<noteq> None"
  using check_tags_format [OF assms, of "[]"]
  by (auto simp: ValidateService_def ValidateTags_def split: option.split)

text \<open>
  C14: A registration from the form, once answered by the node: if the service is valid, the node
  stores it with the form's name, address, port and tags, the form is emptied and closed, and the
  next list of the services has it, without the id the user may have typed. If it is not, and
  so whenever a tag has a space in it, which the form takes, nothing changes on the node,
  and the page only forgets that the request was under way.
\<close>

theorem form_registers_on_node:
  assumes "i < length (sp_pending s)" and "sp_pending s ! i = Register (form_json f)"
    and "sf_port f = JNaN \<or> (\<exists>p. sf_port f = JNum p \<and> - (2 ^ 63) \<le> p \<and> p < 2 ^ 63)"
    and "registry_ok (nd_services (w_server w))" and "order_ok (ne_order env)" and "0 < rg_ttl (nd_services (w_server w))"
  shows "let (s', w') = service_settle (node_server env) i (s, w);
             rest = take i (sp_pending s) @ drop (Suc i) (sp_pending s);
             nd = w_server w; v = form_service f
    in (ValidateService v = None \<longrightarrow>
          w_server w' = nd\<lparr>nd_services := put_service (nd_clock nd) v (nd_services nd)\<rparr>
          \<and> s' = s\<lparr>sp_pending := rest, sp_open := False, sp_form := empty_form, sp_tag := [], sp_stale := True\<rparr>
          \<and> (\<exists>ss. getServices (node_server env) w' = (Inr (JArr ss), w') \<and> service_json v \<in> set ss)
          \<and> opt_prop (service_json v) ''id'' = JUndef)
      \<and> (ValidateService v \<noteq> None \<longrightarrow> w' = w \<and> s' = s\<lparr>sp_pending := rest\<rparr>)
      \<and> ((\<exists>t \<in> set (sf_tags f). \<not> tagFormatRegex t) \<longrightarrow> w' = w)"
proof -
  let ?v = "form_service f" and ?nd = "w_server w"
  let ?rg = "put_service (nd_clock ?nd) ?v (nd_services ?nd)"
  note reg = register_node [OF parse_form [OF assms(3)], of env w]
  have bad: "(\<exists>t \<in> set (sf_tags f). \<not> tagFormatRegex t) \<Longrightarrow> ValidateService ?v \<noteq> None"
    using bad_tag_invalid [of _ ?v] by (auto simp: form_service_def)
  show ?thesis
  proof (cases "ValidateService ?v")
    case None
    have "registry_ok ?rg"
      by (rule put_service_ok [OF assms(4) None]) (simp add: service_wf_def form_service_def)
    from registry_list_iff [OF this assms(5)]
    have "?v \<in> set (registry_list (ne_order env) (nd_clock ?nd) ?rg)"
      using assms(6) by (auto simp: put_service_def unexpired_def Let_def)
    moreover have "\<forall>t \<in> set (sf_tags f). tagFormatRegex t" using bad None by auto
    ultimately show ?thesis
      using None reg assms(2)
      by (auto simp: service_settle_def run_service_mutation_def service_success_def resetForm_def get_services_node)
  next
    case (Some err)
    with reg assms(2) show ?thesis
      by (simp add: service_settle_def run_service_mutation_def)
  qed
qed

theorem form_registers_on_node_witness:
  "let f = empty_form\<lparr>sf_name := ''web'', sf_address := ''h'', sf_id := Some ''web-1''\<rparr>;
       w = example_world ''new'' (example_node\<lparr>nd_services := NewServiceStoreWithTTL 30\<rparr>);
       s = services_init\<lparr>sp_pending := [Register (form_json f)], sp_open := True\<rparr>
   in sp_open (fst (service_settle (node_server example_env) 0 (s, w))) = False"
proof -
  let ?f = "empty_form\<lparr>sf_name := ''web'', sf_address := ''h'', sf_id := Some ''web-1''\<rparr>"
  let ?w = "example_world ''new'' (example_node\<lparr>nd_services := NewServiceStoreWithTTL 30\<rparr>)"
  let ?s = "services_init\<lparr>sp_pending := [Register (form_json ?f)], sp_open := True\<rparr>"
  have w: "w_server ?w = example_node\<lparr>nd_services := NewServiceStoreWithTTL 30\<rparr>" by (simp add: example_world_def)
  have "ValidateService (form_service ?f) = None" by code_simp
  moreover have "registry_ok (NewServiceStoreWithTTL 30)" by (rule registry.invariant [OF reach_init]) auto
  moreover have "sf_port ?f = JNum 8080" "rg_ttl (NewServiceStoreWithTTL 30) = 30" "order_ok (ne_order example_env)"
    by (simp_all add: empty_form_def NewServiceStoreWithTTL_def example_env_def order_ok_def)
  ultimately show ?thesis
    using form_registers_on_node [of 0 ?s ?f ?w example_env] unfolding w
    by (auto simp: Let_def split: prod.splits)
qed

end
