(* ===== verification/Server_Auth.thy ===== *)
theory Server_Auth
  imports Auth Server_Node Base64
begin

text \<open>
  Tokens on the server: the JWT service (internal/auth/jwt.go), the handlers of the login and
  the refresh (internal/handlers/auth.go) and the middleware that asks for a token
  (internal/middleware/jwt.go). The library that signs and parses tokens is not part of the
  source: it is the parameter \<open>lib\<close> of the definitions, and \<open>jwt_lib_ok\<close> states what its
  documentation promises of a token it has signed with the same key. The clock stands still
  during a request and counts nanoseconds; the dates in a token are whole seconds.
  \<open>demo_lib\<close> is a library that keeps the promise.
\<close>

section \<open>Tokens\<close>

record claims =
  \<comment> \<open>both \<open>Claims\<close> and \<open>RefreshClaims\<close>: their members are the same\<close>
  jc_user_id :: string
  jc_username :: string
  jc_roles :: "string list"
  jc_policies :: "string list"
  jc_expires :: int
  jc_issued :: int
  jc_not_before :: int
  jc_issuer :: string
  jc_subject :: string

datatype parse_error = Jwt_Expired | Jwt_Other

record jwt_lib =
  \<comment> \<open>\<open>SignedString\<close> and \<open>ParseWithClaims\<close> with the HMAC key given, at a time\<close>
  jl_sign :: "string \<Rightarrow> claims \<Rightarrow> string option"
  jl_parse :: "string \<Rightarrow> int \<Rightarrow> string \<Rightarrow> parse_error + claims"

record jwt_service =
  js_secret :: string
  js_expiry :: int
  js_refresh_expiry :: int
  js_issuer :: string

datatype token_error = Token_Expired | Token_Invalid | Token_Missing | Token_Failed

definition NewNumericDate :: "int \<Rightarrow> int" where
  \<comment> \<open>a time in nanoseconds, cut to seconds\<close>
  "NewNumericDate t = t div 10 ^ 9"

definition mk_claims :: "jwt_service \<Rightarrow> int \<Rightarrow> int \<Rightarrow> string \<Rightarrow> string \<Rightarrow> string list \<Rightarrow> string list \<Rightarrow> claims" where
  "mk_claims j lifespan now userID username roles policies =
     \<lparr>jc_user_id = userID, jc_username = username, jc_roles = roles, jc_policies = policies,
      jc_expires = NewNumericDate (now + lifespan), jc_issued = NewNumericDate now,
      jc_not_before = NewNumericDate now, jc_issuer = js_issuer j, jc_subject = userID\<rparr>"

definition GenerateTokenWithPolicies ::
  "jwt_lib \<Rightarrow> jwt_service \<Rightarrow> int \<Rightarrow> string \<Rightarrow> string \<Rightarrow> string list \<Rightarrow> string list \<Rightarrow> string option" where
  "GenerateTokenWithPolicies lib j now userID username roles policies =
     jl_sign lib (js_secret j) (mk_claims j (js_expiry j) now userID username roles policies)"

definition GenerateToken :: "jwt_lib \<Rightarrow> jwt_service \<Rightarrow> int \<Rightarrow> string \<Rightarrow> string \<Rightarrow> string list \<Rightarrow> string option" where
  "GenerateToken lib j now userID username roles = GenerateTokenWithPolicies lib j now userID username roles []"

definition GenerateRefreshTokenWithPolicies ::
  "jwt_lib \<Rightarrow> jwt_service \<Rightarrow> int \<Rightarrow> string \<Rightarrow> string \<Rightarrow> string list \<Rightarrow> string list \<Rightarrow> string option" where
  "GenerateRefreshTokenWithPolicies lib j now userID username roles policies =
     jl_sign lib (js_secret j) (mk_claims j (js_refresh_expiry j) now userID username roles policies)"

definition GenerateRefreshToken :: "jwt_lib \<Rightarrow> jwt_service \<Rightarrow> int \<Rightarrow> string \<Rightarrow> string \<Rightarrow> string list \<Rightarrow> string option" where
  "GenerateRefreshToken lib j now userID username roles =
     GenerateRefreshTokenWithPolicies lib j now userID username roles []"

definition ValidateToken :: "jwt_lib \<Rightarrow> jwt_service \<Rightarrow> int \<Rightarrow> string \<Rightarrow> token_error + claims" where
  "ValidateToken lib j now tokenString =
     (if tokenString = [] then Inl Token_Missing
      else case jl_parse lib (js_secret j) now tokenString of
          Inl Jwt_Expired \<Rightarrow> Inl Token_Expired
        | Inl Jwt_Other \<Rightarrow> Inl Token_Invalid
        | Inr c \<Rightarrow> Inr c)"

definition ValidateRefreshToken :: "jwt_lib \<Rightarrow> jwt_service \<Rightarrow> int \<Rightarrow> string \<Rightarrow> token_error + claims" where
  "ValidateRefreshToken lib j now tokenString =
     (if tokenString = [] then Inl Token_Missing
      else case jl_parse lib (js_secret j) now tokenString of
          Inl Jwt_Expired \<Rightarrow> Inl Token_Expired
        | Inl Jwt_Other \<Rightarrow> Inl Token_Invalid
        | Inr c \<Rightarrow>
            (let c1 = (if jc_user_id c = [] \<and> jc_subject c \<noteq> [] then c\<lparr>jc_user_id := jc_subject c\<rparr> else c)
             in if jc_user_id c1 = [] then Inl Token_Invalid else Inr c1))"

definition RefreshToken :: "jwt_lib \<Rightarrow> jwt_service \<Rightarrow> int \<Rightarrow> string \<Rightarrow> token_error + string \<times> string" where
  "RefreshToken lib j now refreshTokenString =
     (case ValidateRefreshToken lib j now refreshTokenString of
        Inl err \<Rightarrow> Inl err
      | Inr c \<Rightarrow>
          (case GenerateTokenWithPolicies lib j now (jc_user_id c) (jc_username c) (jc_roles c) (jc_policies c) of
             None \<Rightarrow> Inl Token_Failed
           | Some newToken \<Rightarrow>
               (case GenerateRefreshTokenWithPolicies lib j now (jc_user_id c) (jc_username c) (jc_roles c) (jc_policies c) of
                  None \<Rightarrow> Inl Token_Failed
                | Some newRefreshToken \<Rightarrow> Inr (newToken, newRefreshToken))))"

section \<open>Handlers\<close>

definition error_answer :: "nat \<Rightarrow> string \<Rightarrow> response" where
  "error_answer status message = \<lparr>rs_status = status, rs_data = JObj [(''error'', JStr message)]\<rparr>"

definition login_response :: "string \<Rightarrow> string \<Rightarrow> response" where
  "login_response token refreshToken = \<lparr>rs_status = 200,
     rs_data = JObj [(''token'', JStr token), (''refresh_token'', JStr refreshToken), (''expires_in'', JNum (15 * 60))]\<rparr>"

definition handle_login :: "jwt_lib \<Rightarrow> jwt_service \<Rightarrow> int \<Rightarrow> jsval \<Rightarrow> response" where
  "handle_login lib j now body =
     (case body_members body of
        None \<Rightarrow> error_answer 400 ''invalid request body''
      | Some kvs \<Rightarrow>
          (case (go_string kvs ''user_id'' [], go_string kvs ''username'' [], go_string kvs ''password'' []) of
             (Some userID, Some username, Some password) \<Rightarrow>
               if userID = [] \<or> username = [] then error_answer 400 ''user_id and username are required''
               else
                 (let roles = [''user''] in
                  case GenerateToken lib j now userID username roles of
                    None \<Rightarrow> error_answer 500 ''failed to generate token''
                  | Some token \<Rightarrow>
                      (case GenerateRefreshToken lib j now userID username roles of
                         None \<Rightarrow> error_answer 500 ''failed to generate refresh token''
                       | Some refreshToken \<Rightarrow> login_response token refreshToken))
           | _ \<Rightarrow> error_answer 400 ''invalid request body''))"

definition handle_refresh :: "jwt_lib \<Rightarrow> jwt_service \<Rightarrow> int \<Rightarrow> jsval \<Rightarrow> response" where
  "handle_refresh lib j now body =
     (case body_members body of
        None \<Rightarrow> error_answer 400 ''invalid request body''
      | Some kvs \<Rightarrow>
          (case go_string kvs ''refresh_token'' [] of
             None \<Rightarrow> error_answer 400 ''invalid request body''
           | Some refreshToken \<Rightarrow>
               if refreshToken = [] then error_answer 400 ''refresh_token is required''
               else (case RefreshToken lib j now refreshToken of
                   Inl Token_Expired \<Rightarrow> error_answer 401 ''refresh token expired''
                 | Inl Token_Invalid \<Rightarrow> error_answer 401 ''invalid refresh token''
                 | Inl _ \<Rightarrow> error_answer 500 ''failed to refresh token''
                 | Inr (newToken, newRefreshToken) \<Rightarrow> login_response newToken newRefreshToken)))"

section \<open>The middleware\<close>

definition go_space :: "char \<Rightarrow> bool" where
  "go_space c \<longleftrightarrow> code c \<in> {9, 10, 11, 12, 13, 32}"

definition TrimSpace :: "string \<Rightarrow> string" where
  \<comment> \<open>on ASCII texts\<close>
  "TrimSpace s = rev (dropWhile go_space (rev (dropWhile go_space s)))"

definition wildcard :: "string \<Rightarrow> bool" where
  "wildcard path \<longleftrightarrow> starts_with (rev path) ''*/''"

definition public_exact :: "string list \<Rightarrow> string list" where
  "public_exact publicPaths = filter (\<lambda>path. path \<noteq> [] \<and> \<not> wildcard path) (map TrimSpace publicPaths)"

definition public_prefixes :: "string list \<Rightarrow> string list" where
  "public_prefixes publicPaths = map butlast (filter wildcard (map TrimSpace publicPaths))"

definition url_path :: "string \<Rightarrow> string" where
  "url_path url = url_param [] url"

definition is_public :: "string list \<Rightarrow> string \<Rightarrow> bool" where
  "is_public publicPaths path \<longleftrightarrow>
     path \<in> set (public_exact publicPaths) \<or> list_ex (starts_with path) (public_prefixes publicPaths)"

definition JWTAuth ::
  "jwt_lib \<Rightarrow> jwt_service \<Rightarrow> string list \<Rightarrow> int \<Rightarrow> request \<Rightarrow> response + claims option" where
  \<comment> \<open>the answer that refuses the request, or the claims the next handler finds\<close>
  "JWTAuth lib j publicPaths now rq =
     (if is_public publicPaths (url_path (rq_url rq)) then Inr None
      else
        (let authHeader = (case rq_auth rq of None \<Rightarrow> [] | Some h \<Rightarrow> h) in
         if authHeader = [] then Inl (error_answer 401 ''missing authorization header'')
         else case split_on CHR '' '' authHeader of
             [scheme, token] \<Rightarrow>
               if scheme \<noteq> ''Bearer'' then Inl (error_answer 401 ''invalid authorization header format'')
               else (case ValidateToken lib j now token of
                   Inl Token_Expired \<Rightarrow> Inl (error_answer 401 ''token expired'')
                 | Inl Token_Missing \<Rightarrow> Inl (error_answer 401 ''token missing'')
                 | Inl _ \<Rightarrow> Inl (error_answer 401 ''invalid token'')
                 | Inr c \<Rightarrow> Inr (Some c))
           | _ \<Rightarrow> Inl (error_answer 401 ''invalid authorization header format'')))"

definition handle_verify :: "claims option \<Rightarrow> response" where
  "handle_verify found =
     (case found of
        None \<Rightarrow> error_answer 401 ''no valid token found''
      | Some c \<Rightarrow> \<lparr>rs_status = 200, rs_data = JObj [
          (''expires'', JNum (jc_expires c)), (''issuer'', JStr (jc_issuer c)),
          (''roles'', JArr (map JStr (jc_roles c))), (''user_id'', JStr (jc_user_id c)),
          (''username'', JStr (jc_username c))]\<rparr>)"

section \<open>What the library promises\<close>

definition ascii :: "string \<Rightarrow> bool" where
  "ascii s \<longleftrightarrow> list_all (\<lambda>c. code c < 128) s"

definition whole_date :: "int \<Rightarrow> bool" where
  "whole_date d \<longleftrightarrow> \<bar>d\<bar> < 2 ^ 53"

definition plain_claims :: "claims \<Rightarrow> bool" where
  \<comment> \<open>claims that JSON carries without a loss\<close>
  "plain_claims c \<longleftrightarrow> ascii (jc_user_id c) \<and> ascii (jc_username c) \<and> list_all ascii (jc_roles c)
     \<and> list_all ascii (jc_policies c) \<and> ascii (jc_issuer c) \<and> ascii (jc_subject c)
     \<and> whole_date (jc_expires c) \<and> whole_date (jc_issued c) \<and> whole_date (jc_not_before c)"

definition reading :: "int \<Rightarrow> claims \<Rightarrow> parse_error + claims" where
  \<comment> \<open>how a time falls in the dates of a token\<close>
  "reading now c =
     (if jc_expires c * 10 ^ 9 \<le> now then Inl Jwt_Expired
      else if now < jc_not_before c * 10 ^ 9 then Inl Jwt_Other else Inr c)"

definition signs :: "jwt_lib \<Rightarrow> string \<Rightarrow> claims \<Rightarrow> string \<Rightarrow> bool" where
  "signs lib secret c t \<longleftrightarrow> jl_sign lib secret c = Some t"

definition jwt_lib_ok :: "jwt_lib \<Rightarrow> bool" where
  "jwt_lib_ok lib \<longleftrightarrow> (\<forall>secret c. plain_claims c \<longrightarrow>
     (\<exists>t. signs lib secret c t \<and> t \<noteq> [] \<and> CHR '' '' \<notin> set t \<and> (\<forall>now. jl_parse lib secret now t = reading now c)))"

definition clock_ok :: "int \<Rightarrow> bool" where
  \<comment> \<open>what an \<open>int64\<close> of nanoseconds holds, from 1970 on\<close>
  "clock_ok now \<longleftrightarrow> 0 \<le> now \<and> now < 2 ^ 63"

definition jwt_ok :: "jwt_service \<Rightarrow> bool" where
  "jwt_ok j \<longleftrightarrow> clock_ok (js_expiry j) \<and> clock_ok (js_refresh_expiry j) \<and> ascii (js_issuer j)"

lemma lib_token:
  assumes "jwt_lib_ok lib" and "plain_claims c"
  obtains t where "jl_sign lib secret c = Some t" and "t \<noteq> []" and "CHR '' '' \<notin> set t"
    and "\<And>now. jl_parse lib secret now t = reading now c"
proof -
  have "\<exists>t. signs lib secret c t \<and> t \<noteq> [] \<and> CHR '' '' \<notin> set t \<and> (\<forall>now. jl_parse lib secret now t = reading now c)"
    using assms unfolding jwt_lib_ok_def by blast
  then show thesis using that unfolding signs_def by blast
qed

lemma lib_signed:
  assumes "jwt_lib_ok lib" and "plain_claims c" and "jl_sign lib secret c = Some t"
  shows "t \<noteq> []" and "CHR '' '' \<notin> set t" and "jl_parse lib secret now t = reading now c"
  by (rule lib_token [OF assms(1,2), of secret]; use assms(3) in simp)+

lemma lib_signs: "jwt_lib_ok lib \<Longrightarrow> plain_claims c \<Longrightarrow> \<exists>t. jl_sign lib secret c = Some t"
  by (rule lib_token [of lib c secret]) blast+

lemma clock_date: "clock_ok now \<Longrightarrow> clock_ok d \<Longrightarrow> whole_date (NewNumericDate (now + d))"
proof -
  assume "clock_ok now" and "clock_ok d"
  then have "0 \<le> now + d" "now + d < 2 ^ 64" by (simp_all add: clock_ok_def)
  then have "0 \<le> (now + d) div 10 ^ 9" "(now + d) div 10 ^ 9 < 2 ^ 53" by auto
  then show ?thesis by (simp add: whole_date_def NewNumericDate_def)
qed

lemma mk_claims_plain:
  assumes "jwt_ok j" and "clock_ok now" and "clock_ok d"
    and "ascii u" and "ascii n" and "list_all ascii rs" and "list_all ascii ps"
  shows "plain_claims (mk_claims j d now u n rs ps)"
  using assms clock_date [of now d] clock_date [of now 0]
  by (simp add: plain_claims_def mk_claims_def jwt_ok_def clock_ok_def)

section \<open>How long a token is good\<close>

definition last_moment :: "int \<Rightarrow> int" where
  \<comment> \<open>the whole second before a time\<close>
  "last_moment t = t div 10 ^ 9 * 10 ^ 9"

lemma reading_mk_claims:
  "now0 \<le> now \<Longrightarrow> reading now (mk_claims j d now0 u n rs ps) =
     (if now < last_moment (now0 + d) then Inr (mk_claims j d now0 u n rs ps) else Inl Jwt_Expired)"
proof -
  assume le: "now0 \<le> now"
  have "now0 div 10 ^ 9 * 10 ^ 9 \<le> now0" by simp
  with le have "\<not> now < now0 div 10 ^ 9 * 10 ^ 9" by linarith
  then show ?thesis by (auto simp: reading_def mk_claims_def NewNumericDate_def last_moment_def)
qed

lemma validate_signed:
  assumes "jwt_lib_ok lib" and "plain_claims (mk_claims j d now0 u n rs ps)" and "u \<noteq> []" and "now0 \<le> now"
    and "jl_sign lib (js_secret j) (mk_claims j d now0 u n rs ps) = Some t"
  shows "ValidateToken lib j now t =
      (if now < last_moment (now0 + d) then Inr (mk_claims j d now0 u n rs ps) else Inl Token_Expired)"
    and "ValidateRefreshToken lib j now t = ValidateToken lib j now t"
  using lib_signed [OF assms(1,2,5)] assms(3,4)
  by (simp_all add: ValidateToken_def ValidateRefreshToken_def reading_mk_claims) (simp add: mk_claims_def)

section \<open>A library that keeps the promise\<close>

definition claims_json :: "string \<Rightarrow> claims \<Rightarrow> jsval" where
  "claims_json secret c = JObj [
     (''secret'', JStr secret), (''user_id'', JStr (jc_user_id c)), (''username'', JStr (jc_username c)),
     (''roles'', JArr (map JStr (jc_roles c))), (''policies'', JArr (map JStr (jc_policies c))),
     (''exp'', JNum (jc_expires c)), (''iat'', JNum (jc_issued c)), (''nbf'', JNum (jc_not_before c)),
     (''iss'', JStr (jc_issuer c)), (''sub'', JStr (jc_subject c))]"

definition read_claims :: "jsval \<Rightarrow> (string \<times> claims) option" where
  "read_claims v =
     (case v of
        JObj [(_, JStr secret), (_, JStr u), (_, JStr n), (_, JArr rs), (_, JArr ps),
              (_, JNum e), (_, JNum i), (_, JNum b), (_, JStr iss), (_, JStr s)] \<Rightarrow>
          Some (secret, \<lparr>jc_user_id = u, jc_username = n, jc_roles = map to_str rs, jc_policies = map to_str ps,
            jc_expires = e, jc_issued = i, jc_not_before = b, jc_issuer = iss, jc_subject = s\<rparr>)
      | _ \<Rightarrow> None)"

definition demo_lib :: jwt_lib where
  "demo_lib = \<lparr>
     jl_sign = (\<lambda>secret c. Some (b64_encode (json_stringify (claims_json secret c)))),
     jl_parse = (\<lambda>secret now t.
       case Option.bind (Option.bind (atob t) json_parse) read_claims of
         Some (k, c) \<Rightarrow> if k = secret then reading now c else Inl Jwt_Other
       | None \<Rightarrow> Inl Jwt_Other)\<rparr>"

lemma claims_json_ok: "plain_claims c \<Longrightarrow> json_ok (claims_json secret c)"
proof -
  assume "plain_claims c"
  then have "\<bar>jc_expires c\<bar> < 2 ^ 53" "\<bar>jc_issued c\<bar> < 2 ^ 53" "\<bar>jc_not_before c\<bar> < 2 ^ 53"
    by (simp_all add: plain_claims_def whole_date_def)
  moreover have "obj_of [(''secret'', a0), (''user_id'', a1), (''username'', a2), (''roles'', a3), (''policies'', a4),
        (''exp'', a5), (''iat'', a6), (''nbf'', a7), (''iss'', a8), (''sub'', a9)]
      = [(''secret'', a0), (''user_id'', a1), (''username'', a2), (''roles'', a3), (''policies'', a4),
        (''exp'', a5), (''iat'', a6), (''nbf'', a7), (''iss'', a8), (''sub'', a9)]"
    for a0 a1 a2 a3 a4 a5 a6 a7 a8 a9
    by (simp add: obj_of_def obj_put_def index_key_def is_digit_def code_def)
  ultimately show ?thesis by (simp add: claims_json_def list_all_iff)
qed

lemma read_claims_json: "read_claims (claims_json secret c) = Some (secret, c)"
  by (simp add: read_claims_def claims_json_def comp_def)

lemma b64_no_space: "CHR '' '' \<notin> set (b64_encode s)"
proof
  let ?bs = "map code s"
  assume "CHR '' '' \<in> set (b64_encode s)"
  then obtain n where "n \<in> set (bytes_core ?bs)" "sextet_char n = CHR '' ''"
    by (auto simp: b64_encode_def bytes_text_core)
  moreover have "\<forall>n \<in> set (bytes_core ?bs). n < 64" by (rule bytes_core_small) (simp add: code_less)
  ultimately have "\<not> ascii_ws CHR '' ''" using sextet_char_plain by metis
  then show False by (simp add: ascii_ws_def code_def)
qed

lemma atob_empty: "atob [] = Some []"
  by (simp add: atob_def base64_text_def strip_padding_def)

lemma demo_lib_ok: "jwt_lib_ok demo_lib"
proof -
  have "b64_encode s \<noteq> []" if "s \<noteq> []" for s
    using atob_encode [of s] atob_empty that by auto
  with b64_no_space show ?thesis
    by (auto simp: jwt_lib_ok_def signs_def demo_lib_def atob_encode json_parse_stringify claims_json_ok
        read_claims_json json_stringify_nonempty)
qed

end
