(* ===== verification/Server_ApiKeys.thy ===== *)
theory Server_ApiKeys
  imports Server_Auth
begin

text \<open>
  The API keys on the server: the service (internal/auth/apikey.go) and the handlers of
  /auth/apikeys (internal/handlers/auth.go). What a computer draws at random, the hash of
  a key and the identifiers are parameters, functions of the number of draws before; the time of
  an operation is its argument \<open>now\<close>. A nil slice or map is \<open>None\<close>, told from an empty
  one as the code does. The lemmas give the life of a key: what validates it and what ends it.
\<close>

section \<open>The service\<close>

record api_key =
  ky_id :: string
  ky_name :: string
  ky_hash :: string
  ky_permissions :: "string list option"
  ky_metadata :: "(string \<times> string) list option"
  ky_created :: int
  ky_expires :: "int option"
  ky_used :: "int option"
  ky_enabled :: bool

record key_service =
  as_keys :: "string \<rightharpoonup> api_key"
  as_prefix :: string
  as_draws :: nat

record key_env =
  kn_hash :: "string \<Rightarrow> string"
  kn_random :: "nat \<Rightarrow> string option"
  kn_uuid :: "nat \<Rightarrow> string"
  kn_order :: "string set \<Rightarrow> string list"
  kn_time :: "int \<Rightarrow> string"

datatype key_error = Key_Not_Found | Key_Expired | Key_Disabled | Key_Failed

definition NewAPIKeyService :: "string \<Rightarrow> key_service" where
  "NewAPIKeyService prefix =
     \<lparr>as_keys = Map.empty, as_prefix = (if prefix = [] then ''konsul'' else prefix), as_draws = 0\<rparr>"

definition key_string :: "string \<Rightarrow> string \<Rightarrow> string" where
  "key_string prefix random = prefix @ ''_'' @ random"

definition GenerateAPIKey ::
  "key_env \<Rightarrow> int \<Rightarrow> string \<Rightarrow> string list option \<Rightarrow> (string \<times> string) list option \<Rightarrow> int option \<Rightarrow> key_service
    \<Rightarrow> (key_error + string \<times> api_key) \<times> key_service" where
  "GenerateAPIKey env now name permissions metadata expiresAt ks =
     (if name = [] then (Inl Key_Failed, ks)
      else case kn_random env (as_draws ks) of
          None \<Rightarrow> (Inl Key_Failed, ks\<lparr>as_draws := Suc (as_draws ks)\<rparr>)
        | Some random \<Rightarrow>
            (let keyString = key_string (as_prefix ks) random;
                 keyHash = kn_hash env keyString;
                 apiKey = \<lparr>ky_id = kn_uuid env (as_draws ks), ky_name = name, ky_hash = keyHash,
                           ky_permissions = permissions, ky_metadata = metadata, ky_created = now,
                           ky_expires = expiresAt, ky_used = None, ky_enabled = True\<rparr>
             in (Inr (keyString, apiKey),
                 ks\<lparr>as_keys := (as_keys ks)(keyHash \<mapsto> apiKey), as_draws := Suc (as_draws ks)\<rparr>)))"

definition ValidateAPIKey :: "key_env \<Rightarrow> int \<Rightarrow> string \<Rightarrow> key_service \<Rightarrow> (key_error + api_key) \<times> key_service" where
  "ValidateAPIKey env now keyString ks =
     (if keyString = [] then (Inl Key_Not_Found, ks)
      else case as_keys ks (kn_hash env keyString) of
          None \<Rightarrow> (Inl Key_Not_Found, ks)
        | Some apiKey \<Rightarrow>
            if \<not> ky_enabled apiKey then (Inl Key_Disabled, ks)
            else if (case ky_expires apiKey of None \<Rightarrow> False | Some e \<Rightarrow> e < now) then (Inl Key_Expired, ks)
            else (let used = apiKey\<lparr>ky_used := Some now\<rparr>
                  in (Inr used, ks\<lparr>as_keys := (as_keys ks)(kn_hash env keyString \<mapsto> used)\<rparr>)))"

definition find_key :: "key_env \<Rightarrow> string \<Rightarrow> key_service \<Rightarrow> string option" where
  \<comment> \<open>the loop over the map: the hash of the first key with the identifier\<close>
  "find_key env keyID ks =
     find (\<lambda>keyHash. map_option ky_id (as_keys ks keyHash) = Some keyID) (kn_order env (dom (as_keys ks)))"

definition change_key :: "key_env \<Rightarrow> string \<Rightarrow> (api_key \<Rightarrow> api_key option) \<Rightarrow> key_service \<Rightarrow> (key_error + unit) \<times> key_service" where
  "change_key env keyID f ks =
     (case find_key env keyID ks of
        None \<Rightarrow> (Inl Key_Not_Found, ks)
      | Some keyHash \<Rightarrow>
          (Inr (), ks\<lparr>as_keys := (as_keys ks)(keyHash := Option.bind (as_keys ks keyHash) f)\<rparr>))"

definition RevokeAPIKey :: "key_env \<Rightarrow> string \<Rightarrow> key_service \<Rightarrow> (key_error + unit) \<times> key_service" where
  "RevokeAPIKey env keyID ks = change_key env keyID (\<lambda>k. Some (k\<lparr>ky_enabled := False\<rparr>)) ks"

definition DeleteAPIKey :: "key_env \<Rightarrow> string \<Rightarrow> key_service \<Rightarrow> (key_error + unit) \<times> key_service" where
  "DeleteAPIKey env keyID ks = change_key env keyID (\<lambda>k. None) ks"

definition update_key ::
  "string \<Rightarrow> string list option \<Rightarrow> (string \<times> string) list option \<Rightarrow> bool option \<Rightarrow> api_key \<Rightarrow> api_key" where
  "update_key name permissions metadata enabled k =
     k\<lparr>ky_name := (if name \<noteq> [] then name else ky_name k),
       ky_permissions := (if permissions \<noteq> None then permissions else ky_permissions k),
       ky_metadata := (if metadata \<noteq> None then metadata else ky_metadata k),
       ky_enabled := (case enabled of None \<Rightarrow> ky_enabled k | Some b \<Rightarrow> b)\<rparr>"

definition UpdateAPIKey ::
  "key_env \<Rightarrow> string \<Rightarrow> string \<Rightarrow> string list option \<Rightarrow> (string \<times> string) list option \<Rightarrow> bool option \<Rightarrow> key_service
    \<Rightarrow> (key_error + unit) \<times> key_service" where
  "UpdateAPIKey env keyID name permissions metadata enabled ks =
     change_key env keyID (\<lambda>k. Some (update_key name permissions metadata enabled k)) ks"

definition without_hash :: "api_key \<Rightarrow> api_key" where
  \<comment> \<open>the copy without sensitive data\<close>
  "without_hash k = k\<lparr>ky_hash := []\<rparr>"

definition ListAPIKeys :: "key_env \<Rightarrow> key_service \<Rightarrow> api_key list" where
  "ListAPIKeys env ks = map (\<lambda>h. without_hash (the (as_keys ks h))) (kn_order env (dom (as_keys ks)))"

definition GetAPIKey :: "key_env \<Rightarrow> string \<Rightarrow> key_service \<Rightarrow> key_error + api_key" where
  "GetAPIKey env keyID ks =
     (case find_key env keyID ks of
        None \<Rightarrow> Inl Key_Not_Found
      | Some keyHash \<Rightarrow> Inr (without_hash (the (as_keys ks keyHash))))"

definition HasPermission :: "api_key option \<Rightarrow> string \<Rightarrow> bool" where
  "HasPermission apiKey permission =
     (case apiKey of
        None \<Rightarrow> False
      | Some k \<Rightarrow> list_ex (\<lambda>perm. perm = permission \<or> perm = ''*'') (case ky_permissions k of None \<Rightarrow> [] | Some ps \<Rightarrow> ps))"

section \<open>Handlers\<close>

definition given :: "(string \<times> jsval) list \<Rightarrow> string \<Rightarrow> bool" where
  \<comment> \<open>whether a pointer, slice or map field is set: the last member of the name is not null\<close>
  "given kvs name =
     (case filter (\<lambda>(k, v). to_lower k = name \<and> v \<noteq> JUndef) kvs of
        [] \<Rightarrow> False | ms \<Rightarrow> snd (last ms) \<notin> {JNull, JNaN})"

definition if_given :: "(string \<times> jsval) list \<Rightarrow> string \<Rightarrow> 'a \<Rightarrow> 'a option" where
  "if_given kvs name x = (if given kvs name then Some x else None)"

fun go_bool :: "(string \<times> jsval) list \<Rightarrow> string \<Rightarrow> bool \<Rightarrow> bool option" where
  "go_bool [] name b = Some b"
| "go_bool ((k, v) # kvs) name b =
     (if to_lower k \<noteq> name then go_bool kvs name b
      else case v of
          JUndef \<Rightarrow> go_bool kvs name b
        | JNull \<Rightarrow> go_bool kvs name b
        | JNaN \<Rightarrow> go_bool kvs name b
        | JBool c \<Rightarrow> go_bool kvs name c
        | _ \<Rightarrow> None)"

definition raw_body :: "jsval \<Rightarrow> jsval" where
  \<comment> \<open>the value in a body that was sent as a text\<close>
  "raw_body body =
     (case body of JStr t \<Rightarrow> (case json_parse t of None \<Rightarrow> JUndef | Some v \<Rightarrow> v) | _ \<Rightarrow> body)"

definition nullable :: "('a \<Rightarrow> jsval) \<Rightarrow> 'a option \<Rightarrow> jsval" where
  "nullable f x = (case x of None \<Rightarrow> JNull | Some a \<Rightarrow> f a)"

definition api_key_json :: "key_env \<Rightarrow> api_key \<Rightarrow> jsval" where
  "api_key_json env k =
     JObj ([(''id'', JStr (ky_id k)), (''name'', JStr (ky_name k)), (''key_hash'', JStr (ky_hash k)),
            (''permissions'', nullable (\<lambda>ps. JArr (map JStr ps)) (ky_permissions k)),
            (''metadata'', nullable (\<lambda>m. JObj (map (\<lambda>(a, b). (a, JStr b)) (sort_key fst m))) (ky_metadata k)),
            (''created_at'', JStr (kn_time env (ky_created k)))]
       @ optional_member (ky_expires k \<noteq> None) ''expires_at'' (JStr (kn_time env (the (ky_expires k))))
       @ optional_member (ky_used k \<noteq> None) ''last_used_at'' (JStr (kn_time env (the (ky_used k))))
       @ [(''enabled'', JBool (ky_enabled k))])"

definition go_duration :: "int \<Rightarrow> int" where
  \<comment> \<open>\<open>time.Duration(n) * time.Second\<close> in 64 bits\<close>
  "go_duration n = sint (word_of_int (n * 10 ^ 9) :: 64 word)"

definition create_request ::
  "jsval \<Rightarrow> (string \<times> string list option \<times> (string \<times> string) list option \<times> int option) option" where
  "create_request body =
     (case body_members (raw_body body) of
        None \<Rightarrow> None
      | Some kvs \<Rightarrow>
          (case (go_string kvs ''name'' [], go_strings kvs ''permissions'' [], go_string_map kvs ''metadata'' [],
                 go_int kvs ''expires_in'' 0) of
             (Some n, Some ps, Some m, Some e) \<Rightarrow>
               Some (n, if_given kvs ''permissions'' ps, if_given kvs ''metadata'' m, if_given kvs ''expires_in'' e)
           | _ \<Rightarrow> None))"

definition handle_create_key :: "key_env \<Rightarrow> int \<Rightarrow> jsval \<Rightarrow> key_service \<Rightarrow> response \<times> key_service" where
  "handle_create_key env now body ks =
     (case create_request body of
        None \<Rightarrow> (error_answer 400 ''invalid request body'', ks)
      | Some (name, permissions, metadata, expiresIn) \<Rightarrow>
          if name = [] then (error_answer 400 ''name is required'', ks)
          else
            (let expiresAt = map_option (\<lambda>n. now + go_duration n) expiresIn
             in case GenerateAPIKey env now name permissions metadata expiresAt ks of
                  (Inl _, ks') \<Rightarrow> (error_answer 500 ''failed to generate API key'', ks')
                | (Inr (keyString, apiKey), ks') \<Rightarrow>
                    (\<lparr>rs_status = 201,
                      rs_data = JObj [(''key'', JStr keyString), (''api_key'', api_key_json env apiKey)]\<rparr>, ks')))"

definition handle_list_keys :: "key_env \<Rightarrow> key_service \<Rightarrow> response" where
  "handle_list_keys env ks =
     (let keys = ListAPIKeys env ks
      in \<lparr>rs_status = 200, rs_data = JObj [(''count'', JNum (int (length keys))),
            (''keys'', JArr (map (api_key_json env) keys))]\<rparr>)"

definition handle_get_key :: "key_env \<Rightarrow> string \<Rightarrow> key_service \<Rightarrow> response" where
  "handle_get_key env keyID ks =
     (case GetAPIKey env keyID ks of
        Inl Key_Not_Found \<Rightarrow> error_answer 404 ''API key not found''
      | Inl _ \<Rightarrow> error_answer 500 ''failed to get API key''
      | Inr k \<Rightarrow> \<lparr>rs_status = 200, rs_data = api_key_json env k\<rparr>)"

definition change_answer :: "string \<Rightarrow> string \<Rightarrow> (key_error + unit) \<times> key_service \<Rightarrow> response \<times> key_service" where
  \<comment> \<open>how the handlers that change a key answer\<close>
  "change_answer verb done r =
     (case r of
        (Inl Key_Not_Found, ks) \<Rightarrow> (error_answer 404 ''API key not found'', ks)
      | (Inl _, ks) \<Rightarrow> (error_answer 500 (''failed to '' @ verb @ '' API key''), ks)
      | (Inr _, ks) \<Rightarrow> (\<lparr>rs_status = 200, rs_data = JObj [(''message'', JStr (''API key '' @ done @ '' successfully''))]\<rparr>, ks))"

definition handle_revoke_key :: "key_env \<Rightarrow> string \<Rightarrow> key_service \<Rightarrow> response \<times> key_service" where
  "handle_revoke_key env keyID ks = change_answer ''revoke'' ''revoked'' (RevokeAPIKey env keyID ks)"

definition handle_delete_key :: "key_env \<Rightarrow> string \<Rightarrow> key_service \<Rightarrow> response \<times> key_service" where
  "handle_delete_key env keyID ks = change_answer ''delete'' ''deleted'' (DeleteAPIKey env keyID ks)"

definition handle_update_key :: "key_env \<Rightarrow> string \<Rightarrow> jsval \<Rightarrow> key_service \<Rightarrow> response \<times> key_service" where
  "handle_update_key env keyID body ks =
     (case body_members (raw_body body) of
        None \<Rightarrow> (error_answer 400 ''invalid request body'', ks)
      | Some kvs \<Rightarrow>
          (case (go_string kvs ''name'' [], go_strings kvs ''permissions'' [], go_string_map kvs ''metadata'' [],
                 go_bool kvs ''enabled'' False) of
             (Some n, Some ps, Some m, Some b) \<Rightarrow>
               change_answer ''update'' ''updated''
                 (UpdateAPIKey env keyID n (if_given kvs ''permissions'' ps) (if_given kvs ''metadata'' m)
                    (if_given kvs ''enabled'' b) ks)
           | _ \<Rightarrow> (error_answer 400 ''invalid request body'', ks)))"

section \<open>The machine of the service\<close>

definition key_env_ok :: "key_env \<Rightarrow> string \<Rightarrow> bool" where
  \<comment> \<open>no two draws give the same identifier or the same hash\<close>
  "key_env_ok env prefix \<longleftrightarrow> order_ok (kn_order env) \<and> inj (kn_uuid env)
     \<and> (\<forall>m n r s. kn_random env m = Some r \<longrightarrow> kn_random env n = Some s \<longrightarrow>
          kn_hash env (key_string prefix r) = kn_hash env (key_string prefix s) \<longrightarrow> m = n)"

definition drawn :: "key_env \<Rightarrow> string \<Rightarrow> nat \<Rightarrow> string \<Rightarrow> api_key \<Rightarrow> bool" where
  \<comment> \<open>a key that the draw of a number made\<close>
  "drawn env prefix n h k \<longleftrightarrow> (\<exists>r. kn_random env n = Some r \<and> h = kn_hash env (key_string prefix r))
     \<and> ky_hash k = h \<and> ky_id k = kn_uuid env n"

definition key_service_ok :: "key_env \<Rightarrow> key_service \<Rightarrow> bool" where
  "key_service_ok env ks \<longleftrightarrow> finite (dom (as_keys ks))
     \<and> (\<forall>h k. as_keys ks h = Some k \<longrightarrow> (\<exists>n < as_draws ks. drawn env (as_prefix ks) n h k))"

datatype key_op =
    KO_Create string "string list option" "(string \<times> string) list option" "int option"
  | KO_Validate string
  | KO_Revoke string
  | KO_Delete string
  | KO_Update string string "string list option" "(string \<times> string) list option" "bool option"

fun key_apply :: "key_env \<Rightarrow> int \<Rightarrow> key_op \<Rightarrow> key_service \<Rightarrow> key_service" where
  "key_apply env now (KO_Create n ps m e) ks = snd (GenerateAPIKey env now n ps m e ks)"
| "key_apply env now (KO_Validate s) ks = snd (ValidateAPIKey env now s ks)"
| "key_apply env now (KO_Revoke i) ks = snd (RevokeAPIKey env i ks)"
| "key_apply env now (KO_Delete i) ks = snd (DeleteAPIKey env i ks)"
| "key_apply env now (KO_Update i n ps m b) ks = snd (UpdateAPIKey env i n ps m b ks)"

definition key_run :: "key_env \<Rightarrow> (int \<times> key_op) list \<Rightarrow> key_service \<Rightarrow> key_service" where
  "key_run env ops = fold (\<lambda>(now, a). key_apply env now a) ops"

definition keeps_identity :: "(api_key \<Rightarrow> api_key option) \<Rightarrow> bool" where
  "keeps_identity f \<longleftrightarrow> (\<forall>k k'. f k = Some k' \<longrightarrow> ky_id k' = ky_id k \<and> ky_hash k' = ky_hash k)"

lemma keeps_identity_changes [simp]:
  "keeps_identity (\<lambda>k. Some (k\<lparr>ky_enabled := b\<rparr>))"
  "keeps_identity (\<lambda>k. None)"
  "keeps_identity (\<lambda>k. Some (update_key n ps m e k))"
  by (simp_all add: keeps_identity_def update_key_def)

lemma find_key_Some:
  "find_key env i ks = Some h \<Longrightarrow> \<exists>k. as_keys ks h = Some k \<and> ky_id k = i"
  by (auto simp: find_key_def find_Some_iff)

lemma find_key_None:
  assumes "order_ok (kn_order env)" and "finite (dom (as_keys ks))"
  shows "find_key env i ks = None \<longleftrightarrow> (\<forall>h k. as_keys ks h = Some k \<longrightarrow> ky_id k \<noteq> i)"
  using order_set [OF assms] by (auto simp: find_key_def find_None_iff)

lemma drawn_unique:
  assumes "key_env_ok env p"
  shows "drawn env p m h k \<Longrightarrow> drawn env p n h' k' \<Longrightarrow> h = h' \<Longrightarrow> m = n"
    and "drawn env p m h k \<Longrightarrow> drawn env p n h' k' \<Longrightarrow> ky_id k = ky_id k' \<Longrightarrow> h = h'"
proof -
  show "drawn env p m h k \<Longrightarrow> drawn env p n h' k' \<Longrightarrow> h = h' \<Longrightarrow> m = n"
    using assms unfolding key_env_ok_def drawn_def by metis
  assume "drawn env p m h k" and "drawn env p n h' k'" and "ky_id k = ky_id k'"
  moreover from this have "m = n" using assms unfolding key_env_ok_def drawn_def by (metis injD)
  ultimately show "h = h'" unfolding drawn_def by auto
qed

lemma find_key_iff:
  assumes "key_service_ok env ks" and "key_env_ok env (as_prefix ks)"
  shows "find_key env i ks = Some h \<longleftrightarrow> (\<exists>k. as_keys ks h = Some k \<and> ky_id k = i)"
proof
  assume "\<exists>k. as_keys ks h = Some k \<and> ky_id k = i"
  then obtain k where k: "as_keys ks h = Some k" "ky_id k = i" by blast
  with assms find_key_None [of env ks i] have "find_key env i ks \<noteq> None"
    by (auto simp: key_service_ok_def key_env_ok_def)
  then obtain h' where h': "find_key env i ks = Some h'" by blast
  from find_key_Some [OF this] obtain k' where k': "as_keys ks h' = Some k'" "ky_id k' = i" by blast
  from k k' assms(1) obtain m n where "drawn env (as_prefix ks) m h k" "drawn env (as_prefix ks) n h' k'"
    by (auto simp: key_service_ok_def) blast
  with drawn_unique(2) [OF assms(2)] k(2) k'(2) have "h = h'" by metis
  with h' show "find_key env i ks = Some h" by simp
qed (rule find_key_Some)

lemma change_key_keys:
  assumes "key_service_ok env ks" and "key_env_ok env (as_prefix ks)"
  shows "as_keys (snd (change_key env i f ks)) h =
    (case as_keys ks h of None \<Rightarrow> None | Some k \<Rightarrow> if ky_id k = i then f k else Some k)"
proof (cases "find_key env i ks")
  case None
  have "order_ok (kn_order env)" "finite (dom (as_keys ks))"
    using assms by (simp_all add: key_service_ok_def key_env_ok_def)
  from None find_key_None [OF this] have "\<forall>h k. as_keys ks h = Some k \<longrightarrow> ky_id k \<noteq> i" by simp
  with None show ?thesis by (auto simp: change_key_def split: option.split)
next
  case (Some h')
  with find_key_iff [OF assms, of i h'] find_key_iff [OF assms, of i h] show ?thesis
    by (auto simp: change_key_def split: option.split)
qed

lemma change_key_fields [simp]:
  "as_prefix (snd (change_key env i f ks)) = as_prefix ks" "as_draws (snd (change_key env i f ks)) = as_draws ks"
  by (simp_all add: change_key_def split: option.split)

lemma dom_change_key: "dom (as_keys (snd (change_key env i f ks))) \<subseteq> insert (the (find_key env i ks)) (dom (as_keys ks))"
  by (auto simp: change_key_def split: option.splits if_splits)

lemma change_key_ok:
  assumes "key_service_ok env ks" and "key_env_ok env (as_prefix ks)" and "keeps_identity f"
  shows "key_service_ok env (snd (change_key env i f ks))"
proof -
  have "finite (dom (as_keys (snd (change_key env i f ks))))"
    using assms(1) by (intro finite_subset [OF dom_change_key]) (simp add: key_service_ok_def)
  moreover have "\<exists>n < as_draws ks. drawn env (as_prefix ks) n h k'"
    if "as_keys (snd (change_key env i f ks)) h = Some k'" for h k'
  proof -
    from that obtain k where k: "as_keys ks h = Some k" "ky_id k' = ky_id k" "ky_hash k' = ky_hash k"
      using assms(3) by (auto simp: change_key_keys [OF assms(1,2)] keeps_identity_def split: option.splits if_splits)
    with assms(1) show ?thesis by (auto simp: key_service_ok_def drawn_def)
  qed
  ultimately show ?thesis by (simp add: key_service_ok_def)
qed

lemma generate_cases:
  assumes "GenerateAPIKey env now name ps m e ks = (r, ks')"
  shows "(\<exists>err. r = Inl err) \<and> as_keys ks' = as_keys ks \<and> as_draws ks \<le> as_draws ks'
    \<or> (\<exists>x k. kn_random env (as_draws ks) = Some x \<and> r = Inr (key_string (as_prefix ks) x, k)
        \<and> drawn env (as_prefix ks) (as_draws ks) (kn_hash env (key_string (as_prefix ks) x)) k
        \<and> ky_name k = name \<and> ky_permissions k = ps \<and> ky_expires k = e \<and> ky_enabled k
        \<and> ks' = ks\<lparr>as_keys := (as_keys ks)(kn_hash env (key_string (as_prefix ks) x) \<mapsto> k), as_draws := Suc (as_draws ks)\<rparr>)"
  using assms by (auto simp: GenerateAPIKey_def Let_def drawn_def split: if_splits option.splits)

lemma generate_prefix [simp]: "as_prefix (snd (GenerateAPIKey env now name ps m e ks)) = as_prefix ks"
  by (auto simp: GenerateAPIKey_def Let_def split: option.split)

lemma key_apply_prefix [simp]: "as_prefix (key_apply env now a ks) = as_prefix ks"
  by (cases a) (auto simp: RevokeAPIKey_def DeleteAPIKey_def UpdateAPIKey_def ValidateAPIKey_def Let_def split: option.split)

lemma key_apply_ok:
  assumes "key_service_ok env ks" and "key_env_ok env (as_prefix ks)"
  shows "key_service_ok env (key_apply env now a ks)"
proof (cases a)
  case (KO_Create n ps m e)
  obtain r ks' where g: "GenerateAPIKey env now n ps m e ks = (r, ks')" by force
  then have p: "as_prefix ks' = as_prefix ks" using generate_prefix [of env now n ps m e ks] by simp
  from generate_cases [OF g] show ?thesis
  proof (elim disjE exE conjE)
    assume "as_keys ks' = as_keys ks" "as_draws ks \<le> as_draws ks'"
    with assms(1) show ?thesis using KO_Create g p by (simp add: key_service_ok_def) (meson less_le_trans)
  next
    fix x k
    assume "drawn env (as_prefix ks) (as_draws ks) (kn_hash env (key_string (as_prefix ks) x)) k"
      "ks' = ks\<lparr>as_keys := (as_keys ks)(kn_hash env (key_string (as_prefix ks) x) \<mapsto> k), as_draws := Suc (as_draws ks)\<rparr>"
    with assms(1) show ?thesis using KO_Create g by (auto simp: key_service_ok_def less_Suc_eq)
  qed
next
  case (KO_Validate s)
  with assms(1) show ?thesis
    by (auto simp: key_service_ok_def ValidateAPIKey_def Let_def drawn_def split: option.splits)
next
  case (KO_Revoke i)
  with change_key_ok [OF assms] show ?thesis by (simp add: RevokeAPIKey_def)
next
  case (KO_Delete i)
  with change_key_ok [OF assms] show ?thesis by (simp add: DeleteAPIKey_def)
next
  case (KO_Update i n ps m b)
  with change_key_ok [OF assms] show ?thesis by (simp add: UpdateAPIKey_def)
qed

lemma key_run_ok:
  "key_service_ok env ks \<Longrightarrow> key_env_ok env (as_prefix ks) \<Longrightarrow>
    key_service_ok env (key_run env ops ks) \<and> as_prefix (key_run env ops ks) = as_prefix ks"
  by (induction ops arbitrary: ks) (auto simp: key_run_def key_apply_ok)

lemma key_service_new: "key_service_ok env (NewAPIKeyService prefix)"
  by (simp add: key_service_ok_def NewAPIKeyService_def)

section \<open>The life of a key\<close>

fun spares :: "string \<Rightarrow> key_op \<Rightarrow> bool" where
  \<comment> \<open>an operation that does not change the key with an identifier\<close>
  "spares i (KO_Revoke j) \<longleftrightarrow> j \<noteq> i"
| "spares i (KO_Delete j) \<longleftrightarrow> j \<noteq> i"
| "spares i (KO_Update j n ps m b) \<longleftrightarrow> j \<noteq> i"
| "spares i _ \<longleftrightarrow> True"

lemma used_same: "x = Some k \<Longrightarrow> \<exists>u. x = Some (k\<lparr>ky_used := u\<rparr>)" for k :: api_key
  by (rule exI [of _ "ky_used k"]) simp

lemma spared_step:
  assumes "key_service_ok env ks" and "key_env_ok env (as_prefix ks)" and "as_keys ks h = Some k" and "spares (ky_id k) a"
  shows "\<exists>u. as_keys (key_apply env now a ks) h = Some (k\<lparr>ky_used := u\<rparr>)"
proof (cases a)
  case (KO_Create n ps m e)
  obtain r ks' where g: "GenerateAPIKey env now n ps m e ks = (r, ks')" by force
  obtain n0 where n0: "n0 < as_draws ks" "drawn env (as_prefix ks) n0 h k"
    using assms(1,3) unfolding key_service_ok_def by blast
  from generate_cases [OF g] have "as_keys ks' h = Some k"
  proof (elim disjE exE conjE)
    fix x k'
    let ?h = "kn_hash env (key_string (as_prefix ks) x)"
    assume d: "drawn env (as_prefix ks) (as_draws ks) ?h k'"
      and ks': "ks' = ks\<lparr>as_keys := (as_keys ks)(?h \<mapsto> k'), as_draws := Suc (as_draws ks)\<rparr>"
    from drawn_unique(1) [OF assms(2) n0(2) d] n0(1) have "h \<noteq> ?h" by blast
    with ks' assms(3) show ?thesis by simp
  qed (use assms(3) in simp)
  then show ?thesis using KO_Create g used_same by simp
next
  case (KO_Validate s)
  have "as_keys (snd (ValidateAPIKey env now s ks)) h = Some k
    \<or> as_keys (snd (ValidateAPIKey env now s ks)) h = Some (k\<lparr>ky_used := Some now\<rparr>)"
    using assms(3) by (auto simp: ValidateAPIKey_def Let_def split: option.split)
  then show ?thesis using KO_Validate used_same by auto
qed (use assms change_key_keys [OF assms(1,2)] used_same in
      \<open>simp_all add: RevokeAPIKey_def DeleteAPIKey_def UpdateAPIKey_def\<close>)

lemma spared_run:
  assumes "key_service_ok env ks" and "key_env_ok env (as_prefix ks)" and "as_keys ks h = Some k"
    and "list_all (\<lambda>(now, a). spares (ky_id k) a) ops"
  shows "\<exists>u. as_keys (key_run env ops ks) h = Some (k\<lparr>ky_used := u\<rparr>)"
  using assms
proof (induction ops arbitrary: ks k)
  case Nil
  then show ?case using used_same by (simp add: key_run_def)
next
  case (Cons op ops)
  obtain now a where op: "op = (now, a)" by force
  with Cons.prems spared_step [of env ks h k a now] obtain u
    where u: "as_keys (key_apply env now a ks) h = Some (k\<lparr>ky_used := u\<rparr>)" by auto
  have "\<exists>v. as_keys (key_run env ops (key_apply env now a ks)) h = Some (k\<lparr>ky_used := u\<rparr>\<lparr>ky_used := v\<rparr>)"
    using Cons.prems op by (intro Cons.IH) (simp_all add: key_apply_ok u)
  then show ?case by (simp add: key_run_def op)
qed

definition gone :: "key_env \<Rightarrow> string \<Rightarrow> key_service \<Rightarrow> bool" where
  \<comment> \<open>the hash of an earlier draw that no key has any more\<close>
  "gone env h ks \<longleftrightarrow> as_keys ks h = None
     \<and> (\<exists>n < as_draws ks. \<exists>r. kn_random env n = Some r \<and> h = kn_hash env (key_string (as_prefix ks) r))"

lemma gone_step:
  assumes "key_service_ok env ks" and "key_env_ok env (as_prefix ks)" and "gone env h ks"
  shows "gone env h (key_apply env now a ks)"
proof (cases a)
  case (KO_Create n ps m e)
  obtain r ks' where g: "GenerateAPIKey env now n ps m e ks = (r, ks')" by force
  obtain n0 r0 where n0: "n0 < as_draws ks" "kn_random env n0 = Some r0" "h = kn_hash env (key_string (as_prefix ks) r0)"
    using assms(3) unfolding gone_def by blast
  have p: "as_prefix ks' = as_prefix ks" using g generate_prefix [of env now n ps m e ks] by simp
  from generate_cases [OF g] have "gone env h ks'"
  proof (elim disjE exE conjE)
    assume "as_keys ks' = as_keys ks" and "as_draws ks \<le> as_draws ks'"
    with assms(3) p show ?thesis unfolding gone_def using less_le_trans by fastforce
  next
    fix x k'
    let ?h = "kn_hash env (key_string (as_prefix ks) x)"
    assume x: "kn_random env (as_draws ks) = Some x"
      "ks' = ks\<lparr>as_keys := (as_keys ks)(?h \<mapsto> k'), as_draws := Suc (as_draws ks)\<rparr>"
    have "h \<noteq> ?h" using n0 x(1) assms(2) unfolding key_env_ok_def by blast
    with assms(3) x show ?thesis unfolding gone_def by (auto simp: less_Suc_eq)
  qed
  then show ?thesis using KO_Create g by simp
next
  case (KO_Validate s)
  with assms(3) show ?thesis by (auto simp: gone_def ValidateAPIKey_def Let_def split: option.split)
qed (use assms change_key_keys [OF assms(1,2)] in \<open>auto simp: gone_def RevokeAPIKey_def DeleteAPIKey_def UpdateAPIKey_def\<close>)

lemma gone_run:
  "key_service_ok env ks \<Longrightarrow> key_env_ok env (as_prefix ks) \<Longrightarrow> gone env h ks \<Longrightarrow> gone env h (key_run env ops ks)"
  by (induction ops arbitrary: ks) (auto simp: key_run_def gone_step key_apply_ok)

definition past :: "int option \<Rightarrow> int \<Rightarrow> bool" where
  "past e now = (case e of None \<Rightarrow> False | Some t \<Rightarrow> t < now)"

lemma validate_key:
  "as_keys ks (kn_hash env s) = Some k \<Longrightarrow> s \<noteq> [] \<Longrightarrow> fst (ValidateAPIKey env now s ks) =
     (if \<not> ky_enabled k then Inl Key_Disabled else if past (ky_expires k) now then Inl Key_Expired
      else Inr (k\<lparr>ky_used := Some now\<rparr>))"
  by (simp add: ValidateAPIKey_def Let_def past_def)

text \<open>
  C13: A new key opens, with its permissions, whatever is done to other keys, until it expires;
  a revocation closes it until it is updated itself, and a deletion for good, whatever follows.
\<close>

theorem key_lifetime:
  assumes "key_service_ok env ks" and "key_env_ok env (as_prefix ks)"
    and "GenerateAPIKey env t0 name ps m e ks = (Inr (s, k), ks1)"
    and "list_all (\<lambda>(t, a). spares (ky_id k) a) ops" and "list_all (\<lambda>(t, a). spares (ky_id k) a) ops'"
  shows "fst (ValidateAPIKey env now s (key_run env ops ks1)) =
      (if past e now then Inl Key_Expired else Inr (k\<lparr>ky_used := Some now\<rparr>))
    \<and> (HasPermission (Some (k\<lparr>ky_used := Some now\<rparr>)) p \<longleftrightarrow> ps \<noteq> None \<and> (p \<in> set (the ps) \<or> ''*'' \<in> set (the ps)))
    \<and> fst (ValidateAPIKey env now s (key_run env ops' (snd (RevokeAPIKey env (ky_id k) (key_run env ops ks1))))) =
      Inl Key_Disabled
    \<and> fst (ValidateAPIKey env now s (key_run env any (snd (DeleteAPIKey env (ky_id k) (key_run env ops ks1))))) =
      Inl Key_Not_Found"
proof (intro conjI)
  let ?h = "kn_hash env s" and ?ks2 = "key_run env ops ks1"
  obtain x where x: "kn_random env (as_draws ks) = Some x" "s = key_string (as_prefix ks) x"
    and k: "ky_permissions k = ps" "ky_expires k = e" "ky_enabled k"
    and ks1: "ks1 = ks\<lparr>as_keys := (as_keys ks)(?h \<mapsto> k), as_draws := Suc (as_draws ks)\<rparr>"
    using generate_cases [OF assms(3)] by auto
  have s: "s \<noteq> []" using x(2) by (simp add: key_string_def)
  have ok1: "key_service_ok env ks1" "key_env_ok env (as_prefix ks1)"
    using key_apply_ok [OF assms(1,2), of t0 "KO_Create name ps m e"] assms(2,3) ks1 by simp_all
  have ok2: "key_service_ok env ?ks2" "key_env_ok env (as_prefix ?ks2)" using key_run_ok [OF ok1] ok1(2) by simp_all
  obtain u where u: "as_keys ?ks2 ?h = Some (k\<lparr>ky_used := u\<rparr>)"
    using spared_run [OF ok1 _ assms(4), of ?h] ks1 by auto
  show "fst (ValidateAPIKey env now s ?ks2) = (if past e now then Inl Key_Expired else Inr (k\<lparr>ky_used := Some now\<rparr>))"
    by (simp add: validate_key [OF u s] k)
  show "HasPermission (Some (k\<lparr>ky_used := Some now\<rparr>)) p \<longleftrightarrow> ps \<noteq> None \<and> (p \<in> set (the ps) \<or> ''*'' \<in> set (the ps))"
    by (auto simp: HasPermission_def k list_ex_iff split: option.split)
  let ?r = "snd (RevokeAPIKey env (ky_id k) ?ks2)"
  have "as_keys ?r ?h = Some (k\<lparr>ky_used := u, ky_enabled := False\<rparr>)"
    by (simp add: RevokeAPIKey_def change_key_keys [OF ok2] u)
  moreover have "key_service_ok env ?r" "key_env_ok env (as_prefix ?r)"
    using key_apply_ok [OF ok2, of 0 "KO_Revoke (ky_id k)"] ok2(2) key_apply_prefix [of env 0 "KO_Revoke (ky_id k)" ?ks2]
    by simp_all
  ultimately obtain v where "as_keys (key_run env ops' ?r) ?h = Some (k\<lparr>ky_used := u, ky_enabled := False\<rparr>\<lparr>ky_used := v\<rparr>)"
    using spared_run [of env ?r ?h _ ops'] assms(5) by fastforce
  from validate_key [OF this s]
  show "fst (ValidateAPIKey env now s (key_run env ops' ?r)) = Inl Key_Disabled" by simp
  let ?d = "snd (DeleteAPIKey env (ky_id k) ?ks2)"
  obtain n where n: "n < as_draws ?ks2" "drawn env (as_prefix ?ks2) n ?h (k\<lparr>ky_used := u\<rparr>)"
    using ok2(1) u unfolding key_service_ok_def by blast
  have "as_keys ?d ?h = None" by (simp add: DeleteAPIKey_def change_key_keys [OF ok2] u)
  with n have "gone env ?h ?d" by (auto simp: gone_def drawn_def DeleteAPIKey_def)
  moreover have "key_service_ok env ?d" "key_env_ok env (as_prefix ?d)"
    using key_apply_ok [OF ok2, of 0 "KO_Delete (ky_id k)"] ok2(2) key_apply_prefix [of env 0 "KO_Delete (ky_id k)" ?ks2]
    by simp_all
  ultimately have "gone env ?h (key_run env any ?d)" by (intro gone_run)
  then show "fst (ValidateAPIKey env now s (key_run env any ?d)) = Inl Key_Not_Found"
    by (simp add: gone_def ValidateAPIKey_def)
qed

definition demo_keys :: key_env where
  \<comment> \<open>an environment that counts\<close>
  "demo_keys = \<lparr>kn_hash = (\<lambda>s. s), kn_random = (\<lambda>n. Some (nat_str n)), kn_uuid = nat_str,
     kn_order = sorted_list_of_set, kn_time = int_str\<rparr>"

lemma demo_keys_ok: "key_env_ok demo_keys prefix"
  by (auto simp: key_env_ok_def demo_keys_def order_ok_def inj_def key_string_def nat_str_inject)

theorem key_lifetime_witness:
  "fst (ValidateAPIKey demo_keys 9 ''konsul_0'' (key_run demo_keys [(5, KO_Create ''cd'' None None None), (7, KO_Revoke ''1'')]
      (snd (GenerateAPIKey demo_keys 3 ''ci'' (Some [''read'']) None (Some 8) (NewAPIKeyService []))))) = Inl Key_Expired"
proof -
  have zero: "nat_str 0 = ''0''" by code_simp
  let ?ks = "NewAPIKeyService []"
  let ?ops = "[(5, KO_Create ''cd'' None None None), (7, KO_Revoke ''1'')]"
  obtain k ks1 where g: "GenerateAPIKey demo_keys 3 ''ci'' (Some [''read'']) None (Some 8) ?ks = (Inr (''konsul_0'', k), ks1)"
    and i: "ky_id k = ''0''"
    by (simp add: GenerateAPIKey_def demo_keys_def NewAPIKeyService_def Let_def key_string_def zero)
  have "list_all (\<lambda>(t, a). spares (ky_id k) a) ?ops" by (simp add: i)
  from key_lifetime [OF key_service_new demo_keys_ok g this, of "[]" 9] g show ?thesis by (simp add: past_def)
qed

end
