(* ===== verification/Console_Auth.thy ===== *)
theory Console_Auth
  imports Server_ApiKeys ApiKeys_Page
begin

text \<open>
  The console with a server that asks for authentication: the routes of /auth
  (cmd/konsul/main.go), the middleware before everything that is registered later, and the node
  behind it. Under test are the session of theory Auth and the client of theory Api: what
  signing in gives, how a call fares while the tokens age, where a session ends, and what the
  page of the API keys makes of the server's answers. Paths are taken as the console writes
  them.
\<close>

section \<open>The server\<close>

record gate_env =
  ge_node :: node_env
  ge_lib :: jwt_lib
  ge_jwt :: jwt_service
  ge_public :: "string list"
  ge_require :: bool
  ge_keys :: key_env

record gate =
  ga_node :: node
  ga_keys :: key_service

definition default_public_paths :: "string list" where
  "default_public_paths = [''/health'', ''/health/live'', ''/health/ready'', ''/metrics'',
     ''/admin'', ''/admin/'', ''/admin/assets/*'']"

definition revoke_param :: "string \<Rightarrow> string option" where
  \<comment> \<open>the parameter of \<open>/auth/apikeys/:id/revoke\<close>\<close>
  "revoke_param url =
     (if \<not> starts_with url ''/auth/apikeys/'' then None
      else case split_on CHR ''/'' (url_param ''/auth/apikeys/'' url) of
          [i, r] \<Rightarrow> if i \<noteq> [] \<and> r = ''revoke'' then Some i else None
        | _ \<Rightarrow> None)"

definition key_routes :: "key_env \<Rightarrow> int \<Rightarrow> request \<Rightarrow> key_service \<Rightarrow> (response \<times> key_service) option" where
  "key_routes env now rq ks =
     (let url = rq_url rq; m = rq_method rq; root = url_path url \<in> {''/auth/apikeys'', ''/auth/apikeys/''};
          one = named ''/auth/apikeys/'' url; i = url_param ''/auth/apikeys/'' url
      in if m = ''POST'' \<and> root then Some (handle_create_key env now (rq_body rq) ks)
         else if m = ''GET'' \<and> root then Some (handle_list_keys env ks, ks)
         else if m = ''GET'' \<and> one then Some (handle_get_key env i ks, ks)
         else if m = ''PUT'' \<and> one then Some (handle_update_key env i (rq_body rq) ks)
         else if m = ''DELETE'' \<and> one then Some (handle_delete_key env i ks)
         else if m = ''POST'' then map_option (\<lambda>i. handle_revoke_key env i ks) (revoke_param url)
         else None)"

definition gate_server :: "gate_env \<Rightarrow> gate server" where
  "gate_server ge rq g =
     (let path = url_path (rq_url rq); m = rq_method rq; now = nd_clock (ga_node g);
          check = JWTAuth (ge_lib ge) (ge_jwt ge) (ge_public ge) now rq;
          rest = (case node_server (ge_node ge) rq (ga_node g) of (r, nd) \<Rightarrow> (r, g\<lparr>ga_node := nd\<rparr>))
      in if m = ''POST'' \<and> path = ''/auth/login''
         then (Some (handle_login (ge_lib ge) (ge_jwt ge) now (rq_body rq)), g)
         else if m = ''POST'' \<and> path = ''/auth/refresh''
         then (Some (handle_refresh (ge_lib ge) (ge_jwt ge) now (rq_body rq)), g)
         else if m = ''GET'' \<and> path = ''/auth/verify''
         then (case check of Inl r \<Rightarrow> (Some r, g) | Inr found \<Rightarrow> (Some (handle_verify found), g))
         else if path = ''/auth/apikeys'' \<or> starts_with path ''/auth/apikeys/''
         then (case check of
                 Inl r \<Rightarrow> (Some r, g)
               | Inr found \<Rightarrow>
                   (case key_routes (ge_keys ge) now rq (ga_keys g) of
                      Some (r, ks) \<Rightarrow> (Some r, g\<lparr>ga_keys := ks\<rparr>)
                    | None \<Rightarrow> rest))
         else if ge_require ge then (case check of Inl r \<Rightarrow> (Some r, g) | Inr found \<Rightarrow> rest)
         else rest)"

section \<open>The node behind the gate\<close>

lemma node_server_same: "same_request a b \<Longrightarrow> node_server env a nd = node_server env b nd"
proof -
  assume same: "same_request a b"
  then have f: "rq_url a = rq_url b" "rq_method a = rq_method b" "rq_body a = rq_body b"
    by (simp_all add: same_request_def)
  have "kv_server order a kv = kv_server order b kv" for order kv by (simp only: kv_server_def f)
  then show ?thesis by (simp only: node_server_def f)
qed

definition fine :: "node \<Rightarrow> response option \<times> node \<Rightarrow> bool" where
  \<comment> \<open>an answer that does not ask for credentials, at the same time\<close>
  "fine nd x \<longleftrightarrow> (\<exists>resp. fst x = Some resp \<and> rs_status resp \<noteq> 401) \<and> nd_clock (snd x) = nd_clock nd"

lemma fine_if: "fine nd x \<Longrightarrow> fine nd y \<Longrightarrow> fine nd (if b then x else y)"
  by simp

definition not_401 :: "response \<times> 'a \<Rightarrow> bool" where
  "not_401 x \<longleftrightarrow> rs_status (fst x) \<noteq> 401"

lemma not_401_if: "not_401 x \<Longrightarrow> not_401 y \<Longrightarrow> not_401 (if b then x else y)"
  by simp

lemma handle_set_fine: "not_401 (handle_set key body kv)"
proof (cases "parse_body body")
  case (Some b)
  obtain v c f where b: "b = (v, c, f)" by (cases b)
  have set: "not_401 (set_done key i, kv')" for i and kv' :: kv_store by (simp add: not_401_def set_done_def)
  show ?thesis
  proof (cases c)
    case None
    then show ?thesis using Some b set by (simp add: handle_set_def Let_def)
  next
    case c: (Some cas)
    obtain r kv' where "kv_set_cas key v cas kv = (r, kv')" by force
    then show ?thesis using Some b c set
      by (cases r) (auto simp: handle_set_def not_401_def split: store_error.split)
  qed
qed (simp add: handle_set_def not_401_def)

lemma kv_server_fine: "\<exists>resp. fst (kv_server order rq kv) = Some resp \<and> rs_status resp \<noteq> 401"
proof -
  have some: "not_401 x \<Longrightarrow> \<exists>resp. fst (let (resp, kv') = x in (Some resp, kv')) = Some resp \<and> rs_status resp \<noteq> 401" for x
    by (auto simp: not_401_def split: prod.split)
  show ?thesis
    unfolding kv_server_def Let_def [of "url_key (rq_url rq)"]
    by (intro some not_401_if handle_set_fine)
      (simp_all add: not_401_def handle_list_def handle_get_def handle_delete_def split: option.split)
qed

lemma handle_register_fine: "not_401 (handle_register now body rg)"
proof (cases "parse_service body")
  case (Some b)
  obtain sv c where b: "b = (sv, c)" by (cases b)
  show ?thesis
  proof (cases c)
    case None
    obtain r rg' where "registry_register now sv rg = (r, rg')" by force
    then show ?thesis using Some b None
      by (cases r) (simp_all add: handle_register_def not_401_def registered_def bad_request_def)
  next
    case c: (Some cas)
    obtain r rg' where r: "registry_register_cas now sv cas rg = (r, rg')" by force
    show ?thesis
    proof (cases r)
      case (Inl e)
      then show ?thesis using Some b c r
        by (cases e) (auto simp: handle_register_def not_401_def bad_request_def not_found_def split: store_error.split)
    qed (use Some b c r in \<open>simp add: handle_register_def not_401_def registered_def\<close>)
  qed
qed (simp add: handle_register_def not_401_def bad_request_def)

lemma handle_heartbeat_fine: "not_401 (handle_heartbeat now name rg)"
proof -
  obtain b rg' where "registry_heartbeat now name rg = (b, rg')" by force
  then show ?thesis by (cases b) (simp_all add: handle_heartbeat_def not_401_def not_found_def)
qed

lemma fine_services: "not_401 x \<Longrightarrow> fine nd (case x of (r, rg') \<Rightarrow> (Some r, nd\<lparr>nd_services := rg'\<rparr>))"
  by (cases x) (simp add: fine_def not_401_def)

lemma node_fine: "fine nd (node_server env rq nd)"
  unfolding node_server_def Let_def
proof (intro fine_if)
  show "fine nd (case kv_server (ne_order env) rq (nd_kv nd) of (r, kv') \<Rightarrow> (r, nd\<lparr>nd_kv := kv'\<rparr>))"
    using kv_server_fine [of "ne_order env" rq "nd_kv nd"] by (auto simp: fine_def split: prod.split)
  show "fine nd (case handle_register now body rg of (r, rg') \<Rightarrow> (Some r, nd\<lparr>nd_services := rg'\<rparr>))" for now body rg
    by (intro fine_services handle_register_fine)
  show "fine nd (case handle_heartbeat now name rg of (r, rg') \<Rightarrow> (Some r, nd\<lparr>nd_services := rg'\<rparr>))" for now name rg
    by (intro fine_services handle_heartbeat_fine)
qed (auto simp: fine_def not_401_def handle_deregister_def handle_services_def handle_service_def
      handle_health_def not_found_def Let_def split: option.split)

section \<open>Sessions on the server\<close>

definition gate_ok :: "gate_env \<Rightarrow> bool" where
  "gate_ok ge \<longleftrightarrow> jwt_lib_ok (ge_lib ge) \<and> jwt_ok (ge_jwt ge) \<and> ge_require ge"

definition access_claims :: "jwt_service \<Rightarrow> int \<Rightarrow> string \<Rightarrow> string \<Rightarrow> claims" where
  "access_claims j t u n = mk_claims j (js_expiry j) t u n [''user''] []"

definition refresh_claims :: "jwt_service \<Rightarrow> int \<Rightarrow> string \<Rightarrow> string \<Rightarrow> claims" where
  "refresh_claims j t u n = mk_claims j (js_refresh_expiry j) t u n [''user''] []"

definition gate_signs :: "gate_env \<Rightarrow> claims \<Rightarrow> string \<Rightarrow> bool" where
  "gate_signs ge = signs (ge_lib ge) (js_secret (ge_jwt ge))"

definition holds_session :: "gate_env \<Rightarrow> int \<Rightarrow> string \<Rightarrow> string \<Rightarrow> storage \<Rightarrow> bool" where
  \<comment> \<open>the storage holds the tokens the server made at a time for a user\<close>
  "holds_session ge t u n st \<longleftrightarrow> (\<exists>acc ref rs ps. st token_key = Some acc \<and> st refresh_key = Some ref
     \<and> st user_key = Some (json_stringify (user_data n u rs ps))
     \<and> gate_signs ge (access_claims (ge_jwt ge) t u n) acc \<and> gate_signs ge (refresh_claims (ge_jwt ge) t u n) ref)"

definition user_ok :: "string \<Rightarrow> string \<Rightarrow> bool" where
  "user_ok u n \<longleftrightarrow> u \<noteq> [] \<and> n \<noteq> [] \<and> ascii u \<and> ascii n"

lemma session_claims_plain:
  assumes "gate_ok ge" and "clock_ok t" and "user_ok u n"
  shows "plain_claims (access_claims (ge_jwt ge) t u n)" and "plain_claims (refresh_claims (ge_jwt ge) t u n)"
proof -
  have "ascii ''user''" by (simp add: ascii_def code_def)
  with assms show "plain_claims (access_claims (ge_jwt ge) t u n)" "plain_claims (refresh_claims (ge_jwt ge) t u n)"
    unfolding access_claims_def refresh_claims_def
    by (auto intro!: mk_claims_plain simp: gate_ok_def user_ok_def jwt_ok_def)
qed

lemma generated:
  assumes "gate_ok ge" and "clock_ok t" and "user_ok u n"
  obtains acc ref where "GenerateTokenWithPolicies (ge_lib ge) (ge_jwt ge) t u n [''user''] [] = Some acc"
    and "GenerateRefreshTokenWithPolicies (ge_lib ge) (ge_jwt ge) t u n [''user''] [] = Some ref"
    and "gate_signs ge (access_claims (ge_jwt ge) t u n) acc" and "gate_signs ge (refresh_claims (ge_jwt ge) t u n) ref"
proof -
  have "jwt_lib_ok (ge_lib ge)" using assms(1) by (simp add: gate_ok_def)
  from lib_signs [OF this session_claims_plain(1) [OF assms]] lib_signs [OF this session_claims_plain(2) [OF assms]]
  obtain acc ref where "jl_sign (ge_lib ge) (js_secret (ge_jwt ge)) (access_claims (ge_jwt ge) t u n) = Some acc"
    "jl_sign (ge_lib ge) (js_secret (ge_jwt ge)) (refresh_claims (ge_jwt ge) t u n) = Some ref" by blast
  with that show thesis
    by (simp add: GenerateTokenWithPolicies_def GenerateRefreshTokenWithPolicies_def access_claims_def
        refresh_claims_def gate_signs_def signs_def)
qed

lemma access_validates:
  assumes "gate_ok ge" and "clock_ok t" and "user_ok u n" and "gate_signs ge (access_claims (ge_jwt ge) t u n) acc"
    and "t \<le> now"
  shows "acc \<noteq> []" and "CHR '' '' \<notin> set acc" and "ValidateToken (ge_lib ge) (ge_jwt ge) now acc =
      (if now < last_moment (t + js_expiry (ge_jwt ge)) then Inr (access_claims (ge_jwt ge) t u n) else Inl Token_Expired)"
proof -
  have lib: "jwt_lib_ok (ge_lib ge)" and u: "u \<noteq> []" using assms by (simp_all add: gate_ok_def user_ok_def)
  have s: "jl_sign (ge_lib ge) (js_secret (ge_jwt ge)) (access_claims (ge_jwt ge) t u n) = Some acc"
    using assms(4) by (simp add: gate_signs_def signs_def)
  note plain = session_claims_plain(1) [OF assms(1-3)]
  show "acc \<noteq> []" "CHR '' '' \<notin> set acc" by (rule lib_signed [OF lib plain s])+
  show "ValidateToken (ge_lib ge) (ge_jwt ge) now acc =
      (if now < last_moment (t + js_expiry (ge_jwt ge)) then Inr (access_claims (ge_jwt ge) t u n) else Inl Token_Expired)"
    using validate_signed(1) [OF lib plain [unfolded access_claims_def] u assms(5) s [unfolded access_claims_def]]
    by (simp add: access_claims_def)
qed

lemma refresh_validates:
  assumes "gate_ok ge" and "clock_ok t" and "user_ok u n" and "gate_signs ge (refresh_claims (ge_jwt ge) t u n) ref"
    and "t \<le> now"
  shows "ref \<noteq> []" and "CHR '' '' \<notin> set ref" and "ValidateRefreshToken (ge_lib ge) (ge_jwt ge) now ref =
      (if now < last_moment (t + js_refresh_expiry (ge_jwt ge)) then Inr (refresh_claims (ge_jwt ge) t u n)
       else Inl Token_Expired)"
    and "ValidateToken (ge_lib ge) (ge_jwt ge) now ref = ValidateRefreshToken (ge_lib ge) (ge_jwt ge) now ref"
proof -
  have lib: "jwt_lib_ok (ge_lib ge)" and u: "u \<noteq> []" using assms by (simp_all add: gate_ok_def user_ok_def)
  have s: "jl_sign (ge_lib ge) (js_secret (ge_jwt ge)) (refresh_claims (ge_jwt ge) t u n) = Some ref"
    using assms(4) by (simp add: gate_signs_def signs_def)
  note plain = session_claims_plain(2) [OF assms(1-3)]
  show "ref \<noteq> []" "CHR '' '' \<notin> set ref" by (rule lib_signed [OF lib plain s])+
  note v = validate_signed [OF lib plain [unfolded refresh_claims_def] u assms(5) s [unfolded refresh_claims_def]]
  show "ValidateRefreshToken (ge_lib ge) (ge_jwt ge) now ref =
      (if now < last_moment (t + js_refresh_expiry (ge_jwt ge)) then Inr (refresh_claims (ge_jwt ge) t u n)
       else Inl Token_Expired)" using v by (simp add: refresh_claims_def)
  show "ValidateToken (ge_lib ge) (ge_jwt ge) now ref = ValidateRefreshToken (ge_lib ge) (ge_jwt ge) now ref"
    using v(2) by simp
qed

section \<open>Signing in\<close>

lemma lower_auth_keys:
  "to_lower ''user_id'' = ''user_id''" "to_lower ''username'' = ''username''" "to_lower ''roles'' = ''roles''"
  "to_lower ''policies'' = ''policies''" "to_lower ''refresh_token'' = ''refresh_token''"
  by code_simp+

lemma url_path_plain: "url_path ''/auth/login'' = ''/auth/login''" "url_path ''/auth/refresh'' = ''/auth/refresh''"
  by (simp_all add: url_path_def url_param_def)

lemma gate_auth_routes:
  "gate_server ge (mk_request ''POST'' ''/auth/login'' body) g =
     (Some (handle_login (ge_lib ge) (ge_jwt ge) (nd_clock (ga_node g)) body), g)"
  "gate_server ge (mk_request ''POST'' ''/auth/refresh'' body) g =
     (Some (handle_refresh (ge_lib ge) (ge_jwt ge) (nd_clock (ga_node g)) body), g)"
  by (simp_all add: gate_server_def mk_request_def url_path_plain)

lemma handle_login_body:
  "handle_login lib j now (user_data n u rs ps) =
     (if u = [] \<or> n = [] then error_answer 400 ''user_id and username are required''
      else case GenerateToken lib j now u n [''user''] of
          None \<Rightarrow> error_answer 500 ''failed to generate token''
        | Some token \<Rightarrow>
            (case GenerateRefreshToken lib j now u n [''user''] of
               None \<Rightarrow> error_answer 500 ''failed to generate refresh token''
             | Some refreshToken \<Rightarrow> login_response token refreshToken))"
  by (simp add: handle_login_def body_members_def user_data_def lower_auth_keys Let_def)

lemma token_pair_login: "token_pair (login_response t r) = Inr (JStr t, JStr r)"
  by (simp add: token_pair_def login_response_def)

definition plain_user_token :: "gate_env \<Rightarrow> int \<Rightarrow> string \<Rightarrow> string \<Rightarrow> string option \<Rightarrow> bool" where
  \<comment> \<open>a token that is valid from a time on, until its last moment, for a user without policies\<close>
  "plain_user_token ge t u n token \<longleftrightarrow> (\<forall>now. t \<le> now \<and> now < last_moment (t + js_expiry (ge_jwt ge)) \<longrightarrow>
     (\<exists>c. ValidateToken (ge_lib ge) (ge_jwt ge) now (the token) = Inr c
        \<and> jc_user_id c = u \<and> jc_username c = n \<and> jc_roles c = [''user''] \<and> jc_policies c = []))"

definition demo_gate :: gate_env where
  \<comment> \<open>the default configuration with authentication required\<close>
  "demo_gate = \<lparr>ge_node = \<lparr>ne_order = sorted_list_of_set,
       ne_stats = (\<lambda>_. \<lparr>rt_goroutines = 8, rt_alloc = 1, rt_sys = 2, rt_num_gc = 3\<rparr>), ne_time_text = int_str\<rparr>,
     ge_lib = demo_lib,
     ge_jwt = \<lparr>js_secret = ''secret'', js_expiry = 900 * 10 ^ 9, js_refresh_expiry = 604800 * 10 ^ 9, js_issuer = ''konsul''\<rparr>,
     ge_public = default_public_paths, ge_require = True, ge_keys = demo_keys\<rparr>"

definition demo_state :: "int \<Rightarrow> gate" where
  "demo_state t = \<lparr>ga_node = \<lparr>nd_clock = t, nd_kv = kv_new, nd_services = NewServiceStoreWithTTL 30, nd_start = 0,
     nd_version = ''1''\<rparr>, ga_keys = NewAPIKeyService []\<rparr>"

definition demo_world :: "storage \<Rightarrow> int \<Rightarrow> gate world" where
  "demo_world st t = \<lparr>w_store = st, w_location = None, w_server = demo_state t\<rparr>"

lemma default_public:
  "public_exact default_public_paths =
     [''/health'', ''/health/live'', ''/health/ready'', ''/metrics'', ''/admin'', ''/admin/'']"
  "public_prefixes default_public_paths = [''/admin/assets/'']"
  by code_simp+

lemma demo_gate_ok: "gate_ok demo_gate"
  using demo_lib_ok by (simp add: gate_ok_def demo_gate_def jwt_ok_def clock_ok_def ascii_def code_def)

lemma demo_clock: "nd_clock (ga_node (w_server (demo_world st t))) = t" "w_store (demo_world st t) = st"
  by (simp_all add: demo_world_def demo_state_def)

lemma demo_user: "user_ok ''7'' ''bob''"
  by (simp add: user_ok_def ascii_def code_def)

lemma demo_zero: "clock_ok 0"
  by (simp add: clock_ok_def)

lemma demo_expiry: "js_expiry (ge_jwt demo_gate) = 900 * 10 ^ 9" "js_refresh_expiry (ge_jwt demo_gate) = 604800 * 10 ^ 9"
  by (simp_all add: demo_gate_def)

lemma demo_session:
  obtains st where "holds_session demo_gate 0 ''7'' ''bob'' st"
proof -
  from generated [OF demo_gate_ok demo_zero demo_user] obtain acc ref
    where s: "gate_signs demo_gate (access_claims (ge_jwt demo_gate) 0 ''7'' ''bob'') acc"
      "gate_signs demo_gate (refresh_claims (ge_jwt demo_gate) 0 ''7'' ''bob'') ref" .
  have "holds_session demo_gate 0 ''7'' ''bob'' [token_key \<mapsto> acc, refresh_key \<mapsto> ref,
      user_key \<mapsto> json_stringify (user_data ''bob'' ''7'' [] [])]"
    unfolding holds_session_def
    by (rule exI [of _ acc], rule exI [of _ ref], rule exI [of _ "[]"], rule exI [of _ "[]"]) (use s in simp)
  with that show thesis .
qed

text \<open>
  C20: Signing in to the server with a user name and an identifier succeeds whatever roles
  and policies were typed: the session of the console shows those, the tokens say \<open>user\<close> and no
  policies. With one of the two names missing it fails and nothing changes.
\<close>

theorem login_on_server:
  assumes "gate_ok ge" and "clock_ok t" and "t = nd_clock (ga_node (w_server w))" and "ascii u" and "ascii n"
  shows "(u = [] \<or> n = [] \<longrightarrow> login (gate_server ge) n u rs ps (a, w) = (throw (RequestFailed (Some 400)), a, w))
    \<and> (u \<noteq> [] \<longrightarrow> n \<noteq> [] \<longrightarrow> (\<exists>a' w'. login (gate_server ge) n u rs ps (a, w) = (return (), a', w')
      \<and> au_user a' = user_data n u rs ps \<and> is_authenticated a' \<and> w_server w' = w_server w
      \<and> holds_session ge t u n (w_store w') \<and> plain_user_token ge t u n (w_store w' token_key)))"
proof (intro conjI impI)
  assume "u = [] \<or> n = []"
  then show "login (gate_server ge) n u rs ps (a, w) = (throw (RequestFailed (Some 400)), a, w)"
    by (auto simp: login_def Let_def authApi_post_def send_def gate_auth_routes handle_login_body error_answer_def)
next
  assume "u \<noteq> []" and "n \<noteq> []"
  with assms(4,5) have user: "user_ok u n" by (simp add: user_ok_def)
  from generated [OF assms(1,2) user] obtain acc ref
    where g: "GenerateTokenWithPolicies (ge_lib ge) (ge_jwt ge) t u n [''user''] [] = Some acc"
      "GenerateRefreshTokenWithPolicies (ge_lib ge) (ge_jwt ge) t u n [''user''] [] = Some ref"
    and s: "gate_signs ge (access_claims (ge_jwt ge) t u n) acc" "gate_signs ge (refresh_claims (ge_jwt ge) t u n) ref" .
  let ?a = "a\<lparr>au_token := JStr acc, au_refresh := JStr ref, au_user := user_data n u rs ps\<rparr>"
  let ?st = "set_item user_key (JStr (json_stringify (user_data n u rs ps))) (store_tokens (JStr acc) (JStr ref) (w_store w))"
  have r: "handle_login (ge_lib ge) (ge_jwt ge) t (user_data n u rs ps) = login_response acc ref"
    using user g by (simp add: handle_login_body user_ok_def GenerateToken_def GenerateRefreshToken_def)
  have ok: "rs_status (login_response acc ref) = 200" by (simp add: login_response_def)
  have l: "login (gate_server ge) n u rs ps (a, w) = (return (), ?a, w\<lparr>w_store := ?st\<rparr>)"
    by (simp add: login_def Let_def authApi_post_def send_def gate_auth_routes assms(3) [symmetric] r ok token_pair_login)
  have st: "?st token_key = Some acc" by (simp add: set_item_def)
  have "holds_session ge t u n ?st" using s by (auto simp: holds_session_def set_item_def)
  moreover have "plain_user_token ge t u n (?st token_key)"
    using access_validates(3) [OF assms(1,2) user s(1)]
    by (simp add: st plain_user_token_def) (simp add: access_claims_def mk_claims_def)
  moreover have "is_authenticated ?a"
    using access_validates(1) [OF assms(1,2) user s(1) order_refl] by (simp add: is_authenticated_def)
  ultimately show "\<exists>a' w'. login (gate_server ge) n u rs ps (a, w) = (return (), a', w')
      \<and> au_user a' = user_data n u rs ps \<and> is_authenticated a' \<and> w_server w' = w_server w
      \<and> holds_session ge t u n (w_store w') \<and> plain_user_token ge t u n (w_store w' token_key)"
    using l by (intro exI [of _ ?a] exI [of _ "w\<lparr>w_store := ?st\<rparr>"]) simp
qed

theorem login_on_server_witness:
  "fst (login (gate_server demo_gate) [] ''7'' [''admin''] [] (auth_init, demo_world Map.empty 0)) = throw (RequestFailed (Some 400))
    \<and> fst (login (gate_server demo_gate) ''bob'' ''7'' [''admin''] [] (auth_init, demo_world Map.empty 0)) = return ()"
proof -
  let ?w = "demo_world Map.empty 0"
  have t: "0 = nd_clock (ga_node (w_server ?w))" by (simp only: demo_clock)
  have a: "ascii ''7''" "ascii ''bob''" "ascii []" by (simp_all add: ascii_def code_def)
  have "login (gate_server demo_gate) [] ''7'' [''admin''] [] (auth_init, ?w) = (throw (RequestFailed (Some 400)), auth_init, ?w)"
    using login_on_server [OF demo_gate_ok demo_zero t a(1,3), of "[''admin'']" "[]" auth_init] by simp
  moreover have "\<exists>a' w'. login (gate_server demo_gate) ''bob'' ''7'' [''admin''] [] (auth_init, ?w) = (return (), a', w')"
    using login_on_server [OF demo_gate_ok demo_zero t a(1,2), of "[''admin'']" "[]" auth_init] by auto
  ultimately show ?thesis by auto
qed

section \<open>Calls behind the gate\<close>

definition behind_gate :: "gate_env \<Rightarrow> request \<Rightarrow> bool" where
  \<comment> \<open>a request that is for the node and needs a token\<close>
  "behind_gate ge rq \<longleftrightarrow> \<not> starts_with (url_path (rq_url rq)) ''/auth/'' \<and> \<not> is_public (ge_public ge) (url_path (rq_url rq))"

definition node_result :: "gate_env \<Rightarrow> request \<Rightarrow> gate \<Rightarrow> response js \<times> gate" where
  \<comment> \<open>what a call gets from the node alone\<close>
  "node_result ge rq g =
     (case node_server (ge_node ge) rq (ga_node g) of
        (None, nd) \<Rightarrow> (Inl (RequestFailed None), g\<lparr>ga_node := nd\<rparr>)
      | (Some resp, nd) \<Rightarrow>
          (if 200 \<le> rs_status resp \<and> rs_status resp < 300 then Inr resp else Inl (RequestFailed (Some (rs_status resp))),
           g\<lparr>ga_node := nd\<rparr>))"

lemma split_bearer: "CHR '' '' \<notin> set t \<Longrightarrow> split_on CHR '' '' (''Bearer '' @ t) = [''Bearer'', t]"
proof -
  assume "CHR '' '' \<notin> set t"
  then have "split_on CHR '' '' t = [t]" by (induction t) auto
  then show ?thesis by simp
qed

lemma JWTAuth_bearer:
  assumes "\<not> is_public pub (url_path (rq_url rq))" and "rq_auth rq = Some (''Bearer '' @ t)" and "CHR '' '' \<notin> set t"
  shows "ValidateToken lib j now t = Inr c \<Longrightarrow> JWTAuth lib j pub now rq = Inr (Some c)"
    and "ValidateToken lib j now t = Inl Token_Expired \<Longrightarrow> JWTAuth lib j pub now rq = Inl (error_answer 401 ''token expired'')"
  using assms(1) by (simp_all add: JWTAuth_def assms(2) split_bearer [OF assms(3), simplified])

lemma not_auth_path:
  assumes "\<not> starts_with p ''/auth/''"
  shows "p \<noteq> ''/auth/login''" "p \<noteq> ''/auth/refresh''" "p \<noteq> ''/auth/verify''" "p \<noteq> ''/auth/apikeys''"
    "\<not> starts_with p ''/auth/apikeys/''"
  using assms by (auto simp: starts_with_iff)

lemma gate_behind:
  assumes "ge_require ge" and "behind_gate ge rq"
  shows "gate_server ge rq g =
    (case JWTAuth (ge_lib ge) (ge_jwt ge) (ge_public ge) (nd_clock (ga_node g)) rq of
       Inl r \<Rightarrow> (Some r, g)
     | Inr found \<Rightarrow> (case node_server (ge_node ge) rq (ga_node g) of (r, nd) \<Rightarrow> (r, g\<lparr>ga_node := nd\<rparr>)))"
proof -
  have "\<not> starts_with (url_path (rq_url rq)) ''/auth/''" using assms(2) by (simp add: behind_gate_def)
  note n = not_auth_path [OF this]
  show ?thesis by (simp only: gate_server_def Let_def n assms(1) simp_thms if_True if_False)
qed

lemma interceptor_token:
  "st token_key = Some t \<Longrightarrow> t \<noteq> [] \<Longrightarrow> request_interceptor st cfg = cfg\<lparr>rq_auth := Some (''Bearer '' @ t)\<rparr>"
  by (simp add: request_interceptor_def Let_def get_item_def)

lemma send_good_token:
  assumes "gate_ok ge" and "behind_gate ge cfg" and "w_store w token_key = Some t" and "t \<noteq> []" and "CHR '' '' \<notin> set t"
    and "ValidateToken (ge_lib ge) (ge_jwt ge) (nd_clock (ga_node (w_server w))) t = Inr c"
  shows "send (gate_server ge) (request_interceptor (w_store w) cfg) w =
      (fst (node_result ge cfg (w_server w)), w\<lparr>w_server := snd (node_result ge cfg (w_server w))\<rparr>)"
    and "\<not> refreshable (fst (node_result ge cfg (w_server w))) cfg"
proof -
  let ?rq = "cfg\<lparr>rq_auth := Some (''Bearer '' @ t)\<rparr>" and ?g = "w_server w"
  have req: "ge_require ge" using assms(1) by (simp add: gate_ok_def)
  have b: "behind_gate ge ?rq" using assms(2) by (simp add: behind_gate_def)
  have "\<not> is_public (ge_public ge) (url_path (rq_url ?rq))" using assms(2) by (simp add: behind_gate_def)
  from JWTAuth_bearer(1) [OF this _ assms(5,6)]
  have j: "JWTAuth (ge_lib ge) (ge_jwt ge) (ge_public ge) (nd_clock (ga_node ?g)) ?rq = Inr (Some c)" by simp
  have same: "node_server (ge_node ge) ?rq nd = node_server (ge_node ge) cfg nd" for nd
    by (rule node_server_same) (simp add: same_request_def)
  obtain resp nd where n: "node_server (ge_node ge) cfg (ga_node ?g) = (Some resp, nd)" "rs_status resp \<noteq> 401"
    using node_fine [of "ga_node ?g" "ge_node ge" cfg] unfolding fine_def by (metis prod.collapse)
  have srv: "gate_server ge ?rq ?g = (Some resp, ?g\<lparr>ga_node := nd\<rparr>)"
    using gate_behind [OF req b, of ?g] j same n by simp
  show "send (gate_server ge) (request_interceptor (w_store w) cfg) w =
      (fst (node_result ge cfg (w_server w)), w\<lparr>w_server := snd (node_result ge cfg (w_server w))\<rparr>)"
    unfolding interceptor_token [of "w_store w", OF assms(3,4)] send_def srv by (simp add: node_result_def n)
  show "\<not> refreshable (fst (node_result ge cfg (w_server w))) cfg"
    using n by (simp add: node_result_def refreshable_def)
qed

lemma send_old_token:
  assumes "gate_ok ge" and "behind_gate ge cfg" and "w_store w token_key = Some t" and "t \<noteq> []" and "CHR '' '' \<notin> set t"
    and "ValidateToken (ge_lib ge) (ge_jwt ge) (nd_clock (ga_node (w_server w))) t = Inl Token_Expired"
  shows "send (gate_server ge) (request_interceptor (w_store w) cfg) w = (Inl (RequestFailed (Some 401)), w)"
proof -
  let ?rq = "cfg\<lparr>rq_auth := Some (''Bearer '' @ t)\<rparr>" and ?g = "w_server w"
  have req: "ge_require ge" using assms(1) by (simp add: gate_ok_def)
  have b: "behind_gate ge ?rq" using assms(2) by (simp add: behind_gate_def)
  have "\<not> is_public (ge_public ge) (url_path (rq_url ?rq))" using assms(2) by (simp add: behind_gate_def)
  from JWTAuth_bearer(2) [OF this _ assms(5,6)]
  have j: "JWTAuth (ge_lib ge) (ge_jwt ge) (ge_public ge) (nd_clock (ga_node ?g)) ?rq = Inl (error_answer 401 ''token expired'')"
    by simp
  have "gate_server ge ?rq ?g = (Some (error_answer 401 ''token expired''), ?g)"
    using gate_behind [OF req b, of ?g] j by simp
  then show ?thesis by (simp add: interceptor_token [of "w_store w", OF assms(3,4)] send_def error_answer_def)
qed

section \<open>The refresh\<close>

lemma refresh_body_user:
  "and_then (JSON_parse (JStr (json_stringify (user_data n u rs ps)))) (refresh_body rt) =
     Inr (JObj [(''refresh_token'', rt), (''username'', JStr n), (''roles'', JArr (map JStr rs)),
                (''policies'', JArr (map JStr ps))])"
  by (simp add: JSON_parse_stringify user_data_ok refresh_body_def) (simp add: user_data_def)

lemma refresh_session_gate:
  assumes "gate_ok ge" and "clock_ok t" and "user_ok u n" and "holds_session ge t u n (w_store w)"
    and "now = nd_clock (ga_node (w_server w))" and "t \<le> now" and "clock_ok now"
  shows "now < last_moment (t + js_refresh_expiry (ge_jwt ge)) \<Longrightarrow>
      \<exists>acc ref. refresh_session (gate_server ge) w = (Inr (JStr acc), w\<lparr>w_store := store_tokens (JStr acc) (JStr ref) (w_store w)\<rparr>)
        \<and> gate_signs ge (access_claims (ge_jwt ge) now u n) acc \<and> gate_signs ge (refresh_claims (ge_jwt ge) now u n) ref"
    and "\<not> now < last_moment (t + js_refresh_expiry (ge_jwt ge)) \<Longrightarrow>
      refresh_session (gate_server ge) w = (Inl (RequestFailed (Some 401)), w)"
proof -
  obtain ref0 rs ps where st: "w_store w refresh_key = Some ref0" "w_store w user_key = Some (json_stringify (user_data n u rs ps))"
    and s0: "gate_signs ge (refresh_claims (ge_jwt ge) t u n) ref0"
    using assms(4) unfolding holds_session_def by blast
  note v = refresh_validates [OF assms(1-3) s0 assms(6)]
  let ?body = "JObj [(''refresh_token'', JStr ref0), (''username'', JStr n), (''roles'', JArr (map JStr rs)),
                (''policies'', JArr (map JStr ps))]"
  have h: "handle_refresh (ge_lib ge) (ge_jwt ge) now ?body =
      (case RefreshToken (ge_lib ge) (ge_jwt ge) now ref0 of
         Inl Token_Expired \<Rightarrow> error_answer 401 ''refresh token expired''
       | Inl Token_Invalid \<Rightarrow> error_answer 401 ''invalid refresh token''
       | Inl _ \<Rightarrow> error_answer 500 ''failed to refresh token''
       | Inr (newToken, newRefreshToken) \<Rightarrow> login_response newToken newRefreshToken)"
    using v(1) by (simp add: handle_refresh_def body_members_def lower_auth_keys)
  have r: "refresh_session (gate_server ge) w =
      (case send (gate_server ge) (mk_request ''POST'' ''/auth/refresh'' ?body) w of
         (Inl e, w1) \<Rightarrow> (throw e, w1)
       | (Inr resp, w1) \<Rightarrow>
           (case token_pair resp of
              Inl e \<Rightarrow> (throw e, w1)
            | Inr (token, refresh_token) \<Rightarrow>
                (return token, w1\<lparr>w_store := store_tokens token refresh_token (w_store w1)\<rparr>)))"
    using v(1) by (simp add: refresh_session_def Let_def get_item_def st refresh_body_user json_stringify_nonempty user_data_ok)
  {
    assume late: "\<not> now < last_moment (t + js_refresh_expiry (ge_jwt ge))"
    then have "RefreshToken (ge_lib ge) (ge_jwt ge) now ref0 = Inl Token_Expired" using v(3) by (simp add: RefreshToken_def)
    with h show "refresh_session (gate_server ge) w = (Inl (RequestFailed (Some 401)), w)"
      by (simp add: r send_def gate_auth_routes assms(5) [symmetric] error_answer_def)
  }
  assume "now < last_moment (t + js_refresh_expiry (ge_jwt ge))"
  with v(3) have c: "ValidateRefreshToken (ge_lib ge) (ge_jwt ge) now ref0 = Inr (refresh_claims (ge_jwt ge) t u n)" by simp
  from generated [OF assms(1,7,3)] obtain acc ref
    where g: "GenerateTokenWithPolicies (ge_lib ge) (ge_jwt ge) now u n [''user''] [] = Some acc"
      "GenerateRefreshTokenWithPolicies (ge_lib ge) (ge_jwt ge) now u n [''user''] [] = Some ref"
    and s: "gate_signs ge (access_claims (ge_jwt ge) now u n) acc" "gate_signs ge (refresh_claims (ge_jwt ge) now u n) ref" .
  have "RefreshToken (ge_lib ge) (ge_jwt ge) now ref0 = Inr (acc, ref)"
    by (simp add: RefreshToken_def c) (simp add: refresh_claims_def mk_claims_def g)
  then have "handle_refresh (ge_lib ge) (ge_jwt ge) now ?body = login_response acc ref" by (simp add: h)
  moreover have "rs_status (login_response acc ref) = 200" by (simp add: login_response_def)
  ultimately have "refresh_session (gate_server ge) w = (Inr (JStr acc), w\<lparr>w_store := store_tokens (JStr acc) (JStr ref) (w_store w)\<rparr>)"
    by (simp add: r send_def gate_auth_routes assms(5) [symmetric] token_pair_login)
  with s show "\<exists>acc ref. refresh_session (gate_server ge) w = (Inr (JStr acc), w\<lparr>w_store := store_tokens (JStr acc) (JStr ref) (w_store w)\<rparr>)
        \<and> gate_signs ge (access_claims (ge_jwt ge) now u n) acc \<and> gate_signs ge (refresh_claims (ge_jwt ge) now u n) ref"
    by blast
qed

lemma call_expired_access:
  assumes "gate_ok ge" and "clock_ok t" and "user_ok u n" and "holds_session ge t u n (w_store w)"
    and "now = nd_clock (ga_node (w_server w))" and "t \<le> now" and "behind_gate ge cfg" and "\<not> rq_retry cfg"
    and "last_moment (t + js_expiry (ge_jwt ge)) \<le> now"
  shows "api_request (gate_server ge) cfg w =
    (case refresh_session (gate_server ge) w of
       (Inl e, w2) \<Rightarrow> (throw e, drop_session w2)
     | (Inr token, w2) \<Rightarrow>
         api_request (gate_server ge)
           ((request_interceptor (w_store w) cfg)\<lparr>rq_retry := True, rq_auth := Some (''Bearer '' @ to_str token)\<rparr>) w2)"
proof -
  obtain acc where st: "w_store w token_key = Some acc" and s: "gate_signs ge (access_claims (ge_jwt ge) t u n) acc"
    using assms(4) unfolding holds_session_def by blast
  note v = access_validates [OF assms(1-3) s assms(6)]
  have "ValidateToken (ge_lib ge) (ge_jwt ge) (nd_clock (ga_node (w_server w))) acc = Inl Token_Expired"
    using v(3) assms(5,9) by simp
  from send_old_token [OF assms(1,7) st v(1,2) this]
  have d: "send (gate_server ge) (request_interceptor (w_store w) cfg) w = (Inl (RequestFailed (Some 401)), w)" .
  have "refreshable (Inl (RequestFailed (Some 401))) cfg" using assms(8) by (simp add: refreshable_def)
  from api_request_refresh [OF d this] show ?thesis .
qed

lemma call_expired_session:
  assumes "gate_ok ge" and "clock_ok t" and "user_ok u n" and "holds_session ge t u n (w_store w)"
    and "now = nd_clock (ga_node (w_server w))" and "t \<le> now" and "clock_ok now" and "behind_gate ge cfg" and "\<not> rq_retry cfg"
    and "last_moment (t + js_expiry (ge_jwt ge)) \<le> now" and "last_moment (t + js_refresh_expiry (ge_jwt ge)) \<le> now"
  shows "api_request (gate_server ge) cfg w = (Inl (RequestFailed (Some 401)), drop_session w)"
  using call_expired_access [OF assms(1-6,8-10)] refresh_session_gate(2) [OF assms(1-7)] assms(11) by simp

lemma repeated_call:
  \<comment> \<open>the repetition of a request with an access token just issued\<close>
  assumes "gate_ok ge" and "clock_ok now" and "user_ok u n" and "now = nd_clock (ga_node (w_server w))"
    and "behind_gate ge cfg" and "gate_signs ge (access_claims (ge_jwt ge) now u n) acc"
    and "now < last_moment (now + js_expiry (ge_jwt ge))" and "w_store w token_key = Some acc"
  shows "api_request (gate_server ge) ((request_interceptor st cfg)\<lparr>rq_retry := True, rq_auth := Some (''Bearer '' @ acc)\<rparr>) w
    = (fst (node_result ge cfg (w_server w)), w\<lparr>w_server := snd (node_result ge cfg (w_server w))\<rparr>)"
proof -
  let ?cfg = "(request_interceptor st cfg)\<lparr>rq_retry := True, rq_auth := Some (''Bearer '' @ acc)\<rparr>"
  note v = access_validates [OF assms(1-3,6) order_refl]
  have b: "behind_gate ge ?cfg" using assms(5) by (simp add: behind_gate_def)
  have "ValidateToken (ge_lib ge) (ge_jwt ge) (nd_clock (ga_node (w_server w))) acc = Inr (access_claims (ge_jwt ge) now u n)"
    using v(3) assms(4,7) by simp
  from send_good_token(1) [OF assms(1) b assms(8) v(1,2) this]
  have "send (gate_server ge) (request_interceptor (w_store w) ?cfg) w
    = (fst (node_result ge ?cfg (w_server w)), w\<lparr>w_server := snd (node_result ge ?cfg (w_server w))\<rparr>)" .
  moreover have "node_result ge ?cfg (w_server w) = node_result ge cfg (w_server w)"
    using node_server_same [of ?cfg cfg] by (simp add: node_result_def same_request_def)
  ultimately show ?thesis using api_request_retry [of ?cfg "gate_server ge" w] by simp
qed

text \<open>
  C3: With the tokens of a sign-in at time \<open>t\<close>, a call for the node gets what the node answers:
  until the last moment of the access token with the session as it is, after it, until the last
  moment of the refresh token, with a session of the present. Later it fails, the session is
  forgotten, the console goes to its login page, and the node has not been asked.
\<close>

theorem call_while_tokens_age:
  assumes "gate_ok ge" and "clock_ok t" and "user_ok u n" and "holds_session ge t u n (w_store w)"
    and "g = w_server w" and "now = nd_clock (ga_node g)" and "t \<le> now" and "clock_ok now"
    and "behind_gate ge cfg" and "\<not> rq_retry cfg"
  shows "(now < last_moment (t + js_expiry (ge_jwt ge)) \<longrightarrow>
      api_request (gate_server ge) cfg w = (fst (node_result ge cfg g), w\<lparr>w_server := snd (node_result ge cfg g)\<rparr>))
    \<and> (last_moment (t + js_expiry (ge_jwt ge)) \<le> now \<longrightarrow> now < last_moment (t + js_refresh_expiry (ge_jwt ge)) \<longrightarrow>
      now < last_moment (now + js_expiry (ge_jwt ge)) \<longrightarrow>
      (\<exists>st. holds_session ge now u n st \<and> st user_key = w_store w user_key
        \<and> api_request (gate_server ge) cfg w =
            (fst (node_result ge cfg g), w\<lparr>w_store := st, w_server := snd (node_result ge cfg g)\<rparr>)))
    \<and> (last_moment (t + js_expiry (ge_jwt ge)) \<le> now \<longrightarrow> last_moment (t + js_refresh_expiry (ge_jwt ge)) \<le> now \<longrightarrow>
      api_request (gate_server ge) cfg w = (Inl (RequestFailed (Some 401)), drop_session w))"
proof (intro conjI impI)
  obtain acc where st: "w_store w token_key = Some acc" and s: "gate_signs ge (access_claims (ge_jwt ge) t u n) acc"
    using assms(4) unfolding holds_session_def by blast
  note v = access_validates [OF assms(1-3) s assms(7)]
  have now: "now = nd_clock (ga_node (w_server w))" using assms(5,6) by simp
  {
    assume "now < last_moment (t + js_expiry (ge_jwt ge))"
    with v(3) have "ValidateToken (ge_lib ge) (ge_jwt ge) (nd_clock (ga_node (w_server w))) acc
      = Inr (access_claims (ge_jwt ge) t u n)" using now by simp
    note d = send_good_token [OF assms(1,9) st v(1,2) this]
    from api_request_plain [OF d] show "api_request (gate_server ge) cfg w =
        (fst (node_result ge cfg g), w\<lparr>w_server := snd (node_result ge cfg g)\<rparr>)" by (simp add: assms(5))
  }
  assume old: "last_moment (t + js_expiry (ge_jwt ge)) \<le> now"
  note a = call_expired_access [OF assms(1-4) now assms(7,9,10) old]
  {
    assume "last_moment (t + js_refresh_expiry (ge_jwt ge)) \<le> now"
    with call_expired_session [OF assms(1-4) now assms(7-10) old]
    show "api_request (gate_server ge) cfg w = (Inl (RequestFailed (Some 401)), drop_session w)" by simp
  }
  assume "now < last_moment (t + js_refresh_expiry (ge_jwt ge))" and soon: "now < last_moment (now + js_expiry (ge_jwt ge))"
  with refresh_session_gate(1) [OF assms(1-4) now assms(7,8)] obtain acc' ref'
    where f: "refresh_session (gate_server ge) w = (Inr (JStr acc'), w\<lparr>w_store := store_tokens (JStr acc') (JStr ref') (w_store w)\<rparr>)"
      and s': "gate_signs ge (access_claims (ge_jwt ge) now u n) acc'" "gate_signs ge (refresh_claims (ge_jwt ge) now u n) ref'"
    by blast
  let ?st = "store_tokens (JStr acc') (JStr ref') (w_store w)"
  let ?w = "w\<lparr>w_store := ?st\<rparr>"
  have "api_request (gate_server ge)
      ((request_interceptor (w_store w) cfg)\<lparr>rq_retry := True, rq_auth := Some (''Bearer '' @ acc')\<rparr>) ?w
    = (fst (node_result ge cfg g), ?w\<lparr>w_server := snd (node_result ge cfg g)\<rparr>)"
    using repeated_call [OF assms(1,8,3) _ assms(9) s'(1) soon, of ?w] now by (simp add: assms(5))
  with a f have "api_request (gate_server ge) cfg w = (fst (node_result ge cfg g), ?w\<lparr>w_server := snd (node_result ge cfg g)\<rparr>)"
    by simp
  moreover have "holds_session ge now u n ?st" using s' assms(4) by (auto simp: holds_session_def)
  ultimately show "\<exists>st. holds_session ge now u n st \<and> st user_key = w_store w user_key
        \<and> api_request (gate_server ge) cfg w =
            (fst (node_result ge cfg g), w\<lparr>w_store := st, w_server := snd (node_result ge cfg g)\<rparr>)"
    by (intro exI [of _ ?st]) simp
qed

lemma demo_call:
  "behind_gate demo_gate (mk_request ''GET'' ''/services/'' JUndef)" "\<not> rq_retry (mk_request ''GET'' ''/services/'' JUndef)"
  by (simp_all add: behind_gate_def mk_request_def url_path_def url_param_def demo_gate_def is_public_def default_public starts_with_def)

theorem call_while_tokens_age_witness:
  "\<exists>st st'. holds_session demo_gate 0 ''7'' ''bob'' st \<and> holds_session demo_gate (1000 * 10 ^ 9) ''7'' ''bob'' st'
    \<and> api_request (gate_server demo_gate) (mk_request ''GET'' ''/services/'' JUndef) (demo_world st (1000 * 10 ^ 9))
      = (Inr \<lparr>rs_status = 200, rs_data = JArr []\<rparr>, demo_world st' (1000 * 10 ^ 9))"
proof -
  obtain st where st: "holds_session demo_gate 0 ''7'' ''bob'' st" by (rule demo_session)
  let ?now = "1000 * 10 ^ 9 :: int" and ?rq = "mk_request ''GET'' ''/services/'' JUndef"
  let ?w = "demo_world st ?now"
  have h: "holds_session demo_gate 0 ''7'' ''bob'' (w_store ?w)" "(0 :: int) \<le> ?now" "clock_ok ?now"
    using st by (simp_all add: demo_clock clock_ok_def)
  have d: "last_moment (0 + js_expiry (ge_jwt demo_gate)) \<le> ?now" "?now < last_moment (0 + js_refresh_expiry (ge_jwt demo_gate))"
    "?now < last_moment (?now + js_expiry (ge_jwt demo_gate))"
    by (simp_all add: demo_expiry last_moment_def)
  have r: "node_result demo_gate ?rq (demo_state ?now) = (Inr \<lparr>rs_status = 200, rs_data = JArr []\<rparr>, demo_state ?now)"
    by (simp add: node_result_def demo_state_def demo_gate_def node_server_def mk_request_def starts_with_def named_def
        handle_services_def registry_list_def live_services_def NewServiceStoreWithTTL_def)
  from call_while_tokens_age [OF demo_gate_ok demo_zero demo_user h(1) refl demo_clock(1) [symmetric] h(2,3) demo_call] d
  obtain st' where "holds_session demo_gate ?now ''7'' ''bob'' st'"
    "api_request (gate_server demo_gate) ?rq ?w = (fst (node_result demo_gate ?rq (w_server ?w)),
       ?w\<lparr>w_store := st', w_server := snd (node_result demo_gate ?rq (w_server ?w))\<rparr>)" by blast
  moreover have "w_server ?w = demo_state ?now" by (simp add: demo_world_def)
  ultimately show ?thesis using st r by (intro exI [of _ st] exI [of _ st']) (simp add: demo_world_def)
qed

section \<open>One token is enough\<close>

fun renewals :: "jwt_lib \<Rightarrow> jwt_service \<Rightarrow> string \<Rightarrow> int list \<Rightarrow> string option" where
  \<comment> \<open>refreshes at some times, each with the refresh token of the one before; the last such token\<close>
  "renewals lib j token [] = Some token"
| "renewals lib j token (now # ts) =
     (case RefreshToken lib j now token of
        Inl _ \<Rightarrow> None | Inr (newToken, newRefreshToken) \<Rightarrow> renewals lib j newRefreshToken ts)"

fun spaced :: "jwt_service \<Rightarrow> int \<Rightarrow> int list \<Rightarrow> bool" where
  \<comment> \<open>times that follow each other within the life of a refresh token\<close>
  "spaced j t [] = True"
| "spaced j t (now # ts) \<longleftrightarrow>
     t \<le> now \<and> clock_ok now \<and> now < last_moment (t + js_refresh_expiry j) \<and> spaced j now ts"

lemma refresh_with_claims:
  assumes "gate_ok ge" and "clock_ok now" and "user_ok u n"
    and "ValidateRefreshToken (ge_lib ge) (ge_jwt ge) now token = Inr c"
    and "jc_user_id c = u" "jc_username c = n" "jc_roles c = [''user'']" "jc_policies c = []"
  shows "\<exists>acc ref. RefreshToken (ge_lib ge) (ge_jwt ge) now token = Inr (acc, ref)
    \<and> gate_signs ge (refresh_claims (ge_jwt ge) now u n) ref"
  by (rule generated [OF assms(1-3)]) (use assms(4-8) in \<open>auto simp: RefreshToken_def\<close>)

lemma renewals_last:
  assumes "gate_ok ge" and "user_ok u n"
  shows "clock_ok t \<Longrightarrow> gate_signs ge (refresh_claims (ge_jwt ge) t u n) token \<Longrightarrow> spaced (ge_jwt ge) t ts \<Longrightarrow>
    \<exists>ref. renewals (ge_lib ge) (ge_jwt ge) token ts = Some ref
      \<and> gate_signs ge (refresh_claims (ge_jwt ge) (last (t # ts)) u n) ref \<and> clock_ok (last (t # ts))"
proof (induction ts arbitrary: t token)
  case (Cons now ts)
  then have le: "t \<le> now" "clock_ok now" "now < last_moment (t + js_refresh_expiry (ge_jwt ge))" by simp_all
  have "ValidateRefreshToken (ge_lib ge) (ge_jwt ge) now token = Inr (refresh_claims (ge_jwt ge) t u n)"
    using refresh_validates(3) [OF assms(1) Cons.prems(1) assms(2) Cons.prems(2) le(1)] le(3) by simp
  from refresh_with_claims [OF assms(1) le(2) assms(2) this] obtain acc ref
    where "RefreshToken (ge_lib ge) (ge_jwt ge) now token = Inr (acc, ref)"
      "gate_signs ge (refresh_claims (ge_jwt ge) now u n) ref"
    by (auto simp: refresh_claims_def mk_claims_def)
  with Cons.IH [OF le(2)] Cons.prems(3) show ?case by simp
qed simp

text \<open>
  C15: The server does not tell its two kinds of tokens apart: an access token that is still
  valid can be refreshed, over and over, and what comes out opens the node as an access token at
  any time until the last refresh token has aged: one token in the wrong hands is enough to stay.
\<close>

theorem access_token_renews:
  assumes "gate_ok ge" and "clock_ok t" and "user_ok u n" and "gate_signs ge (access_claims (ge_jwt ge) t u n) acc"
    and "t \<le> now" and "clock_ok now" and "now < last_moment (t + js_expiry (ge_jwt ge))"
    and "spaced (ge_jwt ge) now ts" and "last (now # ts) \<le> later"
    and "later < last_moment (last (now # ts) + js_refresh_expiry (ge_jwt ge))"
  shows "\<exists>ref. renewals (ge_lib ge) (ge_jwt ge) acc (now # ts) = Some ref
    \<and> (\<forall>rq. rq_auth rq = Some (''Bearer '' @ ref) \<longrightarrow>
        (\<exists>found. JWTAuth (ge_lib ge) (ge_jwt ge) (ge_public ge) later rq = Inr found))"
proof -
  have lib: "jwt_lib_ok (ge_lib ge)" and u: "u \<noteq> []" using assms(1,3) by (simp_all add: gate_ok_def user_ok_def)
  have s: "jl_sign (ge_lib ge) (js_secret (ge_jwt ge)) (access_claims (ge_jwt ge) t u n) = Some acc"
    using assms(4) by (simp add: gate_signs_def signs_def)
  note plain = session_claims_plain(1) [OF assms(1-3)]
  have "ValidateRefreshToken (ge_lib ge) (ge_jwt ge) now acc = Inr (access_claims (ge_jwt ge) t u n)"
    using validate_signed [OF lib plain [unfolded access_claims_def] u assms(5) s [unfolded access_claims_def]] assms(7)
    by (simp add: access_claims_def)
  from refresh_with_claims [OF assms(1,6,3) this] obtain acc' ref'
    where r: "RefreshToken (ge_lib ge) (ge_jwt ge) now acc = Inr (acc', ref')"
      and s': "gate_signs ge (refresh_claims (ge_jwt ge) now u n) ref'"
    by (auto simp: access_claims_def mk_claims_def)
  from renewals_last [OF assms(1,3,6) s' assms(8)] obtain ref
    where ref: "renewals (ge_lib ge) (ge_jwt ge) ref' ts = Some ref"
      "gate_signs ge (refresh_claims (ge_jwt ge) (last (now # ts)) u n) ref" "clock_ok (last (now # ts))" by blast
  note v = refresh_validates [OF assms(1) ref(3) assms(3) ref(2) assms(9)]
  have ok: "ValidateToken (ge_lib ge) (ge_jwt ge) later ref = Inr (refresh_claims (ge_jwt ge) (last (now # ts)) u n)"
    using v(3,4) assms(10) by simp
  have "\<exists>found. JWTAuth (ge_lib ge) (ge_jwt ge) (ge_public ge) later rq = Inr found"
    if "rq_auth rq = Some (''Bearer '' @ ref)" for rq
    using JWTAuth_bearer(1) [OF _ that v(2) ok, of "ge_public ge"]
    by (cases "is_public (ge_public ge) (url_path (rq_url rq))") (auto simp: JWTAuth_def)
  then show ?thesis using r ref(1) by auto
qed

theorem access_token_renews_witness:
  "\<exists>acc ref. gate_signs demo_gate (access_claims (ge_jwt demo_gate) 0 ''7'' ''bob'') acc
    \<and> renewals (ge_lib demo_gate) (ge_jwt demo_gate) acc [800 * 10 ^ 9, 600000 * 10 ^ 9] = Some ref"
proof -
  obtain st where "holds_session demo_gate 0 ''7'' ''bob'' st" by (rule demo_session)
  then obtain acc where s: "gate_signs demo_gate (access_claims (ge_jwt demo_gate) 0 ''7'' ''bob'') acc"
    unfolding holds_session_def by blast
  let ?now = "800 * 10 ^ 9 :: int" and ?ts = "[600000 * 10 ^ 9 :: int]"
  have c: "0 \<le> ?now" "clock_ok ?now" by (simp_all add: clock_ok_def)
  have d: "?now < last_moment (0 + js_expiry (ge_jwt demo_gate))" "spaced (ge_jwt demo_gate) ?now ?ts"
    "last (?now # ?ts) \<le> 600001 * 10 ^ 9"
    "600001 * 10 ^ 9 < last_moment (last (?now # ?ts) + js_refresh_expiry (ge_jwt demo_gate))"
    by (simp_all add: demo_expiry last_moment_def clock_ok_def)
  show ?thesis using access_token_renews [OF demo_gate_ok demo_zero demo_user s c d] s by blast
qed

section \<open>Where a session ends\<close>

text \<open>
  C35: When both tokens have aged, a call sends the browser to the login page, and a server with
  the default public paths refuses to deliver that page: it asks the navigation, which carries
  no token, for one. The start page and the bundles are public.
\<close>

theorem login_page_refused:
  assumes "gate_ok ge" and "clock_ok t" and "user_ok u n" and "holds_session ge t u n (w_store w)"
    and "now = nd_clock (ga_node (w_server w))" and "t \<le> now" and "clock_ok now"
    and "behind_gate ge cfg" and "\<not> rq_retry cfg" and "ge_public ge = default_public_paths"
    and "last_moment (t + js_expiry (ge_jwt ge)) \<le> now" and "last_moment (t + js_refresh_expiry (ge_jwt ge)) \<le> now"
  shows "\<exists>e w'. api_request (gate_server ge) cfg w = (Inl e, w') \<and> w_store w' token_key = None
    \<and> (\<exists>page. w_location w' = Some page
        \<and> gate_server ge (mk_request ''GET'' page JUndef) (w_server w') =
            (Some (error_answer 401 ''missing authorization header''), w_server w'))
    \<and> is_public (ge_public ge) ''/admin'' \<and> is_public (ge_public ge) (''/admin/assets/'' @ file)"
proof -
  let ?rq = "mk_request ''GET'' ''/admin/login'' JUndef"
  have "behind_gate ge ?rq"
    by (simp add: behind_gate_def mk_request_def url_path_def url_param_def assms(10) is_public_def default_public starts_with_def)
  moreover from this have "JWTAuth (ge_lib ge) (ge_jwt ge) (ge_public ge) later ?rq =
      Inl (error_answer 401 ''missing authorization header'')" for later
    by (simp add: JWTAuth_def behind_gate_def) (simp add: mk_request_def)
  ultimately have "gate_server ge ?rq g = (Some (error_answer 401 ''missing authorization header''), g)" for g
    using gate_behind [of ge ?rq g] assms(1) by (simp add: gate_ok_def)
  moreover have "is_public (ge_public ge) ''/admin''" "is_public (ge_public ge) (''/admin/assets/'' @ file)"
    by (simp_all add: assms(10) is_public_def default_public starts_with_def)
  moreover note call_expired_session [OF assms(1-9) assms(11,12)]
  ultimately show ?thesis by (simp add: drop_session_def)
qed

theorem login_page_refused_witness:
  "\<exists>st e w'. holds_session demo_gate 0 ''7'' ''bob'' st
    \<and> api_request (gate_server demo_gate) (mk_request ''GET'' ''/services/'' JUndef) (demo_world st (700000 * 10 ^ 9)) = (Inl e, w')
    \<and> w_store w' token_key = None"
proof -
  obtain st where st: "holds_session demo_gate 0 ''7'' ''bob'' st" by (rule demo_session)
  let ?now = "700000 * 10 ^ 9 :: int"
  have h: "holds_session demo_gate 0 ''7'' ''bob'' (w_store (demo_world st ?now))" "(0 :: int) \<le> ?now" "clock_ok ?now"
    using st by (simp_all add: demo_clock clock_ok_def)
  have d: "ge_public demo_gate = default_public_paths" "last_moment (0 + js_expiry (ge_jwt demo_gate)) \<le> ?now"
    "last_moment (0 + js_refresh_expiry (ge_jwt demo_gate)) \<le> ?now"
    by (simp_all add: demo_expiry last_moment_def) (simp add: demo_gate_def)
  show ?thesis
    using login_page_refused [OF demo_gate_ok demo_zero demo_user h(1) demo_clock(1) [symmetric] h(2,3) demo_call d, of "[]"] st
    by blast
qed

section \<open>The page of the API keys\<close>

lemma apikeys_path: "url_path ''/auth/apikeys'' = ''/auth/apikeys''"
  by (simp add: url_path_def url_param_def)

lemma key_request_checked:
  assumes "ValidateToken (ge_lib ge) (ge_jwt ge) now (to_str token) = Inr c" and "CHR '' '' \<notin> set (to_str token)"
  shows "\<exists>found. JWTAuth (ge_lib ge) (ge_jwt ge) (ge_public ge) now (key_request m u b token) = Inr found"
proof (cases "is_public (ge_public ge) (url_path (rq_url (key_request m u b token)))")
  case False
  have "rq_auth (key_request m u b token) = Some (''Bearer '' @ to_str token)" by (simp add: key_request_def)
  from JWTAuth_bearer(1) [OF False this assms(2,1)] show ?thesis by blast
qed (simp add: JWTAuth_def)

lemma gate_apikeys:
  assumes "ValidateToken (ge_lib ge) (ge_jwt ge) (nd_clock (ga_node g)) (to_str token) = Inr c"
    and "CHR '' '' \<notin> set (to_str token)"
  shows "gate_server ge (key_request ''GET'' ''/auth/apikeys'' b token) g =
      (Some (handle_list_keys (ge_keys ge) (ga_keys g)), g)"
    and "gate_server ge (key_request ''POST'' ''/auth/apikeys'' b token) g =
      (case handle_create_key (ge_keys ge) (nd_clock (ga_node g)) b (ga_keys g) of
         (r, ks) \<Rightarrow> (Some r, g\<lparr>ga_keys := ks\<rparr>))"
proof -
  note j = key_request_checked [OF assms]
  obtain x where x: "JWTAuth (ge_lib ge) (ge_jwt ge) (ge_public ge) (nd_clock (ga_node g))
      (key_request ''GET'' ''/auth/apikeys'' b token) = Inr x" using j by blast
  show "gate_server ge (key_request ''GET'' ''/auth/apikeys'' b token) g =
      (Some (handle_list_keys (ge_keys ge) (ga_keys g)), g)"
    unfolding gate_server_def Let_def x
    by (simp add: key_request_def mk_request_def apikeys_path key_routes_def Let_def)
  obtain y where y: "JWTAuth (ge_lib ge) (ge_jwt ge) (ge_public ge) (nd_clock (ga_node g))
      (key_request ''POST'' ''/auth/apikeys'' b token) = Inr y" using j by blast
  show "gate_server ge (key_request ''POST'' ''/auth/apikeys'' b token) g =
      (case handle_create_key (ge_keys ge) (nd_clock (ga_node g)) b (ga_keys g) of
         (r, ks) \<Rightarrow> (Some r, g\<lparr>ga_keys := ks\<rparr>))"
    unfolding gate_server_def Let_def y
    by (simp add: key_request_def mk_request_def apikeys_path key_routes_def Let_def split: prod.split)
qed

text \<open>
  C33: However many keys the server has, the page of a signed-in user loads them, says that none
  were created, and offers neither to revoke nor to delete one: the server wraps its list.
\<close>

theorem server_keys_not_listed:
  assumes "ValidateToken (ge_lib ge) (ge_jwt ge) (nd_clock (ga_node (w_server w))) (to_str token) = Inr c"
    and "CHR '' '' \<notin> set (to_str token)"
  shows "\<exists>v. fetch_keys (gate_server ge) token w = (Inr v, w)
    \<and> opt_prop v ''keys'' = JArr (map (api_key_json (ge_keys ge)) (ListAPIKeys (ge_keys ge) (ga_keys (w_server w))))
    \<and> view_clicks (key_list date_text (s\<lparr>ak_data := v, ak_loading := False\<rparr>)) = []
    \<and> ''No API keys created yet'' \<in> set (view_texts (key_list date_text (s\<lparr>ak_data := v, ak_loading := False\<rparr>)))"
proof -
  let ?v = "rs_data (handle_list_keys (ge_keys ge) (ga_keys (w_server w)))"
  have ok: "response_ok (handle_list_keys (ge_keys ge) (ga_keys (w_server w)))"
    by (simp add: handle_list_keys_def Let_def response_ok_def)
  have "fetch_keys (gate_server ge) token w = (Inr ?v, w)"
    by (simp add: fetch_keys_def fetch_def gate_apikeys [OF assms] checked_def ok)
  moreover have "opt_prop ?v ''keys'' = JArr (map (api_key_json (ge_keys ge)) (ListAPIKeys (ge_keys ge) (ga_keys (w_server w))))"
    "opt_prop ?v ''length'' = JUndef"
    by (simp_all add: handle_list_keys_def Let_def opt_prop_def)
  ultimately show ?thesis
    by (intro exI [of _ ?v]) (simp add: key_list_def positive_num_def view_clicks_children view_texts_children)
qed

lemma demo_token:
  obtains acc c where "ValidateToken (ge_lib demo_gate) (ge_jwt demo_gate) (nd_clock (ga_node (w_server (demo_world st 0)))) (to_str (JStr acc)) = Inr c"
    and "CHR '' '' \<notin> set (to_str (JStr acc))"
proof -
  obtain st where "holds_session demo_gate 0 ''7'' ''bob'' st" by (rule demo_session)
  then obtain acc where s: "gate_signs demo_gate (access_claims (ge_jwt demo_gate) 0 ''7'' ''bob'') acc"
    unfolding holds_session_def by blast
  have "(0 :: int) < last_moment (0 + js_expiry (ge_jwt demo_gate))" by (simp add: demo_expiry last_moment_def)
  with access_validates [OF demo_gate_ok demo_zero demo_user s order_refl] that show thesis by (simp add: demo_clock)
qed

theorem server_keys_not_listed_witness:
  "\<exists>acc v. fetch_keys (gate_server demo_gate) (JStr acc) (demo_world Map.empty 0) = (Inr v, demo_world Map.empty 0)
    \<and> view_clicks (key_list to_str (keys_init\<lparr>ak_data := v, ak_loading := False\<rparr>)) = []"
proof -
  obtain acc c where t: "ValidateToken (ge_lib demo_gate) (ge_jwt demo_gate) (nd_clock (ga_node (w_server (demo_world Map.empty 0)))) (to_str (JStr acc)) = Inr c"
    "CHR '' '' \<notin> set (to_str (JStr acc))" by (rule demo_token)
  show ?thesis using server_keys_not_listed [OF t, of to_str keys_init] by blast
qed

lemma go_duration_exact: "0 \<le> n \<Longrightarrow> n * 10 ^ 9 < 2 ^ 63 \<Longrightarrow> go_duration n = n * 10 ^ 9"
proof -
  have "sint (word_of_int m :: 64 word) = m" if "0 \<le> m" "m < 2 ^ 63" for m :: int
    using that by (simp add: int_word_sint signed_take_bit_int_eq_self)
  moreover assume "0 \<le> n" and "n * 10 ^ 9 < 2 ^ 63"
  ultimately show ?thesis unfolding go_duration_def by (metis mult_nonneg_nonneg zero_le_numeral zero_le_power)
qed

lemma lower_key_members:
  "to_lower ''name'' = ''name''" "to_lower ''permissions'' = ''permissions''" "to_lower ''expires_in'' = ''expires_in''"
  by code_simp+

lemma go_strings_texts: "map_option_list go_element (map JStr ts) = Some ts"
  by (induction ts) simp_all

lemma create_request_page:
  assumes "kf_expiresIn f = nat_str n" and "n < 2 ^ 53"
  shows "create_request (JStr (json_stringify (create_body f))) =
    Some (kf_name f, Some (split_trim (kf_permissions f)), None, Some (int n))"
proof -
  have "raw_body (JStr (json_stringify (create_body f))) = create_body f"
    using json_parse_stringify [OF create_body_ok(1) [OF assms]] by (simp add: raw_body_def)
  then show ?thesis
    using create_body_ok(2) [OF assms] assms(2)
    by (simp add: create_request_def create_body_def body_members_def lower_key_members go_strings_texts if_given_def given_def)
qed

text \<open>
  C21: A key created on the page is the key the server makes: with the name, the permissions
  each trimmed and the expiry of the form, counted from now. The page shows the text that
  validates, and it opens what was asked for until it expires.
\<close>

theorem key_created_on_server:
  assumes "g = w_server w" and "now = nd_clock (ga_node g)"
    and "ValidateToken (ge_lib ge) (ge_jwt ge) now (to_str token) = Inr c" and "CHR '' '' \<notin> set (to_str token)"
    and "ak_pending s ! i = (token, Create_Key f)" and "kf_name f \<noteq> []" and "kf_expiresIn f = nat_str n"
    and "int n * 10 ^ 9 < 2 ^ 63" and "kn_random (ge_keys ge) (as_draws (ga_keys g)) = Some x"
  shows "\<exists>k ks s'. GenerateAPIKey (ge_keys ge) now (kf_name f) (Some (split_trim (kf_permissions f))) None
        (Some (now + int n * 10 ^ 9)) (ga_keys g) = (Inr (key_string (as_prefix (ga_keys g)) x, k), ks)
    \<and> key_settle (gate_server ge) i (s, w) = (s', w\<lparr>w_server := g\<lparr>ga_keys := ks\<rparr>\<rparr>)
    \<and> opt_prop (ak_new s') ''key'' = JStr (key_string (as_prefix (ga_keys g)) x) \<and> ak_form s' = empty_key_form
    \<and> (\<forall>later. later \<le> now + int n * 10 ^ 9 \<longrightarrow>
         (\<exists>k'. fst (ValidateAPIKey (ge_keys ge) later (key_string (as_prefix (ga_keys g)) x) ks) = Inr k'
            \<and> (\<forall>p \<in> set (split_trim (kf_permissions f)). HasPermission (Some k') p)))"
proof -
  let ?env = "ge_keys ge" and ?ks = "ga_keys g" and ?e = "Some (now + int n * 10 ^ 9)"
    and ?ps = "Some (split_trim (kf_permissions f))"
  let ?key = "key_string (as_prefix ?ks) x"
  have n: "n < 2 ^ 53" using assms(8) by simp
  have key: "?key \<noteq> []" by (simp add: key_string_def)
  obtain r ks where g: "GenerateAPIKey ?env now (kf_name f) ?ps None ?e ?ks = (r, ks)" by force
  have "\<nexists>err. r = Inl err" using g assms(6,9) by (auto simp: GenerateAPIKey_def Let_def)
  with generate_cases [OF g] assms(9) obtain k where k: "r = Inr (?key, k)" "ky_permissions k = ?ps" "ky_expires k = ?e" "ky_enabled k"
      "as_keys ks (kn_hash ?env ?key) = Some k" by auto
  have c: "handle_create_key ?env now (JStr (json_stringify (create_body f))) ?ks =
      (\<lparr>rs_status = 201, rs_data = JObj [(''key'', JStr ?key), (''api_key'', api_key_json ?env k)]\<rparr>, ks)"
    using assms(6) g k(1) go_duration_exact [of "int n"] assms(8)
    by (simp add: handle_create_key_def create_request_page [OF assms(7) n])
  let ?data = "JObj [(''key'', JStr ?key), (''api_key'', api_key_json ?env k)]"
  have run: "run_key_mutation (gate_server ge) token (Create_Key f) w = (Inr ?data, w\<lparr>w_server := g\<lparr>ga_keys := ks\<rparr>\<rparr>)"
    using gate_apikeys(2) [of ge "w_server w" token c] assms(1-4) c
    by (simp add: run_key_mutation_def create_key_def fetch_def checked_def response_ok_def)
  let ?s = "key_success (Create_Key f) ?data (s\<lparr>ak_pending := take i (ak_pending s) @ drop (Suc i) (ak_pending s)\<rparr>)"
  have "key_settle (gate_server ge) i (s, w) = (?s, w\<lparr>w_server := g\<lparr>ga_keys := ks\<rparr>\<rparr>)"
    by (simp add: key_settle_def assms(5) run)
  moreover have "opt_prop (ak_new ?s) ''key'' = JStr ?key" "ak_form ?s = empty_key_form"
    by (simp_all add: key_success_def opt_prop_def)
  moreover have "\<exists>k'. fst (ValidateAPIKey ?env later ?key ks) = Inr k'
      \<and> (\<forall>p \<in> set (split_trim (kf_permissions f)). HasPermission (Some k') p)" if "later \<le> now + int n * 10 ^ 9" for later
    using that validate_key [of ks ?env ?key k later] k key
    by (simp add: past_def) (auto simp: HasPermission_def list_ex_iff)
  ultimately show ?thesis using g k(1) by blast
qed

theorem key_created_on_server_witness:
  "\<exists>acc s' w'. key_settle (gate_server demo_gate) 0
      (keys_init\<lparr>ak_pending := [(JStr acc, Create_Key (empty_key_form\<lparr>kf_name := ''ci''\<rparr>))]\<rparr>, demo_world Map.empty 0) = (s', w')
    \<and> opt_prop (ak_new s') ''key'' = JStr ''konsul_0''"
proof -
  obtain acc c where t: "ValidateToken (ge_lib demo_gate) (ge_jwt demo_gate) (nd_clock (ga_node (w_server (demo_world Map.empty 0)))) (to_str (JStr acc)) = Inr c"
    "CHR '' '' \<notin> set (to_str (JStr acc))" by (rule demo_token)
  let ?f = "empty_key_form\<lparr>kf_name := ''ci''\<rparr>"
  have n: "kf_expiresIn ?f = nat_str 31536000" "kf_name ?f \<noteq> []"
    by (simp_all add: empty_key_form_def nat_str.simps digit_def char_of_def bit_simps)
  have z: "nat_str 0 = ''0''" by code_simp
  have g: "w_server (demo_world Map.empty 0) = demo_state 0" by (simp add: demo_world_def)
  have r: "kn_random (ge_keys demo_gate) (as_draws (ga_keys (w_server (demo_world Map.empty 0)))) = Some ''0''"
    unfolding g by (simp add: demo_gate_def demo_keys_def demo_state_def NewAPIKeyService_def z)
  have k: "key_string (as_prefix (ga_keys (w_server (demo_world Map.empty 0)))) ''0'' = ''konsul_0''"
    unfolding g by (simp add: demo_state_def NewAPIKeyService_def key_string_def)
  have p: "ak_pending (keys_init\<lparr>ak_pending := [(JStr acc, Create_Key ?f)]\<rparr>) ! 0 = (JStr acc, Create_Key ?f)"
    "int 31536000 * 10 ^ 9 < 2 ^ 63" by simp_all
  show ?thesis using key_created_on_server [OF refl refl t p(1) n(2,1) p(2) r] unfolding k by blast
qed

end
