(* ===== verification/Contracts.thy ===== *)
theory Contracts
  imports Console_Server Console_Auth
begin

text \<open>
  What the server sends against the types the console declares for it (theory Types): the
  values that the handlers of theories Server_Node, Server_KV, Server_Auth and Server_ApiKeys
  answer with, and the interfaces of lib/api.ts and of the pages.
\<close>

lemma opt_prop_absent:
  "list_all (\<lambda>(k, v). k \<noteq> p) kvs \<Longrightarrow> opt_prop (JObj kvs) p = JUndef"
  by (induction kvs) (auto simp: opt_prop_def obj_get_def)

lemma service_json_untyped: "\<not> is_Service (service_json s)"
  by (simp add: is_Service_def)

lemma health_untyped: "\<not> is_HealthResponse (rs_data (handle_health env nd))"
  by (simp add: is_HealthResponse_def health_props)

lemma key_list_untyped: "\<not> list_of is_APIKey (rs_data (handle_list_keys env ks))"
  by (simp add: handle_list_keys_def Let_def)

lemma record_of_texts: "record_of is_string (JObj (map (\<lambda>(a, b). (a, JStr b)) m))"
  by (auto simp: list_all_iff)

lemma api_key_props:
  "opt_prop (api_key_json env k) ''id'' = JStr (ky_id k)" "opt_prop (api_key_json env k) ''name'' = JStr (ky_name k)"
  "opt_prop (api_key_json env k) ''key'' = JUndef"
  "opt_prop (api_key_json env k) ''permissions'' = nullable (\<lambda>ps. JArr (map JStr ps)) (ky_permissions k)"
  "opt_prop (api_key_json env k) ''metadata'' =
     nullable (\<lambda>m. JObj (map (\<lambda>(a, b). (a, JStr b)) (sort_key fst m))) (ky_metadata k)"
  "opt_prop (api_key_json env k) ''created_at'' = JStr (kn_time env (ky_created k))"
  "opt_prop (api_key_json env k) ''expires_at'' =
     (case ky_expires k of None \<Rightarrow> JUndef | Some e \<Rightarrow> JStr (kn_time env e))"
  "opt_prop (api_key_json env k) ''enabled'' = JBool (ky_enabled k)"
  by (cases "ky_expires k"; cases "ky_used k"; simp add: api_key_json_def optional_member_def opt_prop_def)+

lemma api_key_typed:
  "is_APIKey (api_key_json env k) \<longleftrightarrow> ky_permissions k \<noteq> None \<and> ky_metadata k \<noteq> None"
proof -
  have "is_object (api_key_json env k)" by (simp add: api_key_json_def is_object_def list_all_iff)
  moreover have "list_of is_string (nullable (\<lambda>ps. JArr (map JStr ps)) x) \<longleftrightarrow> x \<noteq> None" for x
    by (cases x) (simp_all add: nullable_def list_all_iff)
  moreover have "optional (record_of is_string)
      (nullable (\<lambda>m. JObj (map (\<lambda>(a, b). (a, JStr b)) (sort_key fst m))) y) \<longleftrightarrow> y \<noteq> None" for y
    using record_of_texts [of "sort_key fst (the y)"] by (cases y) (simp_all add: nullable_def optional_def)
  moreover have "optional is_string (case z of None \<Rightarrow> JUndef | Some e \<Rightarrow> JStr (kn_time env e))" for z
    by (cases z) (simp_all add: optional_def)
  ultimately show ?thesis by (simp add: is_APIKey_def api_key_props) (simp add: optional_def)
qed

lemma kv_value_untyped:
  "kv_get kv key = Some v \<Longrightarrow> \<not> is_KVPair (kv_pair (JStr key) (rs_data (fst (handle_get key kv))))"
  by (simp add: handle_get_def kv_pair_def is_KVPair_def opt_prop_def)

text \<open>
  Of what the console declares about the server, the answers to a sign-in keep the types:
  the tokens are texts and the stored user is a \<open>User\<close>. The others break them: no service is a \<open>Service\<close>, no health
  answer a \<open>HealthResponse\<close>, no list of keys a list of \<open>APIKey\<close>s, and a key is one
  exactly if it has permissions and metadata, which a key made on the page has not.
\<close>

lemma answers_and_types:
  "is_User (user_data n u rs ps)
    \<and> is_string (opt_prop (rs_data (login_response t r)) ''token'') \<and> is_string (opt_prop (rs_data (login_response t r)) ''refresh_token'')
    \<and> \<not> is_Service (service_json s) \<and> \<not> is_HealthResponse (rs_data (handle_health env nd))
    \<and> \<not> list_of is_APIKey (rs_data (handle_list_keys kenv ks))
    \<and> (is_APIKey (api_key_json kenv k) \<longleftrightarrow> ky_permissions k \<noteq> None \<and> ky_metadata k \<noteq> None)"
proof -
  have "is_User (user_data n u rs ps)"
    by (simp add: is_User_def user_data_def opt_prop_def is_object_def optional_def list_all_iff)
  moreover have "is_string (opt_prop (rs_data (login_response t r)) ''token'')"
    "is_string (opt_prop (rs_data (login_response t r)) ''refresh_token'')"
    by (simp_all add: login_response_def opt_prop_def)
  ultimately show ?thesis
    using service_json_untyped health_untyped key_list_untyped api_key_typed by blast
qed

end
