(* ===== verification/Server_Replica.thy ===== *)
theory Server_Replica
  imports Server_KV Server_Services "HOL-Library.Multiset"
begin

text \<open>
  A replica of the two stores under raft (internal/raft/fsm.go, commands.go): the commands of
  the log, applied through the operations of the stores that do not persist (internal/store/kv.go,
  service.go), and the snapshots. What a host adds of its own to an application is its argument:
  the order in which Go iterates over the map of a batch, drawn anew by each loop, and its clock.
  The log itself, that is the consensus, belongs to the library; commands and snapshots are taken
  decoded, and the updates of health checks are left out. Registrations, removals and heartbeats
  are those of theory Server_Services, which does not persist either. The lemmas show how far replicas that
  apply the same log agree, where they part, and what a snapshot keeps.
\<close>

section \<open>The operations on keys\<close>

definition SetLocal :: "string \<Rightarrow> string \<Rightarrow> kv_store \<Rightarrow> kv_store" where
  "SetLocal key value kv = write_entry key old_flags value kv"

definition SetWithFlagsLocal :: "string \<Rightarrow> string \<Rightarrow> 64 word \<Rightarrow> kv_store \<Rightarrow> kv_store" where
  "SetWithFlagsLocal key value flags kv = write_entry key (\<lambda>_. flags) value kv"

definition check_set :: "kv_store \<Rightarrow> string \<Rightarrow> 64 word \<Rightarrow> store_error option" where
  \<comment> \<open>the condition of a compare-and-swap\<close>
  "check_set kv key expectedIndex =
     (if expectedIndex = 0 then
        (case ks_data kv key of Some old \<Rightarrow> Some (CAS_Conflict key 0 (ke_modify old)) | None \<Rightarrow> None)
      else
        (case ks_data kv key of
           None \<Rightarrow> Some (Not_Found key)
         | Some old \<Rightarrow>
             if ke_modify old \<noteq> expectedIndex then Some (CAS_Conflict key expectedIndex (ke_modify old)) else None))"

definition check_delete :: "kv_store \<Rightarrow> string \<Rightarrow> 64 word \<Rightarrow> store_error option" where
  "check_delete kv key expectedIndex =
     (case ks_data kv key of
        None \<Rightarrow> Some (Not_Found key)
      | Some old \<Rightarrow>
          if ke_modify old \<noteq> expectedIndex then Some (CAS_Conflict key expectedIndex (ke_modify old)) else None)"

definition SetCASLocal :: "string \<Rightarrow> string \<Rightarrow> 64 word \<Rightarrow> kv_store \<Rightarrow> (store_error + 64 word) \<times> kv_store" where
  "SetCASLocal key value expectedIndex kv =
     (case check_set kv key expectedIndex of
        Some err \<Rightarrow> (Inl err, kv)
      | None \<Rightarrow> (Inr (ks_index kv + 1), write_entry key old_flags value kv))"

definition DeleteLocal :: "string \<Rightarrow> kv_store \<Rightarrow> kv_store" where
  "DeleteLocal key kv = kv\<lparr>ks_data := (ks_data kv)(key := None)\<rparr>"

definition DeleteCASLocal :: "string \<Rightarrow> 64 word \<Rightarrow> kv_store \<Rightarrow> (store_error + unit) \<times> kv_store" where
  "DeleteCASLocal key expectedIndex kv =
     (case check_delete kv key expectedIndex of Some err \<Rightarrow> (Inl err, kv) | None \<Rightarrow> (Inr (), DeleteLocal key kv))"

definition BatchSetLocal :: "(string \<times> string) list \<Rightarrow> kv_store \<Rightarrow> kv_store" where
  \<comment> \<open>the items in the order of the loop\<close>
  "BatchSetLocal items kv = fold (\<lambda>(key, value). write_entry key old_flags value) items kv"

definition BatchDeleteLocal :: "string list \<Rightarrow> kv_store \<Rightarrow> kv_store" where
  "BatchDeleteLocal keys kv = fold DeleteLocal keys kv"

definition expected_of :: "(string \<rightharpoonup> 64 word) \<Rightarrow> string \<Rightarrow> 64 word" where
  \<comment> \<open>a Go map gives zero for a missing key\<close>
  "expected_of expectedIndices key = (case expectedIndices key of None \<Rightarrow> 0 | Some i \<Rightarrow> i)"

fun first_error :: "('a \<Rightarrow> store_error option) \<Rightarrow> 'a list \<Rightarrow> store_error option" where
  "first_error check [] = None"
| "first_error check (x # xs) = (case check x of Some err \<Rightarrow> Some err | None \<Rightarrow> first_error check xs)"

fun set_all :: "(string \<times> string) list \<Rightarrow> (string \<rightharpoonup> 64 word) \<Rightarrow> kv_store \<Rightarrow> (string \<rightharpoonup> 64 word) \<times> kv_store" where
  \<comment> \<open>the second pass, with the new indices so far\<close>
  "set_all [] newIndices kv = (newIndices, kv)"
| "set_all ((key, value) # items) newIndices kv =
     set_all items (newIndices(key \<mapsto> ks_index kv + 1)) (write_entry key old_flags value kv)"

definition BatchSetCASLocal ::
  "(string \<times> string) list \<Rightarrow> (string \<times> string) list \<Rightarrow> (string \<rightharpoonup> 64 word) \<Rightarrow> kv_store
     \<Rightarrow> (store_error + (string \<rightharpoonup> 64 word)) \<times> kv_store" where
  \<comment> \<open>the items twice, in the order of each pass\<close>
  "BatchSetCASLocal items1 items2 expectedIndices kv =
     (case first_error (\<lambda>(key, _). check_set kv key (expected_of expectedIndices key)) items1 of
        Some err \<Rightarrow> (Inl err, kv)
      | None \<Rightarrow> (case set_all items2 Map.empty kv of (newIndices, kv') \<Rightarrow> (Inr newIndices, kv')))"

definition BatchDeleteCASLocal ::
  "string list \<Rightarrow> (string \<rightharpoonup> 64 word) \<Rightarrow> kv_store \<Rightarrow> (store_error + unit) \<times> kv_store" where
  "BatchDeleteCASLocal keys expectedIndices kv =
     (case first_error (\<lambda>key. check_delete kv key (expected_of expectedIndices key)) keys of
        Some err \<Rightarrow> (Inl err, kv)
      | None \<Rightarrow> (Inr (), fold DeleteLocal keys kv))"

section \<open>Commands\<close>

datatype command =
    KVSet string string
  | KVSetWithFlags string string "64 word"
  | KVSetCAS string string "64 word"
  | KVDelete string
  | KVDeleteCAS string "64 word"
  | KVBatchSet "(string \<times> string) list"
  | KVBatchSetCAS "(string \<times> string) list" "string \<rightharpoonup> 64 word"
  | KVBatchDelete "string list"
  | KVBatchDeleteCAS "string list" "string \<rightharpoonup> 64 word"
  | ServiceRegister service
  | ServiceRegisterCAS service "64 word"
  | ServiceDeregister string
  | ServiceDeregisterCAS string "64 word"
  | ServiceHeartbeat string

datatype apply_result =
    Applied
  | Not_Applied string
  | CAS_Index "64 word"
  | CAS_Indices "string \<rightharpoonup> 64 word"
  | CAS_Failed register_error

record host =
  ho_range :: "(string \<times> string) list \<Rightarrow> (string \<times> string) list"
  ho_again :: "(string \<times> string) list \<Rightarrow> (string \<times> string) list"
  ho_now :: int

record replica =
  rp_kv :: kv_store
  rp_services :: registry

definition on_kv :: "('r \<Rightarrow> apply_result) \<Rightarrow> (kv_store \<Rightarrow> 'r \<times> kv_store) \<Rightarrow> replica \<Rightarrow> apply_result \<times> replica" where
  "on_kv result f rp = (case f (rp_kv rp) of (r, kv') \<Rightarrow> (result r, rp\<lparr>rp_kv := kv'\<rparr>))"

definition on_services ::
  "('r \<Rightarrow> apply_result) \<Rightarrow> (registry \<Rightarrow> 'r \<times> registry) \<Rightarrow> replica \<Rightarrow> apply_result \<times> replica" where
  "on_services result f rp = (case f (rp_services rp) of (r, rg') \<Rightarrow> (result r, rp\<lparr>rp_services := rg'\<rparr>))"

definition cas_result :: "('v \<Rightarrow> apply_result) \<Rightarrow> store_error + 'v \<Rightarrow> apply_result" where
  "cas_result ok r = (case r of Inl err \<Rightarrow> CAS_Failed (Refused err) | Inr v \<Rightarrow> ok v)"

fun fsm_apply :: "host \<Rightarrow> command \<Rightarrow> replica \<Rightarrow> apply_result \<times> replica" where
  "fsm_apply h (KVSet k v) = on_kv (\<lambda>_. Applied) (\<lambda>kv. ((), SetLocal k v kv))"
| "fsm_apply h (KVSetWithFlags k v f) = on_kv (\<lambda>_. Applied) (\<lambda>kv. ((), SetWithFlagsLocal k v f kv))"
| "fsm_apply h (KVDelete k) = on_kv (\<lambda>_. Applied) (\<lambda>kv. ((), DeleteLocal k kv))"
| "fsm_apply h (KVBatchSet items) = on_kv (\<lambda>_. Applied) (\<lambda>kv. ((), BatchSetLocal (ho_range h items) kv))"
| "fsm_apply h (KVBatchDelete ks) = on_kv (\<lambda>_. Applied) (\<lambda>kv. ((), BatchDeleteLocal ks kv))"
| "fsm_apply h (KVSetCAS k v i) = on_kv (cas_result CAS_Index) (SetCASLocal k v i)"
| "fsm_apply h (KVDeleteCAS k i) = on_kv (cas_result (\<lambda>_. CAS_Index 0)) (DeleteCASLocal k i)"
| "fsm_apply h (KVBatchSetCAS items ix) =
     on_kv (cas_result CAS_Indices) (BatchSetCASLocal (ho_range h items) (ho_again h items) ix)"
| "fsm_apply h (KVBatchDeleteCAS ks ix) = on_kv (cas_result (\<lambda>_. CAS_Index 0)) (BatchDeleteCASLocal ks ix)"
| "fsm_apply h (ServiceRegister s) =
     on_services (\<lambda>r. case r of Inl err \<Rightarrow> Not_Applied err | Inr _ \<Rightarrow> Applied) (registry_register (ho_now h) s)"
| "fsm_apply h (ServiceDeregister n) = on_services (\<lambda>_. Applied) (\<lambda>rg. ((), registry_deregister n rg))"
| "fsm_apply h (ServiceHeartbeat n) = on_services (\<lambda>_. Applied) (registry_heartbeat (ho_now h) n)"
| "fsm_apply h (ServiceRegisterCAS s i) =
     on_services (\<lambda>r. case r of Inl err \<Rightarrow> CAS_Failed err | Inr n \<Rightarrow> CAS_Index n) (registry_register_cas (ho_now h) s i)"
| "fsm_apply h (ServiceDeregisterCAS n i) =
     on_services (cas_result (\<lambda>_. CAS_Index 0)) (registry_deregister_cas n i)"

fun run_log :: "(nat \<Rightarrow> host) \<Rightarrow> command list \<Rightarrow> replica \<Rightarrow> replica" where
  \<comment> \<open>a log, with what the host adds to each application\<close>
  "run_log hs [] rp = rp"
| "run_log hs (c # cs) rp = run_log (\<lambda>i. hs (Suc i)) cs (snd (fsm_apply (hs 0) c rp))"

definition host_ok :: "host \<Rightarrow> bool" where
  \<comment> \<open>a loop over a map visits each entry once\<close>
  "host_ok h \<longleftrightarrow> (\<forall>items. mset (ho_range h items) = mset items \<and> mset (ho_again h items) = mset items)"

fun command_wf :: "command \<Rightarrow> bool" where
  \<comment> \<open>a map has each key once\<close>
  "command_wf (KVBatchSet items) \<longleftrightarrow> distinct (map fst items)"
| "command_wf (KVBatchSetCAS items ix) \<longleftrightarrow> distinct (map fst items)"
| "command_wf _ \<longleftrightarrow> True"

section \<open>Snapshots\<close>

definition max_index :: "(string set \<Rightarrow> string list) \<Rightarrow> ('e \<Rightarrow> 64 word) \<Rightarrow> (string \<rightharpoonup> 'e) \<Rightarrow> 64 word" where
  "max_index order ix data =
     fold (\<lambda>key maxIndex. let i = ix (the (data key)) in if maxIndex < i then i else maxIndex) (order (dom data)) 0"

definition kv_restore :: "(string set \<Rightarrow> string list) \<Rightarrow> (string \<rightharpoonup> kv_entry) \<Rightarrow> kv_store" where
  "kv_restore order data = \<lparr>ks_data = data, ks_index = max_index order ke_modify data\<rparr>"

definition index_entry :: "(string \<rightharpoonup> service_entry) \<Rightarrow> string \<Rightarrow> registry \<Rightarrow> registry" where
  \<comment> \<open>one turn of the loop: the entry and its indexes\<close>
  "index_entry data name rg =
     (let e = the (data name) in
      rg\<lparr>rg_data := (rg_data rg)(name \<mapsto> e),
         rg_tags := addToTagIndex name (svc_tags (se_service e)) (rg_tags rg),
         rg_meta := addToMetaIndex name (svc_meta (se_service e)) (rg_meta rg)\<rparr>)"

definition registry_restore ::
  "(string set \<Rightarrow> string list) \<Rightarrow> (string \<rightharpoonup> service_entry) \<Rightarrow> registry \<Rightarrow> registry" where
  "registry_restore order data rg =
     (fold (index_entry data) (order (dom data))
        (rg\<lparr>rg_data := Map.empty, rg_tags := Map.empty, rg_meta := Map.empty\<rparr>))
       \<lparr>rg_index := max_index order se_modify data\<rparr>"

definition fsm_snapshot :: "replica \<Rightarrow> (string \<rightharpoonup> kv_entry) \<times> (string \<rightharpoonup> service_entry)" where
  "fsm_snapshot rp = (ks_data (rp_kv rp), rg_data (rp_services rp))"

definition fsm_restore ::
  "(string set \<Rightarrow> string list) \<Rightarrow> (string \<rightharpoonup> kv_entry) \<times> (string \<rightharpoonup> service_entry) \<Rightarrow> replica \<Rightarrow> replica" where
  "fsm_restore order snapshot rp =
     rp\<lparr>rp_kv := kv_restore order (fst snapshot), rp_services := registry_restore order (snd snapshot) (rp_services rp)\<rparr>"

section \<open>The operations against those of the standalone node\<close>

lemma local_operations:
  "SetLocal k v = kv_set k v" "SetWithFlagsLocal k v f = kv_set_with_flags k v f" "DeleteLocal k = kv_delete k"
  "SetCASLocal k v i = kv_set_cas k v i" "DeleteCASLocal k i = kv_delete_cas k i"
  by (rule ext; simp add: SetLocal_def SetWithFlagsLocal_def DeleteLocal_def SetCASLocal_def DeleteCASLocal_def
      check_set_def check_delete_def kv_set_def kv_set_with_flags_def kv_delete_def kv_set_cas_def kv_delete_cas_def
      split: option.split)+

section \<open>Replicas of one log\<close>

text \<open>
  The contract of a state machine that is replicated by its log: applying a command, on hosts of
  any choice, keeps what replicas are to agree on.
\<close>

locale replicated_log =
  fixes host_fine :: "'h \<Rightarrow> bool" and command_fine :: "'c \<Rightarrow> bool"
    and apply_one :: "'h \<Rightarrow> 'c \<Rightarrow> 's \<Rightarrow> 's" and run :: "(nat \<Rightarrow> 'h) \<Rightarrow> 'c list \<Rightarrow> 's \<Rightarrow> 's"
    and agree :: "'s \<Rightarrow> 's \<Rightarrow> bool"
  assumes agree_refl: "agree s s"
    and agree_step: "host_fine h \<Longrightarrow> host_fine h' \<Longrightarrow> command_fine c \<Longrightarrow> agree a b \<Longrightarrow>
      agree (apply_one h c a) (apply_one h' c b)"
    and run_Nil: "run hs [] s = s"
    and run_Cons: "run hs (c # cs) s = run (\<lambda>i. hs (Suc i)) cs (apply_one (hs 0) c s)"
begin

lemma run_relates:
  "\<forall>i. host_fine (hs i) \<Longrightarrow> \<forall>i. host_fine (hs' i) \<Longrightarrow> \<forall>c \<in> set cs. command_fine c \<Longrightarrow> agree a b \<Longrightarrow>
    agree (run hs cs a) (run hs' cs b)"
  by (induction cs arbitrary: hs hs' a b) (simp_all add: run_Nil run_Cons agree_step)

lemma replicas_relate:
  assumes "\<And>i. host_fine (hs i)" and "\<And>i. host_fine (hs' i)" and "\<forall>c \<in> set cs. command_fine c"
  shows "agree (run hs cs s) (run hs' cs s)"
  using run_relates assms agree_refl by blast

end

definition with_items :: "(string \<rightharpoonup> string) \<Rightarrow> (string \<times> string) list \<Rightarrow> string \<rightharpoonup> string" where
  "with_items m items = m ++ map_of items"

lemma get_write: "kv_get (write_entry k f v kv) = (kv_get kv)(k \<mapsto> v)"
  by (rule ext) (simp add: kv_get_def write_entry_def Let_def)

lemma get_delete: "kv_get (DeleteLocal k kv) = (kv_get kv)(k := None)"
  by (rule ext) (simp add: kv_get_def DeleteLocal_def)

lemma get_deletes: "kv_get (fold DeleteLocal ks kv) = kv_get kv |` (- set ks)"
  by (induction ks arbitrary: kv) (auto simp: get_delete restrict_map_def fun_eq_iff)

lemma get_batch:
  "distinct (map fst items) \<Longrightarrow> kv_get (BatchSetLocal items kv) = with_items (kv_get kv) items"
proof (induction items arbitrary: kv)
  case (Cons kvp items)
  obtain k v where kvp: "kvp = (k, v)" by force
  with Cons show ?case
    by (auto simp: BatchSetLocal_def with_items_def get_write map_add_def fun_eq_iff
        dest: map_of_SomeD split: option.split intro: rev_image_eqI)
qed (simp add: BatchSetLocal_def with_items_def)

lemma map_of_permuted:
  assumes "mset xs = mset ys" and "distinct (map fst ys)"
  shows "distinct (map fst xs)" and "map_of xs = map_of ys"
proof -
  have "mset (map fst xs) = mset (map fst ys)" using assms(1) by (metis mset_map)
  then show d: "distinct (map fst xs)" using assms(2) mset_eq_imp_distinct_iff by blast
  show "map_of xs = map_of ys"
    using d assms mset_eq_setD [OF assms(1)] by (simp add: map_of_inject_set)
qed

lemma get_batch_range:
  assumes "host_ok h" and "distinct (map fst items)"
  shows "kv_get (BatchSetLocal (ho_range h items) kv) = with_items (kv_get kv) items"
  using assms map_of_permuted [of "ho_range h items" items]
  by (simp add: get_batch host_ok_def) (simp add: with_items_def)

lemma permuted_single: "mset xs = mset ys \<Longrightarrow> length ys \<le> 1 \<Longrightarrow> xs = ys"
  by (cases ys) auto

lemma range_single: "host_ok h \<Longrightarrow> length items \<le> 1 \<Longrightarrow> ho_range h items = items \<and> ho_again h items = items"
  using permuted_single by (auto simp: host_ok_def)

fun compares :: "command \<Rightarrow> bool" where
  \<comment> \<open>compare-and-swap on keys\<close>
  "compares (KVSetCAS k v i) \<longleftrightarrow> True"
| "compares (KVDeleteCAS k i) \<longleftrightarrow> True"
| "compares (KVBatchSetCAS items ix) \<longleftrightarrow> True"
| "compares (KVBatchDeleteCAS ks ix) \<longleftrightarrow> True"
| "compares _ \<longleftrightarrow> False"

fun batch_size :: "command \<Rightarrow> nat" where
  \<comment> \<open>how many keys a command sets\<close>
  "batch_size (KVBatchSet items) = length items"
| "batch_size (KVBatchSetCAS items ix) = length items"
| "batch_size _ = 1"

lemma apply_values:
  assumes "host_ok h" "host_ok h'" "command_wf c" "\<not> compares c" "kv_get (rp_kv a) = kv_get (rp_kv b)"
  shows "kv_get (rp_kv (snd (fsm_apply h c a))) = kv_get (rp_kv (snd (fsm_apply h' c b)))"
  using assms
  by (cases c) (simp_all add: on_kv_def on_services_def SetLocal_def SetWithFlagsLocal_def get_write get_delete
      BatchDeleteLocal_def get_deletes get_batch_range split: prod.split)

lemma apply_same_kv:
  assumes "host_ok h" "host_ok h'" "batch_size c \<le> 1" "rp_kv a = rp_kv b"
  shows "rp_kv (snd (fsm_apply h c a)) = rp_kv (snd (fsm_apply h' c b))"
  using assms range_single by (cases c) (simp_all add: on_kv_def on_services_def split: prod.split)

definition timeless :: "registry \<Rightarrow> string \<Rightarrow> (service \<times> 64 word \<times> 64 word) option" where
  \<comment> \<open>an entry but for its time to live\<close>
  "timeless rg n = map_option (\<lambda>e. (se_service e, se_modify e, se_create e)) (rg_data rg n)"

definition same_services :: "registry \<Rightarrow> registry \<Rightarrow> bool" where
  "same_services a b \<longleftrightarrow> rg_index a = rg_index b \<and> timeless a = timeless b"

lemma timeless_cases:
  assumes "timeless a = timeless b"
  shows "(rg_data a n = None \<and> rg_data b n = None) \<or>
    (\<exists>e e'. rg_data a n = Some e \<and> rg_data b n = Some e' \<and> se_service e = se_service e'
       \<and> se_modify e = se_modify e' \<and> se_create e = se_create e')"
  using fun_cong [OF assms, of n] by (cases "rg_data a n"; cases "rg_data b n") (auto simp: timeless_def)

lemma same_put:
  assumes "same_services a b"
  shows "same_services (put_service now s a) (put_service now' s b)"
  using assms timeless_cases [of a b "svc_name s"]
  by (auto simp: same_services_def put_service_def Let_def timeless_def fun_eq_iff)

lemma same_drop: "same_services a b \<Longrightarrow> same_services (drop_service n a) (drop_service n b)"
  by (auto simp: same_services_def drop_service_def timeless_def fun_eq_iff)

lemma same_heartbeat:
  assumes "same_services a b"
  shows "same_services (snd (registry_heartbeat now n a)) (snd (registry_heartbeat now' n b))"
  using assms timeless_cases [of a b n]
  by (auto simp: same_services_def registry_heartbeat_def timeless_def fun_eq_iff)

lemma apply_services:
  assumes "same_services (rp_services a) (rp_services b)"
  shows "same_services (rp_services (snd (fsm_apply h c a))) (rp_services (snd (fsm_apply h' c b)))"
proof -
  have t: "timeless (rp_services a) = timeless (rp_services b)" using assms by (simp add: same_services_def)
  show ?thesis
  proof (cases c)
    case (ServiceRegisterCAS s i)
    then show ?thesis
      using assms timeless_cases [OF t, of "svc_name s"]
      by (auto simp: on_services_def registry_register_cas_def Let_def same_put split: option.split)
  next
    case (ServiceDeregisterCAS n i)
    then show ?thesis
      using assms timeless_cases [OF t, of n]
      by (auto simp: on_services_def registry_deregister_cas_def same_drop)
  next
    case (ServiceHeartbeat n)
    then show ?thesis using same_heartbeat [OF assms] by (simp add: on_services_def split: prod.split) (metis snd_conv)
  qed (use assms in \<open>simp_all add: on_kv_def on_services_def registry_register_def registry_deregister_def same_put
      same_drop split: prod.split option.split\<close>)
qed

interpretation services: replicated_log host_ok "\<lambda>_. True" "\<lambda>h c rp. snd (fsm_apply h c rp)" run_log
    "\<lambda>a b. same_services (rp_services a) (rp_services b)"
  by unfold_locales (blast intro: apply_services | simp add: same_services_def)+

interpretation key_values: replicated_log host_ok "\<lambda>c. command_wf c \<and> \<not> compares c" "\<lambda>h c rp. snd (fsm_apply h c rp)" run_log
    "\<lambda>a b. kv_get (rp_kv a) = kv_get (rp_kv b)"
  by unfold_locales (blast intro: apply_values | simp)+

interpretation versions: replicated_log host_ok "\<lambda>c. batch_size c \<le> 1" "\<lambda>h c rp. snd (fsm_apply h c rp)" run_log
    "\<lambda>a b. rp_kv a = rp_kv b"
  by unfold_locales (blast intro: apply_same_kv | simp)+


definition forwards :: "nat \<Rightarrow> host" where
  "forwards i = \<lparr>ho_range = (\<lambda>items. items), ho_again = (\<lambda>items. items), ho_now = 0\<rparr>"

definition backwards :: "nat \<Rightarrow> host" where
  "backwards i = \<lparr>ho_range = rev, ho_again = rev, ho_now = 0\<rparr>"

lemma hosts_ok [simp]: "host_ok (forwards i)" "host_ok (backwards i)"
  by (simp_all add: host_ok_def forwards_def backwards_def)


text \<open>
  C34: A batch that sets two keys gives them their versions in the order of a loop over a map, which
  each replica draws for itself. One that visits the first key first then carries out a
  compare-and-swap of that key which another one, of the opposite order, refuses: the same log
  leaves different values.
\<close>

theorem batch_splits_replicas:
  assumes "k \<noteq> k'" and "ks_index (rp_kv rp) \<noteq> - 1"
  shows "let log = [KVBatchSet [(k, v), (k', v')], KVSetCAS k w (ks_index (rp_kv rp) + 1)] in
    host_ok (forwards i) \<and> host_ok (backwards i) \<and> (\<forall>c \<in> set log. command_wf c)
    \<and> kv_get (rp_kv (run_log forwards log rp)) k = Some w
    \<and> kv_get (rp_kv (run_log backwards log rp)) k = Some v"
proof -
  have "ks_index (rp_kv rp) + 1 \<noteq> 0" using assms(2) by (metis add.inverse_unique add.commute)
  then show ?thesis
    using assms(1) by (simp add: Let_def on_kv_def BatchSetLocal_def SetCASLocal_def check_set_def write_entry_def
        forwards_def backwards_def host_ok_def kv_get_def split: prod.split)
qed

theorem batch_splits_replicas_witness:
  "kv_get (rp_kv (run_log backwards [KVBatchSet [(''a'', ''1''), (''b'', ''2'')], KVSetCAS ''a'' ''3'' 1]
      \<lparr>rp_kv = kv_new, rp_services = NewServiceStoreWithTTL 1\<rparr>)) ''a'' = Some ''1''"
  using batch_splits_replicas [of "''a''" "''b''" "\<lparr>rp_kv = kv_new, rp_services = NewServiceStoreWithTTL 1\<rparr>"
      "''1''" "''2''" "''3''" 0]
  by (simp add: Let_def kv_new_def)

section \<open>What a snapshot keeps\<close>

lemma max_index_Max: "max_index order ix data = Max (insert 0 ((\<lambda>k. ix (the (data k))) ` set (order (dom data))))"
proof -
  have "max_index order ix data = fold (\<lambda>k. max (ix (the (data k)))) (order (dom data)) 0"
    unfolding max_index_def by (rule fold_cong) (auto simp: Let_def max_def fun_eq_iff)
  also have "\<dots> = fold max (map (\<lambda>k. ix (the (data k))) (order (dom data))) 0" by (simp add: fold_map comp_def)
  also have "\<dots> = Max (set (0 # map (\<lambda>k. ix (the (data k))) (order (dom data))))" by (simp only: Max.set_eq_fold)
  finally show ?thesis by simp
qed

definition newest_kept :: "kv_store \<Rightarrow> bool" where
  \<comment> \<open>the entry written last is still there, or none was written\<close>
  "newest_kept kv \<longleftrightarrow> ks_index kv = 0 \<or> (\<exists>k e. ks_data kv k = Some e \<and> ke_modify e = ks_index kv)"

lemma restored_index:
  assumes "indices_ok kv" and "order_ok order"
  shows "ks_index (kv_restore order (ks_data kv)) \<le> ks_index kv"
    and "ks_index (kv_restore order (ks_data kv)) = ks_index kv \<longleftrightarrow> newest_kept kv"
    and "ks_data kv k = Some e \<Longrightarrow> ke_modify e \<le> ks_index (kv_restore order (ks_data kv))"
proof -
  let ?M = "(\<lambda>k. ke_modify (the (ks_data kv k))) ` dom (ks_data kv)"
  have i: "ks_index (kv_restore order (ks_data kv)) = Max (insert 0 ?M)" and fin: "finite ?M"
    using assms by (simp_all add: kv_restore_def max_index_Max order_set indices_ok_def)
  have le: "\<forall>m \<in> insert 0 ?M. m \<le> ks_index kv" using assms(1) by (auto simp: indices_ok_def)
  then show "ks_index (kv_restore order (ks_data kv)) \<le> ks_index kv" using fin by (simp add: i)
  have "Max (insert 0 ?M) = ks_index kv \<longleftrightarrow> ks_index kv \<in> insert 0 ?M"
    using le fin by (metis Max_in Max_eqI finite_insert insert_not_empty)
  also have "\<dots> \<longleftrightarrow> newest_kept kv" by (force simp: newest_kept_def)
  finally show "ks_index (kv_restore order (ks_data kv)) = ks_index kv \<longleftrightarrow> newest_kept kv" by (simp add: i)
  show "ks_data kv k = Some e \<Longrightarrow> ke_modify e \<le> ks_index (kv_restore order (ks_data kv))"
    unfolding i using fin by (intro Max_ge) (auto intro!: image_eqI [of _ _ k])
qed

lemma kv_restore_ok: "indices_ok kv \<Longrightarrow> order_ok order \<Longrightarrow> indices_ok (kv_restore order (ks_data kv))"
  using restored_index(3) [of kv order] by (auto simp: indices_ok_def kv_restore_def)

lemma index_entry_ok:
  assumes "registry_ok rg" and "rg_data rg n = None" and "data n = Some e" and "svc_name (se_service e) = n"
    and "ValidateService (se_service e) = None" and "service_wf (se_service e)"
  shows "registry_ok (index_entry data n rg)"
proof -
  let ?rg = "index_entry data n rg"
  have "tag_table ?rg = (tag_table rg)(n \<mapsto> svc_tags (se_service e))"
    "meta_table ?rg = (meta_table rg)(n \<mapsto> svc_meta (se_service e))"
    "tag_table rg n = None" "meta_table rg n = None"
    using assms(2,3) by (auto simp: tag_table_def meta_table_def index_entry_def)
  moreover have "distinct (svc_meta (se_service e))" using assms(6) by (simp add: service_wf_def distinct_map)
  ultimately have "index_agrees tag_tidy tag_members (rg_tags ?rg) (tag_table ?rg)"
    "index_agrees meta_tidy meta_members (rg_meta ?rg) (meta_table ?rg)"
    using assms(1,3) tags.agrees_add [OF _ _ valid_tags_distinct [OF assms(5)], of "rg_tags rg" "tag_table rg" n]
      metas.agrees_add [of "rg_meta rg" "meta_table rg" n "svc_meta (se_service e)"]
    by (simp_all add: index_entry_def Let_def registry_ok_def)
  with assms show ?thesis by (auto simp: registry_ok_def index_entry_def Let_def)
qed

definition entries_ok :: "(string \<rightharpoonup> service_entry) \<Rightarrow> bool" where
  "entries_ok data \<longleftrightarrow> (\<forall>n e. data n = Some e \<longrightarrow>
     svc_name (se_service e) = n \<and> ValidateService (se_service e) = None \<and> service_wf (se_service e))"

lemma index_entries:
  assumes "entries_ok data"
  shows "registry_ok rg \<Longrightarrow> distinct names \<Longrightarrow> \<forall>n \<in> set names. rg_data rg n = None \<and> n \<in> dom data \<Longrightarrow>
    registry_ok (fold (index_entry data) names rg)
    \<and> rg_data (fold (index_entry data) names rg) = rg_data rg ++ (data |` set names)"
proof (induction names arbitrary: rg)
  case (Cons n names)
  then obtain e where e: "data n = Some e" by auto
  have "registry_ok (index_entry data n rg)"
    using Cons.prems e assms by (intro index_entry_ok [of _ _ _ e]) (auto simp: entries_ok_def)
  moreover have "\<forall>m \<in> set names. rg_data (index_entry data n rg) m = None \<and> m \<in> dom data"
    using Cons.prems by (auto simp: index_entry_def Let_def)
  ultimately show ?case
    using Cons.IH [of "index_entry data n rg"] Cons.prems e
    by (auto simp: index_entry_def Let_def restrict_map_def map_add_def fun_eq_iff split: option.split)
qed (auto simp: map_add_def restrict_map_def)

lemma registry_ok_index: "registry_ok (rg\<lparr>rg_index := i\<rparr>) \<longleftrightarrow> registry_ok rg"
proof -
  have "tag_table (rg\<lparr>rg_index := i\<rparr>) = tag_table rg" "meta_table (rg\<lparr>rg_index := i\<rparr>) = meta_table rg"
    by (auto simp: tag_table_def meta_table_def)
  then show ?thesis by (simp add: registry_ok_def)
qed

lemma registry_restored:
  assumes "registry_ok rg" and "order_ok order"
  shows "registry_ok (registry_restore order (rg_data rg) rg0)"
    and "rg_data (registry_restore order (rg_data rg) rg0) = rg_data rg"
proof -
  let ?empty = "rg0\<lparr>rg_data := Map.empty, rg_tags := Map.empty, rg_meta := Map.empty\<rparr>"
  let ?names = "order (dom (rg_data rg))"
  have fin: "finite (dom (rg_data rg))" using assms(1) by (simp add: registry_ok_def)
  have n: "set ?names = dom (rg_data rg)" "distinct ?names" using assms(2) fin by (auto simp: order_ok_def)
  have "(NewServiceStoreWithTTL (rg_ttl rg0))\<lparr>rg_index := rg_index rg0\<rparr> = ?empty"
    by (simp add: NewServiceStoreWithTTL_def)
  then have "registry_ok ?empty" using registry.inv_init registry_ok_index by metis
  moreover have "entries_ok (rg_data rg)" using assms(1) by (simp add: entries_ok_def registry_ok_def)
  ultimately have f: "registry_ok (fold (index_entry (rg_data rg)) ?names ?empty)
    \<and> rg_data (fold (index_entry (rg_data rg)) ?names ?empty) = rg_data rg |` dom (rg_data rg)"
    using index_entries [of "rg_data rg" ?empty ?names] n by (simp add: n(1))
  have all: "m |` dom m = m" for m :: "string \<rightharpoonup> service_entry" by (rule ext) (simp add: restrict_map_def domIff)
  show "registry_ok (registry_restore order (rg_data rg) rg0)"
    using f by (simp add: registry_restore_def registry_ok_index)
  show "rg_data (registry_restore order (rg_data rg) rg0) = rg_data rg"
    using f all by (simp add: registry_restore_def)
qed

lemma queries_by_data:
  assumes "registry_ok a" and "registry_ok b" and "rg_data a = rg_data b" and "distinct (map fst kvs)"
  shows "QueryByTagsAndMetadata order now ts kvs a = QueryByTagsAndMetadata order now ts kvs b"
proof -
  have l: "registry_list o' now a = registry_list o' now b" for o'
    using assms(3) by (simp add: registry_list_def live_services_def)
  show ?thesis
  proof (cases "ts = [] \<and> kvs = []")
    case False
    then show ?thesis using queries_search [OF assms(1,4)] queries_search [OF assms(2,4)] l by (simp add: by_name_def)
  qed (simp add: QueryByTagsAndMetadata_def l)
qed

text \<open>
  C8: Restoring the snapshot of a replica on any other keeps every key with its versions and every
  service, rebuilds the two indexes of the services, so that every query is answered as before, and
  leaves a counter that no entry is ahead of. The counter itself is the old one only if the entry
  written last has not been deleted; otherwise it goes back.
\<close>

theorem snapshot_keeps:
  assumes "indices_ok (rp_kv rp)" and "registry_ok (rp_services rp)" and "order_ok order"
    and "distinct (map fst kvs)"
  shows "\<exists>rp'. fsm_restore order (fsm_snapshot rp) rp0 = rp'
    \<and> kv_get_entry (rp_kv rp') = kv_get_entry (rp_kv rp) \<and> indices_ok (rp_kv rp')
    \<and> registry_ok (rp_services rp') \<and> registry_get now n (rp_services rp') = registry_get now n (rp_services rp)
    \<and> QueryByTagsAndMetadata order now ts kvs (rp_services rp') = QueryByTagsAndMetadata order now ts kvs (rp_services rp)
    \<and> (if newest_kept (rp_kv rp) then ks_index (rp_kv rp') = ks_index (rp_kv rp)
       else ks_index (rp_kv rp') < ks_index (rp_kv rp))"
proof -
  let ?rp = "fsm_restore order (fsm_snapshot rp) rp0"
  have kv: "rp_kv ?rp = kv_restore order (ks_data (rp_kv rp))"
    and rg: "rp_services ?rp = registry_restore order (rg_data (rp_services rp)) (rp_services rp0)"
    by (simp_all add: fsm_restore_def fsm_snapshot_def)
  have "kv_get_entry (rp_kv ?rp) = kv_get_entry (rp_kv rp)" by (rule ext) (simp add: kv kv_get_entry_def kv_restore_def)
  moreover have "indices_ok (rp_kv ?rp)" by (simp add: kv kv_restore_ok assms)
  moreover note r = registry_restored [OF assms(2,3), of "rp_services rp0", folded rg]
  moreover have "registry_get now n (rp_services ?rp) = registry_get now n (rp_services rp)"
    using r(2) by (simp add: registry_get_def registry_get_entry_def)
  moreover have "QueryByTagsAndMetadata order now ts kvs (rp_services ?rp) = QueryByTagsAndMetadata order now ts kvs (rp_services rp)"
    by (rule queries_by_data [OF r(1) assms(2) r(2) assms(4)])
  moreover have "if newest_kept (rp_kv rp) then ks_index (rp_kv ?rp) = ks_index (rp_kv rp)
      else ks_index (rp_kv ?rp) < ks_index (rp_kv rp)"
    using restored_index(1,2) [OF assms(1,3)] by (auto simp: kv order.strict_iff_order)
  ultimately show ?thesis by blast
qed

lemma new_replica_ok:
  "indices_ok kv_new" "registry_ok (NewServiceStoreWithTTL ttl)" "newest_kept kv_new"
  by (auto simp: indices_ok_def newest_kept_def kv_new_def intro!: registry.inv_init)

theorem snapshot_keeps_witness:
  "let rp = \<lparr>rp_kv = kv_delete ''a'' (kv_set ''a'' ''1'' kv_new), rp_services = NewServiceStoreWithTTL 1\<rparr>
   in ks_index (rp_kv (fsm_restore sorted_list_of_set (fsm_snapshot rp) rp)) < ks_index (rp_kv rp)"
proof -
  let ?rp = "\<lparr>rp_kv = kv_delete ''a'' (kv_set ''a'' ''1'' kv_new), rp_services = NewServiceStoreWithTTL 1\<rparr>"
  have "indices_ok (rp_kv ?rp)"
    using write_entry_indices [OF new_replica_ok(1)] by (simp add: kv_delete_indices kv_set_def) (simp add: kv_new_def kv_delete_indices)
  moreover have "\<not> newest_kept (rp_kv ?rp)"
    by (auto simp: newest_kept_def kv_delete_def kv_set_def write_entry_def kv_new_def Let_def)
  moreover have "order_ok sorted_list_of_set" by (simp add: order_ok_def)
  ultimately show ?thesis
    using snapshot_keeps [of ?rp sorted_list_of_set "[]" ?rp 0 "''x''" "[]"] by (auto simp: Let_def new_replica_ok)
qed

text \<open>
  C37: When a key is written, deleted and, before anything else is written, a replica is restored
  from a snapshot, the version of the deleted value is given out again: a compare-and-swap that
  still expects it replaces the next value of the key there, and is refused on the replicas that
  applied the log. The same log leaves different values.
\<close>

theorem snapshot_reuses_version:
  assumes "indices_ok (rp_kv rp)" and "newest_kept (rp_kv rp)" and "kv_get_entry (rp_kv rp) k = None"
    and "order_ok order" and "unat (ks_index (rp_kv rp)) + 2 < 2 ^ 64"
  shows "let n = ks_index (rp_kv rp) + 1;
      before = [KVSet k u, KVDelete k];
      after = [KVSet k v, KVSetCAS k w n];
      snapshot = fsm_snapshot (run_log hs before rp)
    in kv_get (rp_kv (run_log hs1 (before @ after) rp)) k = Some v
      \<and> kv_get (rp_kv (run_log hs2 after (fsm_restore order snapshot rp0))) k = Some w"
proof -
  let ?i = "ks_index (rp_kv rp)"
  have top: "?i \<noteq> - 1" using assms(5) by (intro no_wrap) simp
  have "(ks_data (rp_kv rp))(k := None) = ks_data (rp_kv rp)" using assms(3) by (auto simp: kv_get_entry_def)
  moreover have "max_index order ke_modify (ks_data (rp_kv rp)) = ?i"
    using restored_index(2) [OF assms(1,4)] assms(2) by (simp add: kv_restore_def)
  moreover have "?i + 1 \<noteq> 0" using top by (metis add.inverse_unique add.commute)
  moreover have "?i + 1 + 1 \<noteq> ?i + 1" by simp
  ultimately show ?thesis
    by (simp add: Let_def on_kv_def SetLocal_def DeleteLocal_def SetCASLocal_def check_set_def write_entry_def
        fsm_restore_def fsm_snapshot_def kv_restore_def kv_get_def split: prod.split)
qed

theorem snapshot_reuses_version_witness:
  "kv_get (rp_kv (run_log forwards [KVSet ''a'' ''2'', KVSetCAS ''a'' ''3'' 1]
      (fsm_restore sorted_list_of_set
        (fsm_snapshot (run_log forwards [KVSet ''a'' ''1'', KVDelete ''a''] \<lparr>rp_kv = kv_new, rp_services = NewServiceStoreWithTTL 1\<rparr>))
        \<lparr>rp_kv = kv_new, rp_services = NewServiceStoreWithTTL 1\<rparr>))) ''a'' = Some ''3''"
proof -
  let ?rp = "\<lparr>rp_kv = kv_new, rp_services = NewServiceStoreWithTTL 1\<rparr>"
  have "order_ok sorted_list_of_set" by (simp add: order_ok_def)
  moreover have "kv_get_entry kv_new ''a'' = None" "ks_index kv_new = 0" by (simp_all add: kv_get_entry_def kv_new_def)
  ultimately show ?thesis
    using snapshot_reuses_version [of ?rp "''a''" sorted_list_of_set "''1''" "''2''" "''3''" forwards forwards forwards ?rp]
    by (simp add: Let_def new_replica_ok)
qed

end
