(* ===== verification/Live_Pages.thy ===== *)
theory Live_Pages
  imports Live Status_Pages
begin

text \<open>
  The live connection together with the pages that listen to it (contexts/WebSocketContext.tsx,
  the effects of pages/Dashboard.tsx, Services.tsx, KVStore.tsx and Health.tsx). The connection
  knows a callback by its number; \<open>kind\<close> says which of the pages' callbacks a number is, and what
  was delivered (\<open>lv_log\<close>) is turned into what it does to the queries the pages show. Answers of
  the queries themselves are not interleaved here.
\<close>

section \<open>What the pages subscribe\<close>

record live_context =
  lc_isConnected :: bool
  lc_subscribeToKV :: "nat \<Rightarrow> live \<Rightarrow> live \<times> (live \<Rightarrow> live)"
  lc_subscribeToServices :: "nat \<Rightarrow> live \<Rightarrow> live \<times> (live \<Rightarrow> live)"
  lc_subscribeToHealth :: "nat \<Rightarrow> live \<Rightarrow> live \<times> (live \<Rightarrow> live)"

definition subscribing :: "channel \<Rightarrow> nat \<Rightarrow> live \<Rightarrow> live \<times> (live \<Rightarrow> live)" where
  \<comment> \<open>subscribing hands back the function that unsubscribes\<close>
  "subscribing ch cb s = (subscribe ch cb s, unsubscribe ch cb)"

definition live_context_value :: "live \<Rightarrow> live_context" where
  "live_context_value s = \<lparr>lc_isConnected = lv_connected s, lc_subscribeToKV = subscribing KV,
     lc_subscribeToServices = subscribing Services, lc_subscribeToHealth = subscribing Health\<rparr>"

datatype page_callback = Dashboard_Services | Dashboard_KV | Dashboard_Health | Services_Event | KV_Event | Health_Event

definition dashboard_effect :: "live_context \<Rightarrow> nat \<Rightarrow> nat \<Rightarrow> nat \<Rightarrow> live \<Rightarrow> live \<times> (live \<Rightarrow> live)" where
  \<comment> \<open>the effect of the dashboard, with the numbers of its three callbacks, and its cleanup\<close>
  "dashboard_effect ctx a b c s =
     (let (s1, unsubServices) = lc_subscribeToServices ctx a s;
          (s2, unsubKV) = lc_subscribeToKV ctx b s1;
          (s3, unsubHealth) = lc_subscribeToHealth ctx c s2
      in (s3, unsubHealth \<circ> unsubKV \<circ> unsubServices))"

definition services_effect :: "live_context \<Rightarrow> nat \<Rightarrow> live \<Rightarrow> live \<times> (live \<Rightarrow> live)" where
  "services_effect ctx a s = lc_subscribeToServices ctx a s"

definition kv_effect :: "live_context \<Rightarrow> nat \<Rightarrow> live \<Rightarrow> live \<times> (live \<Rightarrow> live)" where
  "kv_effect ctx a s = lc_subscribeToKV ctx a s"

definition health_effect :: "live_context \<Rightarrow> nat \<Rightarrow> live \<Rightarrow> live \<times> (live \<Rightarrow> live)" where
  "health_effect ctx a s = lc_subscribeToHealth ctx a s"

section \<open>What a delivery does\<close>

definition on_kv_page_event :: "jsval \<Rightarrow> queries \<Rightarrow> queries js" where
  "on_kv_page_event event q = return (invalidate ''kv-all'' q)"

fun run_callback :: "page_callback \<Rightarrow> jsval \<Rightarrow> queries \<Rightarrow> queries js" where
  "run_callback Dashboard_Services = on_service_event"
| "run_callback Services_Event = on_service_event"
| "run_callback Dashboard_KV = on_kv_event"
| "run_callback KV_Event = on_kv_page_event"
| "run_callback Dashboard_Health = on_health_event"
| "run_callback Health_Event = on_health_event"

definition callback_throws :: "(nat \<Rightarrow> page_callback) \<Rightarrow> nat \<Rightarrow> jsval \<Rightarrow> bool" where
  \<comment> \<open>only reading \<open>event.data\<close> can throw\<close>
  "callback_throws kind cb event \<longleftrightarrow> kind cb \<in> {Dashboard_Health, Health_Event} \<and> event \<in> {JUndef, JNull}"

fun receive :: "(nat \<Rightarrow> page_callback) \<Rightarrow> (nat \<times> jsval) list \<Rightarrow> queries \<Rightarrow> queries" where
  "receive kind [] q = q"
| "receive kind ((cb, event) # log) q =
     receive kind log (case run_callback (kind cb) event q of Inl e \<Rightarrow> q | Inr q' \<Rightarrow> q')"

definition delivered :: "live_env \<Rightarrow> nat \<Rightarrow> string \<Rightarrow> live \<Rightarrow> (nat \<times> jsval) list" where
  \<comment> \<open>what one message adds to the log\<close>
  "delivered env i data s = drop (length (lv_log s)) (lv_log (on_message env i data s))"

section \<open>Lemmas\<close>

lemma throws_iff: "callback_throws kind cb event \<longleftrightarrow> crashes (run_callback (kind cb) event q)"
  by (cases "kind cb") (auto simp: callback_throws_def on_service_event_def on_kv_event_def on_kv_page_event_def
      on_health_event_def crashes_def [of "get_prop _ _"] get_prop_throws_iff)

lemma subs_add_delete: "cb \<notin> set (ss_members S) \<Longrightarrow> ss_members (subs_delete cb (subs_add cb S)) = ss_members S"
  by (auto simp: subs_add_def subs_delete_def filter_id_conv)

text \<open>Leaving the dashboard takes its callbacks back, whoever else subscribed before it.\<close>

lemma dashboard_cleanup:
  assumes "a \<notin> set (ss_members (lv_services s))" and "b \<notin> set (ss_members (lv_kv s))"
    and "c \<notin> set (ss_members (lv_health s))" and "dashboard_effect (live_context_value s0) a b c s = (s', leave)"
  shows "ss_members (lv_services (leave s')) = ss_members (lv_services s)
    \<and> ss_members (lv_kv (leave s')) = ss_members (lv_kv s) \<and> ss_members (lv_health (leave s')) = ss_members (lv_health s)"
  using assms by (auto simp: dashboard_effect_def live_context_value_def subscribing_def subs_add_delete)

lemma deliver_all: "\<forall>cb \<in> set cbs. \<not> throws cb e \<Longrightarrow> deliver throws cbs e = map (\<lambda>cb. (cb, e)) cbs"
  by (induction cbs) auto

lemma delivered_message:
  assumes "JSON_parse (JStr data) = Inr message" and "get_prop message ''channel'' = Inr (JStr (channel_name ch))"
    and "get_prop message ''data'' = Inr e"
  shows "delivered env i data s = deliver (le_throws env) (captured (sk_closure (lv_sockets s ! i)) ch) e"
  by (simp add: delivered_def on_message_def assms)

lemma receive_health:
  assumes "\<forall>cb \<in> set cbs. kind cb \<in> {Dashboard_Health, Health_Event}" and "e \<notin> {JUndef, JNull}"
    and "cbs \<noteq> []" and "opt_prop e ''data'' \<noteq> JUndef"
  shows "receive kind (map (\<lambda>cb. (cb, e)) cbs) q = q\<lparr>qs_health := opt_prop e ''data''\<rparr>"
proof -
  have run: "run_callback (kind cb) e q = Inr (q\<lparr>qs_health := opt_prop e ''data''\<rparr>)" if "cb \<in> set cbs" for cb q
    using that assms(1,2,4) by (auto simp: on_health_event_def get_prop_ok set_health_def)
  show ?thesis using assms(3) run
    by (induction cbs arbitrary: q rule: list_nonempty_induct) auto
qed

definition undeclared :: "jsval \<Rightarrow> bool" where
  \<comment> \<open>without the members of a health answer that a health event is not declared to have\<close>
  "undeclared d \<longleftrightarrow> opt_prop d ''version'' = JUndef \<and> opt_prop d ''kv'' = JUndef
     \<and> opt_prop d ''system'' = JUndef \<and> opt_prop d ''timestamp'' = JUndef"

lemma health_update_ok: "is_health_update d \<Longrightarrow> undeclared d \<Longrightarrow> health_ok d"
  by (auto simp: is_health_update_def undeclared_def health_ok_def opt_prop_undef system_ok_def typed_parts is_string_iff)

lemma reduced_texts:
  assumes "undeclared d" and "truthy d" and "\<not> crashes (health_view date_text percent d False)"
  shows "{''No system metrics available'', ''N/A'', date_text JUndef} \<subseteq> set (view_texts (health_view date_text percent d False))"
proof -
  have m: "\<not> crashes (system_metrics d False)" and g: "\<not> crashes (general_information date_text d False)"
    using assms(3) by (simp_all add: health_view_def)
  have "''No system metrics available'' \<in> set (view_texts (system_metrics d False))"
    using m assms(1) by (simp add: system_metrics_def undeclared_def Let_def view_texts_children)
  moreover have "{''N/A'', date_text JUndef} \<subseteq> set (view_texts (general_information date_text d False))"
    using g assms(1,2) by (simp add: general_information_def undeclared_def or_else_def view_texts_children)
      (simp add: view_texts_def)
  moreover have "set (view_texts (system_metrics d False)) \<union> set (view_texts (general_information date_text d False))
      \<subseteq> set (view_texts (health_view date_text percent d False))"
    using assms(3) by (auto simp: health_view_def view_texts_children)
  ultimately show ?thesis by blast
qed



end
