(* ===== verification/Spec2Isabelle.thy ===== *)
theory Spec2Isabelle
  imports KV_Page Services_Page Login_Page ApiKeys_Page Status_Pages Entry Server_KV Contracts Server_Replica Live_Pages
begin

text \<open>
  The Konsul admin console (web/admin/src), with the part of the server it talks to. The console
  is a React application: providers for the session and the live connection, a shell with
  routes, and one component per page; every call to the server goes through one HTTP client,
  except those of the API keys page. The server is a Go program; modelled is a standalone node in
  memory, with its stores, handlers and authentication.

  \<^bold>\<open>The console.\<close>
  \<^item> \<open>Prelude\<close>, \<open>Json\<close>, \<open>Base64\<close>, \<open>Storage\<close>: the values, strings and exceptions of the language,
    \<open>JSON.parse\<close> and \<open>JSON.stringify\<close> with their round trip, \<open>atob\<close>, and the local storage, an
    interpretation of the locale \<open>keyed_store\<close>. The locale \<open>invariant_system\<close> (Prelude) carries
    every invariant below from the steps to the reachable states.
  \<^item> \<open>Api\<close> (lib/api.ts): \<open>api_request\<close> is a call through both interceptors, with the refresh
    of the session and the one retry; each exported function is a definition of its name.
    The server is a parameter, a function of its own state. \<open>Types\<close> has the declared types as
    predicates. Lemmas: which requests a call makes, what it does to the stored session.
  \<^item> \<open>Auth\<close> (contexts/AuthContext.tsx): state and operations of the provider; the step relation
    \<open>session_step\<close> interleaves them with page loads and with calls of the client.
  \<^item> \<open>Live\<close> (contexts/WebSocketContext.tsx): the provider as a machine, \<open>live_step\<close>, whose
    sockets and timers keep the values of the render that made them (\<open>closure\<close>).
  \<^item> \<open>View\<close>: what a component renders, as a tree or an exception; \<open>view_texts\<close> and \<open>view_clicks\<close>
    read it, \<open>crashes\<close> says that rendering throws.
  \<^item> \<open>KV_Page\<close> (pages/KVStore.tsx, components/KVEditor.tsx), \<open>Services_Page\<close>
    (pages/Services.tsx, components/ServiceCard.tsx), \<open>ApiKeys_Page\<close> (pages/APIKeys.tsx),
    \<open>Login_Page\<close> (pages/Login.tsx), \<open>Status_Pages\<close> (pages/Dashboard.tsx, pages/Health.tsx,
    components/StatCard.tsx) with the formatters in \<open>Format\<close> and the form inputs in \<open>Input\<close>.
    The pages that write have their state as a record, their handlers as functions
    on it (\<open>kv_handle\<close>, \<open>service_handle\<close>, \<open>key_handle\<close>), and a step relation in which the user
    acts, requests under way are answered in any order, and data is fetched again.
  \<^item> \<open>Shell\<close> (App.tsx, components/ProtectedRoute.tsx, Navbar.tsx, Sidebar.tsx,
    ConnectionStatus.tsx): which screen a path and a session lead to, and the frame around it;
    \<open>Entry\<close> (main.tsx): the tree of providers and the contexts its components use.

  \<^bold>\<open>The server\<close> (under internal/).
  \<^item> \<open>Server_Base\<close>: how a request body fills a Go struct, errors, answers, 64-bit indices as words.
  \<^item> \<open>Server_KV\<close> (store/kv.go, handlers/kv.go): the key-value store and its handlers.
  \<^item> \<open>Service_Index\<close> (store/service_index.go): the indexes by tag and by metadata, two
    interpretations of the locale \<open>secondary_index\<close>; \<open>Server_Services\<close> (store/service.go,
    service_query.go, validation.go): registration, expiry, clean-up and queries.
  \<^item> \<open>Server_Node\<close> (handlers/service.go, handlers/health.go, cmd/konsul/main.go): the node, a server
    in the sense of \<open>Api\<close>: both stores, a clock in nanoseconds, the routes and the health answer.
  \<^item> \<open>Server_Auth\<close> (auth/jwt.go, handlers/auth.go, middleware/jwt.go): tokens, login, refresh and
    the middleware; \<open>Server_ApiKeys\<close> (auth/apikey.go, handlers/auth.go): the API keys.
  \<^item> \<open>Server_Replica\<close> (raft/fsm.go, raft/commands.go, store/kv.go, store/service.go): the two stores
    as a replica under raft: the commands of the log, and snapshots. The locale
    \<open>replicated_log\<close> says what replicas of one log agree on; three interpretations of it are used.

  \<^bold>\<open>Together.\<close> \<open>Console_Server\<close> has the services, dashboard and health pages on the node;
  \<open>Console_Auth\<close> the node behind the middleware (\<open>gate_server\<close>), with sign-in, ageing tokens and the
  page of the API keys; \<open>Contracts\<close> what the server sends against the declared types;
  \<open>Live_Pages\<close> the live connection with the pages that listen to it.

  \<^bold>\<open>What is shown.\<close> Invariants of every machine (one connection at a time, stored sessions that
  load, only valid writes under way, clean tags, indexes that agree with the services); the
  requests and the session after a call; round trips of a login, of an edited value and of
  uptimes; that no page is shown without a session and that redirects end; outcomes of writes
  that fail; that the calls of the client refine an abstract map, and that a compare-and-swap wins
  at most once; that queries through the indexes are the plain search, and how long a service, a
  session and an API key live; how far replicas of one log agree and what a snapshot keeps; that
  answers of the declared types crash no page (\<open>typed_answers_render\<close>). Several theorems show where
  code and server, or code and documents, disagree: the value of a key is answered as an object and crashes its page
  (\<open>kv_page_never_renders\<close>), after a page load no live event is delivered (\<open>live_boot_deaf\<close>), the
  health answer crashes the health page (\<open>status_pages_of_node\<close>), an access token can be refreshed
  for ever (\<open>access_token_renews\<close>), and replicas part after a batch (\<open>batch_splits_replicas\<close>) or a
  restored snapshot (\<open>snapshot_reuses_version\<close>).

  \<^bold>\<open>Bounds.\<close> Whole numbers are exact; that is the program's arithmetic below \<open>2 ^ 53\<close>, to which
  \<open>json_ok\<close> is bound. Other decimals are kept as they are written. The parser of
  JSON runs on fuel, and \<open>json_parse\<close> hands out enough for any text (\<open>p_value_fuel\<close>).
  \<open>formatBytes\<close> is exact in the model; the theorem on it is about counts below \<open>1024 ^ 4\<close>, where
  the units are defined, and for larger ones says that the unit is missing. Indices of the
  stores are words; \<open>cas_wins_once\<close> asks that the counter does not wrap. Times are whole
  nanoseconds; \<open>clock_ok\<close> bounds them by \<open>2 ^ 63\<close>, and the expiry of an API key is computed in 64
  bits (\<open>go_duration\<close>).

  \<^bold>\<open>Parameters.\<close> The server, for the theories of the console; the matching of paths by the router,
  the text of a date and of a percentage, the answer to a confirmation, which callbacks throw; the
  order in which Go iterates over a map (for a replica a part of its \<open>host\<close>), the figures of the
  runtime, the library that signs and parses tokens (its promise is \<open>jwt_lib_ok\<close>, kept by \<open>demo_lib\<close>), and the hash, the random numbers and
  identifiers of API keys (\<open>key_env_ok\<close>, kept by \<open>demo_keys\<close>).

  \<^bold>\<open>Not modelled.\<close> Class names and icons' looks, the cache of the query library beyond data, loading
  and staleness, its one repetition of a failed query, the doubled effects of development
  builds; logging and metrics. Requests started together are answered one after another. The built
  bundles are generated from the sources modelled here, and the configuration of the build and the
  tests have no behaviour of the program. Of the server: consensus, persistence, watches,
  the operations on many keys of a node without raft, the checks a service may carry, load
  balancing, access control lists, rate limits, auditing, DNS and GraphQL, which the console does not use and which rest on third-party
  libraries.
\<close>

section \<open>All pages\<close>

text \<open>
  C24: Answers of the types the client declares for services, key-value pairs and health crash
  no page: whatever the state of the page, its editor or its form, and whether or not its
  queries are loading, the key-value, services, dashboard and health pages all render.
\<close>

theorem typed_answers_render:
  assumes "list_of is_Service services" and "list_of is_KVPair pairs" and "list_of is_KVPair keys"
    and "is_HealthResponse h"
  shows "\<not> crashes (kv_view (kp\<lparr>kp_data := pairs\<rparr>))
    \<and> \<not> crashes (services_view date_text (sp\<lparr>sp_data := services\<rparr>))
    \<and> \<not> crashes (health_view date_text percent h l)
    \<and> \<not> crashes (dashboard_view \<lparr>qs_services = services, qs_kv_list = keys, qs_health = h, qs_stale = st\<rparr> l1 l2 l3)"
proof -
  obtain ss ks where l: "services = JArr ss" "keys = JArr ks" "\<forall>s \<in> set ss. plain_service s"
    using assms(1,3) by (auto simp: list_of_iff list_all_iff is_Service_plain)
  let ?q = "\<lparr>qs_services = services, qs_kv_list = keys, qs_health = h, qs_stale = st\<rparr>"
  have "\<not> crashes (health_view date_text percent (qs_health ?q) l) \<and> \<not> crashes (dashboard_view ?q l1 l2 l3)"
    using l is_HealthResponse_ok [OF assms(4)] by (intro health_pages_render [of _ ss ks]) simp_all
  with assms(1,2) show ?thesis by (simp add: kv_view_typed services_view_typed)
qed

theorem typed_answers_render_witness:
  "\<not> crashes (services_view to_str (services_init\<lparr>sp_data := JArr [JObj [(''id'', JStr ''web-1''),
      (''name'', JStr ''web''), (''address'', JStr ''h''), (''port'', JNum 80), (''tags'', JArr [JStr ''v1''])]]\<rparr>))"
proof -
  let ?s = "JObj [(''id'', JStr ''web-1''), (''name'', JStr ''web''), (''address'', JStr ''h''), (''port'', JNum 80),
      (''tags'', JArr [JStr ''v1''])]"
  let ?kv = "JObj [(''key'', JStr ''a''), (''value'', JStr ''1'')]"
  let ?h = "JObj [(''status'', JStr ''healthy''), (''uptime'', JNum 90), (''timestamp'', JStr ''now'')]"
  have "list_of is_Service (JArr [?s])" by (simp add: is_Service_def is_object_def optional_def opt_prop_def)
  moreover have "list_of is_KVPair (JArr [?kv])" by (simp add: is_KVPair_def is_object_def optional_def opt_prop_def)
  moreover have "is_HealthResponse ?h" by (simp add: is_HealthResponse_def is_object_def optional_def opt_prop_def)
  ultimately show ?thesis
    using typed_answers_render [of "JArr [?s]" "JArr [?kv]" "JArr [?kv]" ?h] by blast
qed

end
